(* ===== verification/Gasoline_Prelude.thy ===== *)
theory Gasoline_Prelude
  imports Main "HOL-Library.Word" "HOL-Library.Char_ord" "HOL-Library.List_Lexorder"
    "HOL-Library.Sublist"
begin

unbundle bit_operations_syntax

text \<open>
  Shared vocabulary of the development.  A C++ \<open>std::string\<close> is a sequence of 8-bit code
  units, which is exactly HOL's \<^typ>\<open>string\<close>; the order that \<open>Char_ord\<close> and
  \<open>List_Lexorder\<close> put on it is the bytewise order of \<open>std::string\<close>.  A
  \<open>std::array<unsigned char, n>\<close> is a list of \<^typ>\<open>8 word\<close>.  Exceptions are values: an
  operation that may throw returns \<open>'e + 'a\<close>, with \<open>Inl\<close> for the exception, and
  \<open>rbind\<close> sequences two such operations the way a throw skips the rest of a block.
\<close>

named_theorems wf_intros \<open>introduction rules of the components' well-formedness predicates\<close>
named_theorems branch_simps \<open>behaviour of an operation on one of its branches\<close>

type_synonym byte = "8 word"
type_synonym session_id = "64 word"

section \<open>Errors as values\<close>

text \<open>The error numbers the code tells apart: \<open>EAGAIN\<close> is also \<open>EWOULDBLOCK\<close>.\<close>

datatype errno = EINTR | EAGAIN | EOTHER

datatype std_error =
    LengthError string
  | InvalidArgument string
  | RuntimeError string
  | JsonParseError
  | JsonTypeError

definition rbind :: "'e + 'a \<Rightarrow> ('a \<Rightarrow> 'e + 'b) \<Rightarrow> 'e + 'b" where
  "rbind m f = (case m of Inl e \<Rightarrow> Inl e | Inr x \<Rightarrow> f x)"

definition is_ok :: "'e + 'a \<Rightarrow> bool" where
  "is_ok r = (case r of Inl _ \<Rightarrow> False | Inr _ \<Rightarrow> True)"

lemma rbind_Inl [simp]: "rbind (Inl e) f = Inl e"
  and rbind_Inr [simp]: "rbind (Inr x) f = f x"
  by (simp_all add: rbind_def)

lemma rbind_eq_Inr [simp]: "rbind m f = Inr y \<longleftrightarrow> (\<exists>x. m = Inr x \<and> f x = Inr y)"
  by (cases m) simp_all

lemma rbind_eq_Inl: "rbind m f = Inl e \<longleftrightarrow> m = Inl e \<or> (\<exists>x. m = Inr x \<and> f x = Inl e)"
  by (cases m) simp_all

lemma is_ok_simps [simp]: "is_ok (Inr x)" "\<not> is_ok (Inl e)"
  by (simp_all add: is_ok_def)

lemma is_ok_iff: "is_ok r \<longleftrightarrow> (\<exists>x. r = Inr x)"
  by (cases r) simp_all

section \<open>Characters and bytes\<close>

text \<open>\<open>static_cast<char>(w & 0xff)\<close> and \<open>static_cast<uint8_t>(c)\<close>.\<close>

definition low_char :: "'a::len word \<Rightarrow> char" where
  "low_char w = char_of (unat (w AND 0xff))"

definition byte_of_char :: "char \<Rightarrow> byte" where
  "byte_of_char c = of_nat (of_char c)"

lemma unat_byte_of_char: "unat (byte_of_char c) = of_char c"
proof -
  have "(of_char c :: nat) < 256" by simp
  then show ?thesis by (simp add: byte_of_char_def unat_of_nat)
qed

lemma unat_low_byte: "unat (w AND 0xff :: 'a::len word) = unat w mod 256"
proof -
  have "(w AND 0xff :: 'a word) = take_bit 8 w"
    by (simp only: take_bit_eq_mask) (simp add: mask_eq_exp_minus_1)
  then have "unat (w AND 0xff :: 'a word) = take_bit 8 (unat w)"
    by (simp only: unsigned_take_bit_eq)
  then show ?thesis by (simp only: take_bit_eq_mod) simp
qed

lemma of_char_low_char: "(of_char (low_char w) :: nat) = unat w mod 256"
  by (simp add: low_char_def unat_low_byte)

section \<open>Lists\<close>

lemma take_Suc_drop: "n < length xs \<Longrightarrow> take (Suc n) xs = take n xs @ [xs ! n]"
  by (rule take_Suc_conv_app_nth)

lemma map_of_filter_neq: "map_of (filter (\<lambda>(k, v). k \<noteq> a) xs) b = (if b = a then None else map_of xs b)"
  by (induction xs) auto

lemma distinct_map_filter_iff: "distinct (map f xs) \<Longrightarrow> distinct (map f (filter P xs))"
  by (rule distinct_map_filter)

end
