(* ===== verification/Framing.thy ===== *)
theory Framing
  imports Gasoline_Prelude
begin

text \<open>
  The protocol-v2 transport framing of \<open>src/core/protocol/v2_framing.{hpp,cpp}\<close>: the ten-byte
  preface, the encoder of a length-prefixed record and the incremental \<open>RecordParser\<close>.  The
  parser's object state is the record \<open>parser\<close>; \<open>consume\<close> runs the source's nested loops
  over one input fragment and calls the record handler, a state transformer that may also
  throw.  The outer loop is a \<open>partial_function (option)\<close>: it would spin forever in states the
  class never reaches, and it is proved to return in every state it does reach.  The second
  half relates it to a byte-at-a-time reference automaton, from which independence of the
  fragmentation, the round trip with \<open>encode_record\<close>, soundness and the buffer bound follow.
\<close>

section \<open>Constants, preface and encoder\<close>

definition WIRE_VERSION :: "16 word" where
  "WIRE_VERSION = 2"

definition PREFACE_SIZE :: nat where
  "PREFACE_SIZE = 10"

definition RECORD_HEADER_SIZE :: nat where
  "RECORD_HEADER_SIZE = 2"

definition MAX_RECORD_SIZE :: nat where
  "MAX_RECORD_SIZE = 65535"

definition preface_bytes :: string where
  "preface_bytes =
     ''GASOLINE'' @ [low_char (drop_bit 8 WIRE_VERSION AND 0xff), low_char (WIRE_VERSION AND 0xff)]"

definition encode_record :: "string \<Rightarrow> std_error + string" where
  "encode_record payload =
     (if length payload > MAX_RECORD_SIZE
      then Inl (LengthError ''protocol v2 record exceeds 16-bit length limit'')
      else let size = (of_nat (length payload) :: 64 word)
           in Inr ([low_char (drop_bit 8 size AND 0xff), low_char (size AND 0xff)] @ payload))"

section \<open>The record parser\<close>

datatype FramingErrorCode =
    InvalidPreface
  | OversizedRecord
  | TruncatedPreface
  | TruncatedHeader
  | TruncatedPayload
  | ParserFinished

datatype Phase = Preface | Header | Payload

record parser =
  maximum_record_size :: nat
  phase :: Phase
  preface_offset :: nat
  header :: "byte list"
  header_offset :: nat
  expected_payload_size :: nat
  payload :: string
  failed :: bool
  finished :: bool

definition RecordParser :: "nat \<Rightarrow> std_error + parser" where
  "RecordParser max_size =
     (if max_size > MAX_RECORD_SIZE
      then Inl (InvalidArgument ''record parser limit exceeds protocol v2 maximum'')
      else Inr \<lparr>maximum_record_size = max_size, phase = Preface, preface_offset = 0,
                header = [0, 0], header_offset = 0, expected_payload_size = 0, payload = [],
                failed = False, finished = False\<rparr>)"

text \<open>
  How a call of \<open>consume\<close> ends: it returns a boolean, \<open>fail\<close> throws a framing error, or the
  handler throws something of its own.
\<close>

datatype 'x consume_result =
    Returned bool
  | Threw FramingErrorCode
  | HandlerThrew 'x

type_synonym ('s, 'x) RecordHandler = "'s \<Rightarrow> string \<Rightarrow> ('x + bool) \<times> 's"

definition fail :: "FramingErrorCode \<Rightarrow> parser \<Rightarrow> 'x consume_result \<times> parser" where
  "fail code p = (Threw code, p\<lparr>failed := True\<rparr>)"

text \<open>The two inner loops: matching preface bytes, and collecting the two header bytes.\<close>

fun preface_loop :: "parser \<Rightarrow> string \<Rightarrow> (FramingErrorCode + string) \<times> parser" where
  "preface_loop p [] = (Inr [], p)"
| "preface_loop p (c # input) =
     (if preface_offset p < length preface_bytes
      then if c \<noteq> preface_bytes ! preface_offset p
           then (Inl InvalidPreface, p\<lparr>failed := True\<rparr>)
           else preface_loop (p\<lparr>preface_offset := preface_offset p + 1\<rparr>) input
      else (Inr (c # input), p))"

fun header_loop :: "parser \<Rightarrow> string \<Rightarrow> string \<times> parser" where
  "header_loop p [] = ([], p)"
| "header_loop p (c # input) =
     (if header_offset p < RECORD_HEADER_SIZE
      then header_loop (p\<lparr>header := (header p)[header_offset p := byte_of_char c],
                           header_offset := header_offset p + 1\<rparr>) input
      else (c # input, p))"

definition header_length :: "byte list \<Rightarrow> nat" where
  "header_length h = unat (push_bit 8 (ucast (h ! 0)) OR ucast (h ! 1) :: 64 word)"

text \<open>\<open>expected_payload_size_ - payload_.size()\<close> is a subtraction of \<open>size_t\<close>, which wraps.\<close>

definition size_sub :: "nat \<Rightarrow> nat \<Rightarrow> nat" where
  "size_sub a b = unat (of_nat a - of_nat b :: 64 word)"

partial_function (option) consume_loop ::
  "('s, 'x) RecordHandler \<Rightarrow> parser \<Rightarrow> 's \<Rightarrow> string \<Rightarrow> ('x consume_result \<times> parser \<times> 's) option" where
  "consume_loop handler p s input =
    (if input = [] then Some (Returned True, p, s)
     else case phase p of
       Preface \<Rightarrow>
         (case preface_loop p input of
            (Inl code, p1) \<Rightarrow> Some (Threw code, p1, s)
          | (Inr rest, p1) \<Rightarrow>
              consume_loop handler
                (if preface_offset p1 = length preface_bytes then p1\<lparr>phase := Header\<rparr> else p1) s rest)
     | Header \<Rightarrow>
         (case header_loop p input of (rest, p1) \<Rightarrow>
            if header_offset p1 \<noteq> RECORD_HEADER_SIZE then consume_loop handler p1 s rest
            else let p2 = p1\<lparr>expected_payload_size := header_length (header p1), header_offset := 0\<rparr>
                 in if expected_payload_size p2 > maximum_record_size p2
                    then (case fail OversizedRecord p2 of (r, p3) \<Rightarrow> Some (r, p3, s))
                    else if expected_payload_size p2 = 0
                    then (case handler s [] of
                            (Inl x, s1) \<Rightarrow> Some (HandlerThrew x, p2\<lparr>payload := []\<rparr>, s1)
                          | (Inr keep, s1) \<Rightarrow>
                              if keep then consume_loop handler (p2\<lparr>payload := []\<rparr>) s1 rest
                              else Some (Returned False, p2\<lparr>payload := [], failed := True\<rparr>, s1))
                    else consume_loop handler (p2\<lparr>payload := [], phase := Payload\<rparr>) s rest)
     | Payload \<Rightarrow>
         (let remaining = size_sub (expected_payload_size p) (length (payload p));
              count = min remaining (length input);
              p1 = p\<lparr>payload := payload p @ take count input\<rparr>;
              rest = drop count input
          in if length (payload p1) = expected_payload_size p1
             then (let p2 = p1\<lparr>phase := Header, expected_payload_size := 0\<rparr>
                   in case handler s (payload p2) of
                        (Inl x, s1) \<Rightarrow> Some (HandlerThrew x, p2, s1)
                      | (Inr keep, s1) \<Rightarrow>
                          if keep then consume_loop handler (p2\<lparr>payload := []\<rparr>) s1 rest
                          else Some (Returned False, p2\<lparr>payload := [], failed := True\<rparr>, s1))
             else consume_loop handler p1 s rest))"

definition consume ::
  "('s, 'x) RecordHandler \<Rightarrow> parser \<Rightarrow> 's \<Rightarrow> string \<Rightarrow> ('x consume_result \<times> parser \<times> 's) option" where
  "consume handler p s input =
     (if failed p \<or> finished p
      then (case fail ParserFinished p of (r, p1) \<Rightarrow> Some (r, p1, s))
      else consume_loop handler p s input)"

definition finish :: "parser \<Rightarrow> FramingErrorCode option \<times> parser" where
  "finish p =
     (if failed p then (Some ParserFinished, p\<lparr>failed := True\<rparr>)
      else if finished p then (None, p)
      else if phase p = Preface then (Some TruncatedPreface, p\<lparr>failed := True\<rparr>)
      else if phase p = Payload then (Some TruncatedPayload, p\<lparr>failed := True\<rparr>)
      else if header_offset p \<noteq> 0 then (Some TruncatedHeader, p\<lparr>failed := True\<rparr>)
      else (None, p\<lparr>finished := True\<rparr>))"

definition preface_complete :: "parser \<Rightarrow> bool" where
  "preface_complete p \<longleftrightarrow> phase p \<noteq> Preface"

definition buffered_payload_size :: "parser \<Rightarrow> nat" where
  "buffered_payload_size p = length (payload p)"

section \<open>Byte-at-a-time reference automaton\<close>

definition emit ::
  "('s, 'x) RecordHandler \<Rightarrow> parser \<Rightarrow> 's \<Rightarrow> string \<Rightarrow> 'x consume_result \<times> parser \<times> 's" where
  "emit handler p s r =
     (case handler s r of
        (Inl x, s1) \<Rightarrow> (HandlerThrew x, p, s1)
      | (Inr keep, s1) \<Rightarrow>
          if keep then (Returned True, p\<lparr>payload := []\<rparr>, s1)
          else (Returned False, p\<lparr>payload := [], failed := True\<rparr>, s1))"

definition feed_byte ::
  "('s, 'x) RecordHandler \<Rightarrow> parser \<Rightarrow> 's \<Rightarrow> char \<Rightarrow> 'x consume_result \<times> parser \<times> 's" where
  "feed_byte handler p s c =
     (case phase p of
        Preface \<Rightarrow>
          if c \<noteq> preface_bytes ! preface_offset p
          then (Threw InvalidPreface, p\<lparr>failed := True\<rparr>, s)
          else (Returned True,
                p\<lparr>preface_offset := preface_offset p + 1,
                  phase := (if preface_offset p + 1 = length preface_bytes then Header else Preface)\<rparr>, s)
      | Header \<Rightarrow>
          if header_offset p = 0
          then (Returned True, p\<lparr>header := (header p)[0 := byte_of_char c], header_offset := 1\<rparr>, s)
          else let h = (header p)[1 := byte_of_char c]; n = header_length h;
                   p1 = p\<lparr>header := h, expected_payload_size := n, header_offset := 0\<rparr>
               in if n > maximum_record_size p then (Threw OversizedRecord, p1\<lparr>failed := True\<rparr>, s)
                  else if n = 0 then emit handler (p1\<lparr>payload := []\<rparr>) s []
                  else (Returned True, p1\<lparr>payload := [], phase := Payload\<rparr>, s)
      | Payload \<Rightarrow>
          let p1 = p\<lparr>payload := payload p @ [c]\<rparr>
          in if length (payload p1) = expected_payload_size p
             then emit handler (p1\<lparr>phase := Header, expected_payload_size := 0\<rparr>) s (payload p1)
             else (Returned True, p1, s))"

fun feed ::
  "('s, 'x) RecordHandler \<Rightarrow> parser \<Rightarrow> 's \<Rightarrow> string \<Rightarrow> 'x consume_result \<times> parser \<times> 's" where
  "feed handler p s [] = (Returned True, p, s)"
| "feed handler p s (c # input) =
     (case feed_byte handler p s c of
        (Returned True, p1, s1) \<Rightarrow> feed handler p1 s1 input
      | stopped \<Rightarrow> stopped)"

definition wf_parser :: "parser \<Rightarrow> bool" where
  "wf_parser p \<longleftrightarrow>
     length (header p) = 2 \<and> maximum_record_size p \<le> MAX_RECORD_SIZE \<and>
     length (payload p) \<le> maximum_record_size p \<and>
     (case phase p of
        Preface \<Rightarrow> preface_offset p < length preface_bytes \<and> header_offset p = 0 \<and> payload p = []
      | Header \<Rightarrow> header_offset p < 2
      | Payload \<Rightarrow> header_offset p = 0 \<and> length (payload p) < expected_payload_size p \<and>
                   expected_payload_size p \<le> maximum_record_size p)"

lemma wf_parser_flags [simp]:
  "wf_parser (p\<lparr>failed := b\<rparr>) = wf_parser p" "wf_parser (p\<lparr>finished := b\<rparr>) = wf_parser p"
  by (simp_all add: wf_parser_def split: Phase.split)

lemma length_preface_bytes [simp]: "length preface_bytes = 10"
  by (simp add: preface_bytes_def)

lemma size_sub_eq: "b \<le> a \<Longrightarrow> a < 2 ^ 64 \<Longrightarrow> size_sub a b = a - b"
  unfolding size_sub_def
  by (simp add: of_nat_diff [symmetric] unat_of_nat del: of_nat_diff)

lemma feed_append:
  "feed h p s (xs @ ys) =
     (case feed h p s xs of (Returned True, p1, s1) \<Rightarrow> feed h p1 s1 ys | stopped \<Rightarrow> stopped)"
  by (induction xs arbitrary: p s) (auto split: prod.splits consume_result.splits bool.splits)

lemma wf_RecordParser [wf_intros]: "RecordParser m = Inr p \<Longrightarrow> wf_parser p"
  by (auto simp: RecordParser_def wf_parser_def split: if_splits)

lemma wf_emit:
  assumes "emit h p s r = (res, p1, s1)" and "wf_parser p" and "phase p = Header"
  shows "wf_parser p1 \<and> phase p1 = Header"
  using assms by (auto simp: emit_def wf_parser_def split: prod.splits sum.splits if_splits)

lemma wf_feed_byte:
  assumes "wf_parser p" and "feed_byte h p s c = (res, p1, s1)"
  shows "wf_parser p1"
proof (cases "phase p")
  case Preface
  with assms show ?thesis by (auto simp: feed_byte_def wf_parser_def split: if_splits)
next
  case Header
  then show ?thesis
  proof (cases "header_offset p = 0 \<or> header_length ((header p)[1 := byte_of_char c]) \<noteq> 0")
    case True
    with Header assms show ?thesis
      by (auto simp: feed_byte_def wf_parser_def Let_def split: if_splits)
  next
    case False
    with Header assms show ?thesis
      by (auto simp: feed_byte_def Let_def split: if_splits elim!: wf_emit [THEN conjunct1])
        (auto simp: wf_parser_def)
  qed
next
  case Payload
  with assms show ?thesis
    by (auto simp: feed_byte_def Let_def split: if_splits elim!: wf_emit [THEN conjunct1])
      (auto simp: wf_parser_def)
qed

lemma wf_feed: "wf_parser p \<Longrightarrow> feed h p s xs = (res, p1, s1) \<Longrightarrow> wf_parser p1"
proof (induction xs arbitrary: p s)
  case (Cons c xs)
  obtain r q t where fb: "feed_byte h p s c = (r, q, t)" by (metis prod_cases3)
  with Cons.prems(1) have "wf_parser q" by (rule wf_feed_byte)
  with Cons fb show ?case by (auto split: consume_result.splits bool.splits)
qed auto

section \<open>The chunked loop is the reference automaton\<close>

lemma preface_loop_stop: "preface_offset p = 10 \<Longrightarrow> preface_loop p xs = (Inr xs, p)"
  by (cases xs) simp_all

lemma preface_loop_feed:
  assumes "phase p = Preface" and "preface_offset p < 10"
  shows "feed h p s xs =
    (case preface_loop p xs of
       (Inl code, p1) \<Rightarrow> (Threw code, p1, s)
     | (Inr rest, p1) \<Rightarrow>
         feed h (if preface_offset p1 = 10 then p1\<lparr>phase := Header\<rparr> else p1) s rest)"
  using assms
proof (induction xs arbitrary: p)
  case (Cons c xs)
  let ?q = "p\<lparr>preface_offset := Suc (preface_offset p)\<rparr>"
  show ?case
  proof (cases "Suc (preface_offset p) = 10")
    case True
    with Cons.prems show ?thesis by (simp add: feed_byte_def preface_loop_stop)
  next
    case False
    with Cons.prems have "feed h ?q s xs =
      (case preface_loop ?q xs of
         (Inl code, p1) \<Rightarrow> (Threw code, p1, s)
       | (Inr rest, p1) \<Rightarrow>
           feed h (if preface_offset p1 = 10 then p1\<lparr>phase := Header\<rparr> else p1) s rest)"
      by (intro Cons.IH) auto
    with False Cons.prems show ?thesis by (cases p) (simp add: feed_byte_def)
  qed
qed simp

lemma preface_loop_shorter:
  "preface_loop p xs = (Inr rest, p1) \<Longrightarrow> length rest \<le> length xs"
  by (induction xs arbitrary: p) (auto split: if_splits intro: le_SucI)

lemma preface_loop_wf:
  assumes "preface_loop p xs = (Inr rest, p1)" and "wf_parser p" and "phase p = Preface"
  shows "wf_parser (if preface_offset p1 = 10 then p1\<lparr>phase := Header\<rparr> else p1)"
proof -
  have "preface_loop p xs = (Inr rest, p1) \<Longrightarrow> preface_offset p \<le> 10 \<Longrightarrow>
      preface_offset p1 \<le> 10 \<and> header p1 = header p \<and> header_offset p1 = header_offset p \<and>
      payload p1 = payload p \<and> phase p1 = phase p \<and>
      maximum_record_size p1 = maximum_record_size p" for p
    by (induction xs arbitrary: p) (auto split: if_splits)
  from this [OF assms(1)] assms(2,3) show ?thesis by (auto simp: wf_parser_def)
qed

lemma header_loop_stop: "header_offset p = 2 \<Longrightarrow> header_loop p xs = (xs, p)"
  by (cases xs) (simp_all add: RECORD_HEADER_SIZE_def)

lemma header_loop_1: "header_offset p = 1 \<Longrightarrow>
  header_loop p (c # xs) = (xs, p\<lparr>header := (header p)[1 := byte_of_char c], header_offset := 2\<rparr>)"
  by (simp add: RECORD_HEADER_SIZE_def header_loop_stop numeral_2_eq_2)

lemma header_loop_0: "header_offset p = 0 \<Longrightarrow>
  header_loop p (c # xs) =
    header_loop (p\<lparr>header := (header p)[0 := byte_of_char c], header_offset := 1\<rparr>) xs"
  by (simp add: RECORD_HEADER_SIZE_def)

lemma payload_feed:
  assumes "phase p = Payload" and "length (payload p) + length xs < expected_payload_size p"
  shows "feed h p s (xs @ ys) = feed h (p\<lparr>payload := payload p @ xs\<rparr>) s ys"
  using assms
proof (induction xs arbitrary: p)
  case (Cons c xs)
  then have "feed h p s ((c # xs) @ ys) = feed h (p\<lparr>payload := payload p @ [c]\<rparr>) s (xs @ ys)"
    by (simp add: feed_byte_def)
  also have "\<dots> = feed h (p\<lparr>payload := payload p @ c # xs\<rparr>) s ys"
    using Cons.prems by (subst Cons.IH) simp_all
  finally show ?case .
qed simp

lemma feed_Cons_emit:
  "(case emit h p s r of (Returned True, p1, s1) \<Rightarrow> feed h p1 s1 xs | stopped \<Rightarrow> stopped) =
   (case h s r of
      (Inl x, s1) \<Rightarrow> (HandlerThrew x, p, s1)
    | (Inr keep, s1) \<Rightarrow>
        if keep then feed h (p\<lparr>payload := []\<rparr>) s1 xs
        else (Returned False, p\<lparr>payload := [], failed := True\<rparr>, s1))"
  by (simp add: emit_def split: prod.splits sum.splits)

lemma loop_preface:
  assumes "phase p = Preface" and "wf_parser p" and "xs \<noteq> []"
    and IH: "\<And>q t ys. length ys < length xs \<Longrightarrow> wf_parser q \<Longrightarrow>
      consume_loop h q t ys = Some (feed h q t ys)"
  shows "consume_loop h p s xs = Some (feed h p s xs)"
proof -
  from assms(1-2) have off: "preface_offset p < 10" by (simp add: wf_parser_def)
  obtain c cs where xs: "xs = c # cs" using assms(3) by (cases xs) auto
  obtain o1 p1 where pl: "preface_loop p xs = (o1, p1)" by (cases "preface_loop p xs")
  show ?thesis
  proof (cases o1)
    case (Inl code)
    with pl assms(1,3) off show ?thesis
      by (simp add: consume_loop.simps [of h p] preface_loop_feed)
  next
    case (Inr rest)
    have "length rest \<le> length cs"
      using pl off unfolding xs Inr
      by (auto split: if_splits dest: preface_loop_shorter)
    then have "length rest < length xs" by (simp add: xs)
    moreover have "wf_parser (if preface_offset p1 = 10 then p1\<lparr>phase := Header\<rparr> else p1)"
      using pl assms(1,2) unfolding Inr by (intro preface_loop_wf)
    ultimately show ?thesis using pl assms(1,3) off Inr
      by (simp add: consume_loop.simps [of h p] preface_loop_feed IH)
  qed
qed

lemma loop_header:
  assumes "phase p = Header" and "wf_parser p" and "xs \<noteq> []"
    and IH: "\<And>q t ys. length ys < length xs \<Longrightarrow> wf_parser q \<Longrightarrow>
      consume_loop h q t ys = Some (feed h q t ys)"
  shows "consume_loop h p s xs = Some (feed h p s xs)"
proof -
  have hd1: "consume_loop h p s xs = Some (feed h q s ys)"
    if q: "header_loop p xs = header_loop q ys" "header_offset q = 1" "wf_parser q"
      "phase q = Header" and ys: "length ys \<le> length xs" for q ys
  proof (cases ys)
    case Nil
    with q assms(1,3) show ?thesis
      by (simp add: consume_loop.simps [of h p] consume_loop.simps [of h q] RECORD_HEADER_SIZE_def)
  next
    case (Cons c cs)
    let ?h = "(header q)[1 := byte_of_char c]"
    let ?p2 = "q\<lparr>header := ?h, expected_payload_size := header_length ?h, header_offset := 0\<rparr>"
    have len: "length cs < length xs" using ys Cons by simp
    have wf0: "wf_parser (?p2\<lparr>payload := []\<rparr>)"
      using q(3,4) by (simp add: wf_parser_def)
    have wf1: "header_length ?h \<le> maximum_record_size q \<Longrightarrow> header_length ?h \<noteq> 0 \<Longrightarrow>
        wf_parser (?p2\<lparr>payload := [], phase := Payload\<rparr>)"
      using q(3) by (simp add: wf_parser_def)
    have hl: "header_loop p xs = (cs, q\<lparr>header := ?h, header_offset := 2\<rparr>)"
      using q(1,2) Cons by (simp add: header_loop_1 del: header_loop.simps)
    have "consume_loop h p s xs =
      (if header_length ?h > maximum_record_size q
       then Some (Threw OversizedRecord, ?p2\<lparr>failed := True\<rparr>, s)
       else if header_length ?h = 0
       then (case h s [] of
               (Inl x, s1) \<Rightarrow> Some (HandlerThrew x, ?p2\<lparr>payload := []\<rparr>, s1)
             | (Inr keep, s1) \<Rightarrow>
                 if keep then consume_loop h (?p2\<lparr>payload := []\<rparr>) s1 cs
                 else Some (Returned False, ?p2\<lparr>payload := [], failed := True\<rparr>, s1))
       else consume_loop h (?p2\<lparr>payload := [], phase := Payload\<rparr>) s cs)"
      using assms(1,3)
      by (simp add: consume_loop.simps [of h p s xs] hl RECORD_HEADER_SIZE_def Let_def fail_def
          del: header_loop.simps One_nat_def)
    moreover have "feed h q s ys =
      (if header_length ?h > maximum_record_size q
       then (Threw OversizedRecord, ?p2\<lparr>failed := True\<rparr>, s)
       else if header_length ?h = 0
       then (case emit h (?p2\<lparr>payload := []\<rparr>) s [] of
               (Returned True, p1, s1) \<Rightarrow> feed h p1 s1 cs | stopped \<Rightarrow> stopped)
       else feed h (?p2\<lparr>payload := [], phase := Payload\<rparr>) s cs)"
      using q(2,4) Cons by (simp add: feed_byte_def Let_def del: One_nat_def)
    ultimately show ?thesis
      using IH [OF len wf0] IH [OF len wf1]
      by (auto simp: feed_Cons_emit split: prod.splits sum.splits)
  qed
  obtain c cs where xs: "xs = c # cs" using assms(3) by (cases xs) auto
  show ?thesis
  proof (cases "header_offset p = 0")
    case True
    let ?q = "p\<lparr>header := (header p)[0 := byte_of_char c], header_offset := 1\<rparr>"
    have "feed h p s xs = feed h ?q s cs" using True assms(1) by (simp add: xs feed_byte_def)
    moreover have "consume_loop h p s xs = Some (feed h ?q s cs)"
      using True assms(1,2) by (intro hd1) (auto simp: xs RECORD_HEADER_SIZE_def wf_parser_def)
    ultimately show ?thesis by simp
  next
    case False
    with assms(1,2) have "header_offset p = 1" by (simp add: wf_parser_def)
    then show ?thesis using hd1 [of p xs] assms(1,2) by simp
  qed
qed

lemma loop_payload:
  assumes "phase p = Payload" and "wf_parser p" and "xs \<noteq> []"
    and IH: "\<And>q t ys. length ys < length xs \<Longrightarrow> wf_parser q \<Longrightarrow>
      consume_loop h q t ys = Some (feed h q t ys)"
  shows "consume_loop h p s xs = Some (feed h p s xs)"
proof -
  let ?rem = "expected_payload_size p - length (payload p)"
  from assms(1,2) have e: "length (payload p) < expected_payload_size p"
    "expected_payload_size p \<le> maximum_record_size p" "maximum_record_size p \<le> 65535"
    by (auto simp: wf_parser_def MAX_RECORD_SIZE_def)
  then have sub: "size_sub (expected_payload_size p) (length (payload p)) = ?rem"
    by (intro size_sub_eq) auto
  show ?thesis
  proof (cases "length xs < ?rem")
    case True
    have "wf_parser (p\<lparr>payload := payload p @ xs\<rparr>)"
      using assms(1,2) True by (auto simp: wf_parser_def)
    moreover have "feed h p s xs = feed h (p\<lparr>payload := payload p @ xs\<rparr>) s []"
      using payload_feed [of p xs h s "[]"] assms(1) True by simp
    moreover have "consume_loop h p s xs = consume_loop h (p\<lparr>payload := payload p @ xs\<rparr>) s []"
    proof -
      have "length (payload p) + length xs \<noteq> expected_payload_size p" using True by linarith
      then show ?thesis
        using assms(1,3) True by (simp add: consume_loop.simps [of h p s xs] sub Let_def)
    qed
    ultimately show ?thesis using assms(3) by (simp add: IH del: feed.simps)
  next
    case False
    define a where "a = take (?rem - 1) xs"
    define c where "c = xs ! (?rem - 1)"
    define ys where "ys = drop ?rem xs"
    have rem: "0 < ?rem" using e by simp
    have tk: "take ?rem xs = a @ [c]"
    proof -
      obtain n where n: "?rem = Suc n" using rem by (cases ?rem) auto
      then have "n < length xs" using False by linarith
      then show ?thesis by (simp add: a_def c_def n take_Suc_drop del: take_Suc)
    qed
    then have xs: "xs = a @ c # ys" by (metis append_take_drop_id ys_def append_Cons append_Nil append_assoc)
    have la: "length (payload p) + length a < expected_payload_size p"
      "Suc (length (payload p) + length a) = expected_payload_size p"
      using False rem by (auto simp: a_def)
    let ?r = "payload p @ a @ [c]"
    let ?p2 = "p\<lparr>payload := ?r, phase := Header, expected_payload_size := 0\<rparr>"
    have wf: "wf_parser (?p2\<lparr>payload := []\<rparr>)" using assms(1,2) by (simp add: wf_parser_def)
    have len: "length ys < length xs" by (simp add: xs)
    have "feed h p s xs = (case emit h ?p2 s ?r of
        (Returned True, p1, s1) \<Rightarrow> feed h p1 s1 ys | stopped \<Rightarrow> stopped)"
      using assms(1) la by (simp add: xs payload_feed feed_byte_def)
    moreover have "consume_loop h p s xs = (case h s ?r of
        (Inl x, s1) \<Rightarrow> Some (HandlerThrew x, ?p2, s1)
      | (Inr keep, s1) \<Rightarrow>
          if keep then consume_loop h (?p2\<lparr>payload := []\<rparr>) s1 ys
          else Some (Returned False, ?p2\<lparr>payload := [], failed := True\<rparr>, s1))"
      using assms(1,3) False la
      by (simp add: consume_loop.simps [of h p s xs] sub Let_def tk ys_def min_absorb1
          split: prod.split sum.split)
    ultimately show ?thesis
      using IH [OF len wf] by (auto simp: feed_Cons_emit split: prod.splits sum.splits)
  qed
qed

lemma consume_loop_eq_feed: "wf_parser p \<Longrightarrow> consume_loop h p s xs = Some (feed h p s xs)"
proof (induction "length xs" arbitrary: p s xs rule: less_induct)
  case less
  have IH: "\<And>q t ys. length ys < length xs \<Longrightarrow> wf_parser q \<Longrightarrow>
      consume_loop h q t ys = Some (feed h q t ys)"
    by (rule less.hyps)
  show ?case
  proof (cases "xs = []")
    case True
    then show ?thesis by (simp add: consume_loop.simps)
  next
    case False
    note step = loop_preface [OF _ less.prems False IH] loop_header [OF _ less.prems False IH]
      loop_payload [OF _ less.prems False IH]
    show ?thesis by (cases "phase p") (erule step; assumption)+
  qed
qed

section \<open>Header arithmetic\<close>

lemma header_length_eq: "header_length [b0, b1] = 256 * unat b0 + unat b1"
proof -
  have disj: "push_bit 8 (ucast b0 :: 64 word) AND ucast b1 = 0"
    by (rule bit_eqI) (auto simp: bit_simps dest: bit_imp_le_length)
  have lt: "unat b0 < 256" "unat b1 < 256"
    using unsigned_less [of b0] unsigned_less [of b1] by simp_all
  have eq: "push_bit 8 (ucast b0) OR ucast b1 = (of_nat (256 * unat b0 + unat b1) :: 64 word)"
    unfolding disjunctive_add_eq_or [OF disj, symmetric]
    by (simp add: push_bit_eq_mult)
  have "header_length [b0, b1] = unat (of_nat (256 * unat b0 + unat b1) :: 64 word)"
    unfolding header_length_def by (simp only: nth_Cons_0 nth_Cons_Suc One_nat_def eq)
  then show ?thesis using lt by (simp only: unat_of_nat) simp
qed

definition record_header :: "nat \<Rightarrow> string" where
  "record_header n = [char_of (n div 256), char_of (n mod 256)]"

lemma encode_record_eq:
  assumes "length r \<le> MAX_RECORD_SIZE"
  shows "encode_record r = Inr (record_header (length r) @ r)"
proof -
  let ?w = "of_nat (length r) :: 64 word"
  have u: "unat ?w = length r" using assms by (simp add: unat_of_nat MAX_RECORD_SIZE_def)
  have "unat (drop_bit 8 ?w) = length r div 256"
    by (simp add: drop_bit_eq_div unat_div_distrib u)
  moreover have "length r div 256 < 256" using assms by (simp add: MAX_RECORD_SIZE_def)
  ultimately show ?thesis using assms u
    by (simp add: encode_record_def Let_def record_header_def low_char_def unat_low_byte)
qed

lemma header_length_record_header:
  assumes "n \<le> MAX_RECORD_SIZE"
  shows "header_length [byte_of_char (char_of (n div 256)), byte_of_char (char_of (n mod 256))] = n"
proof -
  have "n div 256 < 256" using assms by (simp add: MAX_RECORD_SIZE_def)
  then show ?thesis by (simp add: header_length_eq unat_byte_of_char)
qed

lemma record_header_header_length:
  "record_header (header_length [byte_of_char a, byte_of_char b]) = [a, b]"
proof -
  have "(of_char a :: nat) < 256" "(of_char b :: nat) < 256" by simp_all
  then show ?thesis
    by (simp add: record_header_def header_length_eq unat_byte_of_char)
qed

lemma header_length_le: "header_length [b0, b1] \<le> MAX_RECORD_SIZE"
proof -
  have "unat b0 < 256" "unat b1 < 256"
    using unsigned_less [of b0] unsigned_less [of b1] by simp_all
  then show ?thesis by (simp add: header_length_eq MAX_RECORD_SIZE_def)
qed

section \<open>What every call keeps\<close>

definition accepting :: "parser \<Rightarrow> bool" where
  "accepting p \<longleftrightarrow> wf_parser p \<and> \<not> failed p \<and> \<not> finished p"

lemma accepting_RecordParser [wf_intros]: "RecordParser m = Inr p \<Longrightarrow> accepting p"
  using wf_RecordParser [of m p] by (auto simp: accepting_def RecordParser_def split: if_splits)

lemma maximum_RecordParser: "RecordParser m = Inr p \<Longrightarrow> maximum_record_size p = m"
  by (auto simp: RecordParser_def split: if_splits)

lemma feed_byte_frame:
  assumes "feed_byte h p s c = (res, p1, s1)"
  shows "maximum_record_size p1 = maximum_record_size p \<and> finished p1 = finished p \<and>
    failed p1 = (failed p \<or> res = Returned False \<or> (\<exists>e. res = Threw e))"
  using assms
  by (cases "phase p")
    (auto simp: feed_byte_def emit_def Let_def split: if_splits prod.splits sum.splits)

lemma feed_frame:
  assumes "feed h p s xs = (res, p1, s1)"
  shows "maximum_record_size p1 = maximum_record_size p \<and> finished p1 = finished p \<and>
    failed p1 = (failed p \<or> res = Returned False \<or> (\<exists>e. res = Threw e))"
  using assms
proof (induction xs arbitrary: p s)
  case (Cons c xs)
  obtain r q t where fb: "feed_byte h p s c = (r, q, t)" by (metis prod_cases3)
  show ?case
  proof (cases "r = Returned True")
    case True
    with Cons.prems fb have "feed h q t xs = (res, p1, s1)" by simp
    from Cons.IH [OF this] feed_byte_frame [OF fb] True show ?thesis by auto
  next
    case False
    with Cons.prems fb have "(res, p1, s1) = (r, q, t)"
      by (auto split: consume_result.splits bool.splits)
    with feed_byte_frame [OF fb] show ?thesis by auto
  qed
qed auto

lemma feed_accepting:
  "accepting p \<Longrightarrow> feed h p s xs = (Returned True, p1, s1) \<Longrightarrow> accepting p1"
  using feed_frame [of h p s xs "Returned True" p1 s1] wf_feed [of p h s xs "Returned True" p1 s1]
  by (auto simp: accepting_def)

lemma consume_eq_feed: "accepting p \<Longrightarrow> consume h p s xs = Some (feed h p s xs)"
  by (simp add: consume_def accepting_def consume_loop_eq_feed)

lemma consume_wf: "wf_parser p \<Longrightarrow> consume h p s xs = Some (res, p1, s1) \<Longrightarrow> wf_parser p1"
  by (auto simp: consume_def fail_def consume_loop_eq_feed wf_feed split: if_splits)

text \<open>The receive loop hands the parser one fragment after another until one does not return true.\<close>

fun consume_all ::
  "('s, 'x) RecordHandler \<Rightarrow> parser \<Rightarrow> 's \<Rightarrow> string list \<Rightarrow> ('x consume_result \<times> parser \<times> 's) option" where
  "consume_all h p s [] = Some (Returned True, p, s)"
| "consume_all h p s (frag # frags) =
     (case consume h p s frag of
        Some (Returned True, p1, s1) \<Rightarrow> consume_all h p1 s1 frags
      | stopped \<Rightarrow> stopped)"

lemma consume_all_eq_feed: "accepting p \<Longrightarrow> consume_all h p s frags = Some (feed h p s (concat frags))"
proof (induction frags arbitrary: p s)
  case (Cons frag frags)
  obtain r q t where f: "feed h p s frag = (r, q, t)" by (metis prod_cases3)
  show ?case
  proof (cases "r = Returned True")
    case True
    then have "accepting q" using feed_accepting [of p h s frag q t] Cons.prems f by simp
    with Cons f True show ?thesis by (simp add: consume_eq_feed feed_append)
  next
    case False
    with Cons.prems f show ?thesis
      by (auto simp: consume_eq_feed feed_append split: consume_result.splits bool.splits)
  qed
qed simp

section \<open>The contract with the record handler\<close>

text \<open>
  A client of the parser is a handler with a state invariant that every delivered record within
  the size limit keeps; consuming any input then keeps it too.
\<close>

locale record_client =
  fixes handler :: "('s, 'x) RecordHandler"
    and inv :: "'s \<Rightarrow> bool"
    and limit :: nat
  assumes handler_inv: "inv s \<Longrightarrow> length r \<le> limit \<Longrightarrow> inv (snd (handler s r))"
begin

lemma emit_inv:
  assumes "emit handler p s r = (res, p1, s1)" and "inv s" and "length r \<le> limit"
  shows "inv s1"
proof -
  have "s1 = snd (handler s r)"
    using assms(1) by (auto simp: emit_def split: prod.splits sum.splits if_splits)
  with assms(2,3) show ?thesis by (simp add: handler_inv)
qed

lemma feed_byte_inv:
  assumes "wf_parser p" and "maximum_record_size p \<le> limit" and "inv s"
    and "feed_byte handler p s c = (res, p1, s1)"
  shows "inv s1"
  using assms
  by (cases "phase p")
    (auto simp: feed_byte_def Let_def wf_parser_def split: if_splits elim!: emit_inv)

lemma feed_inv:
  assumes "wf_parser p" and "maximum_record_size p \<le> limit" and "inv s"
    and "feed handler p s xs = (res, p1, s1)"
  shows "inv s1"
  using assms
proof (induction xs arbitrary: p s)
  case (Cons c xs)
  obtain r q t where fb: "feed_byte handler p s c = (r, q, t)" by (metis prod_cases3)
  from feed_byte_inv [OF Cons.prems(1-3) fb] have t: "inv t" .
  from wf_feed_byte [OF Cons.prems(1) fb] feed_byte_frame [OF fb] Cons.prems(2)
  have q: "wf_parser q" "maximum_record_size q \<le> limit" by auto
  show ?case
  proof (cases "r = Returned True")
    case True
    with Cons.prems(4) fb have "feed handler q t xs = (res, p1, s1)" by simp
    from Cons.IH [OF q t this] show ?thesis .
  next
    case False
    with Cons.prems(4) fb have "s1 = t" by (auto split: consume_result.splits bool.splits)
    with t show ?thesis by simp
  qed
qed simp

lemma consume_inv:
  assumes "wf_parser p" and "maximum_record_size p \<le> limit" and "inv s"
    and "consume handler p s xs = Some (res, p1, s1)"
  shows "inv s1"
  using assms feed_inv [OF assms(1-3)]
  by (auto simp: consume_def fail_def consume_loop_eq_feed split: if_splits)

end

text \<open>The handler that only collects the records, in order; it never stops the parser.\<close>

definition collect :: "(string list, unit) RecordHandler" where
  "collect rs r = (Inr True, rs @ [r])"

interpretation collector: record_client collect "\<lambda>rs. \<forall>r \<in> set rs. length r \<le> limit" limit
  for limit
  by unfold_locales (auto simp: collect_def)

section \<open>Delivering encoded records\<close>

definition wire :: "string \<Rightarrow> string" where
  "wire r = record_header (length r) @ r"

definition at_boundary :: "parser \<Rightarrow> bool" where
  "at_boundary p \<longleftrightarrow> accepting p \<and> phase p = Header \<and> header_offset p = 0"

lemma resume_id:
  "(case x of (Returned True, p1, s1) \<Rightarrow> feed h p1 s1 [] | stopped \<Rightarrow> stopped) = x"
  by (simp split: prod.split consume_result.split bool.split)

lemma emit_collect: "emit collect p s r = (Returned True, p\<lparr>payload := []\<rparr>, s @ [r])"
  by (simp add: emit_def collect_def)

lemma preface_bytes_snoc: "take 9 preface_bytes @ [preface_bytes ! 9] = preface_bytes"
  by (simp add: preface_bytes_def)

lemma feed_preface_suffix:
  assumes "phase p = Preface" and "preface_offset p + k = 10" and "0 < k"
  shows "feed h p s (drop (preface_offset p) preface_bytes) =
    (Returned True, p\<lparr>preface_offset := 10, phase := Header\<rparr>, s)"
  using assms
proof (induction k arbitrary: p)
  case (Suc k)
  let ?n = "preface_offset p"
  have cs: "drop ?n preface_bytes = preface_bytes ! ?n # drop (Suc ?n) preface_bytes"
    using Suc.prems by (simp add: Cons_nth_drop_Suc)
  show ?case
  proof (cases k)
    case 0
    with Suc.prems show ?thesis unfolding cs by (simp add: feed_byte_def)
  next
    case (Suc j)
    with Suc.prems Suc.IH [of "p\<lparr>preface_offset := Suc ?n\<rparr>"] show ?thesis
      unfolding cs by (cases p) (simp add: feed_byte_def)
  qed
qed simp

lemma feed_preface:
  assumes "RecordParser m = Inr p"
  shows "\<exists>q. feed h p s preface_bytes = (Returned True, q, s) \<and> at_boundary q \<and>
    maximum_record_size q = m"
proof -
  let ?q = "p\<lparr>preface_offset := 10, phase := Header\<rparr>"
  have "feed h p s preface_bytes = (Returned True, ?q, s)"
    using feed_preface_suffix [of p 10 h s] assms by (auto simp: RecordParser_def split: if_splits)
  moreover from feed_accepting [OF accepting_RecordParser [OF assms] this]
  have "at_boundary ?q" using assms by (auto simp: at_boundary_def RecordParser_def split: if_splits)
  ultimately show ?thesis using assms by (auto simp: maximum_RecordParser)
qed

lemma feed_wire:
  assumes "at_boundary p" and "length r \<le> maximum_record_size p"
  shows "\<exists>q. feed h p s (wire r) = emit h q s r \<and> at_boundary (q\<lparr>payload := []\<rparr>) \<and>
    maximum_record_size q = maximum_record_size p"
proof -
  from assms(1) have p: "phase p = Header" "header_offset p = 0" "length (header p) = 2"
      "maximum_record_size p \<le> MAX_RECORD_SIZE"
    by (auto simp: at_boundary_def accepting_def wf_parser_def)
  let ?n = "length r"
  let ?a = "char_of (?n div 256) :: char"
  let ?b = "char_of (?n mod 256) :: char"
  let ?h = "[byte_of_char ?a, byte_of_char ?b]"
  let ?pa = "p\<lparr>header := (header p)[0 := byte_of_char ?a], header_offset := 1\<rparr>"
  let ?p1 = "p\<lparr>header := ?h, expected_payload_size := ?n, header_offset := 0, payload := []\<rparr>"
  have hdr: "((header p)[0 := a])[Suc 0 := b] = [a, b]" for a b
    using p(3) by (cases "header p" rule: list.exhaust) (auto simp: Suc_length_conv length_Suc_conv)
  have hl: "header_length ?h = ?n"
    by (rule header_length_record_header) (use p(4) assms(2) in linarith)
  have f1: "feed_byte h p s ?a = (Returned True, ?pa, s)"
    using p(1,2) by (simp add: feed_byte_def)
  have f2: "feed_byte h ?pa s ?b =
      (if r = [] then emit h ?p1 s [] else (Returned True, ?p1\<lparr>phase := Payload\<rparr>, s))"
    using p(1) hl assms(2) by (cases "r = []") (simp_all add: feed_byte_def Let_def hdr)
  have step: "feed h p s (wire r) =
     (if r = [] then emit h ?p1 s [] else feed h (?p1\<lparr>phase := Payload\<rparr>) s r)"
  proof -
    have w: "wire r = ?a # ?b # r" by (simp add: wire_def record_header_def)
    have "feed h p s (wire r) =
        (case feed_byte h ?pa s ?b of
           (Returned True, p1, s1) \<Rightarrow> feed h p1 s1 r | stopped \<Rightarrow> stopped)"
      unfolding w by (simp only: feed.simps f1) simp
    then show ?thesis unfolding f2
      by (cases "r = []") (simp_all split: prod.split consume_result.split bool.split)
  qed
  show ?thesis
  proof (cases "r = []")
    case True
    have "at_boundary (?p1\<lparr>payload := []\<rparr>)"
      using assms(1) by (simp add: at_boundary_def accepting_def wf_parser_def)
    with step True show ?thesis by (intro exI [of _ ?p1]) simp
  next
    case False
    then have r: "r = butlast r @ [last r]" by simp
    let ?q = "?p1\<lparr>payload := r, phase := Header, expected_payload_size := 0\<rparr>"
    have "feed h (?p1\<lparr>phase := Payload\<rparr>) s (butlast r @ [last r]) = emit h ?q s r"
      using False
      by (subst payload_feed) (simp_all add: feed_byte_def Let_def resume_id)
    moreover have "at_boundary (?q\<lparr>payload := []\<rparr>)"
      using assms(1) by (simp add: at_boundary_def accepting_def wf_parser_def)
    ultimately show ?thesis using step False by (intro exI [of _ ?q]) simp
  qed
qed

lemma feed_wires:
  assumes "at_boundary p" and "\<forall>r \<in> set rs. length r \<le> maximum_record_size p"
  shows "\<exists>q. feed collect p s (concat (map wire rs)) = (Returned True, q, s @ rs) \<and> at_boundary q"
  using assms
proof (induction rs arbitrary: p s)
  case (Cons r rs)
  then obtain q where q: "feed collect p s (wire r) = emit collect q s r"
      "at_boundary (q\<lparr>payload := []\<rparr>)" "maximum_record_size q = maximum_record_size p"
    using feed_wire [of p r collect s] by auto
  with Cons.IH [of "q\<lparr>payload := []\<rparr>" "s @ [r]"] Cons.prems show ?case
    by (auto simp: feed_append emit_collect)
qed simp

section \<open>Recovering the consumed bytes\<close>

definition pending :: "parser \<Rightarrow> string" where
  "pending p =
     (case phase p of
        Preface \<Rightarrow> take (preface_offset p) preface_bytes
      | Header \<Rightarrow> (if header_offset p = 0 then [] else [char_of (unat (header p ! 0))])
      | Payload \<Rightarrow> record_header (expected_payload_size p) @ payload p)"

definition consumed :: "parser \<Rightarrow> string list \<Rightarrow> string" where
  "consumed p rs =
     (if phase p = Preface then pending p else preface_bytes @ concat (map wire rs) @ pending p)"

lemma char_of_byte [simp]: "char_of (unat (byte_of_char c)) = c"
  by (simp add: unat_byte_of_char)

lemma byte_of_char_of: "byte_of_char (char_of (unat b)) = b"
proof -
  have "unat b < 256" using unsigned_less [of b] by simp
  then show ?thesis by (simp add: byte_of_char_def)
qed

lemma consumed_feed_byte:
  assumes "wf_parser p" and "phase p = Preface \<Longrightarrow> rs = []"
    and "feed_byte collect p rs c = (Returned True, p1, rs1)"
  shows "consumed p1 rs1 = consumed p rs @ [c] \<and> (phase p1 = Preface \<longrightarrow> rs1 = [])"
proof (cases "phase p")
  case Preface
  with assms show ?thesis
    by (auto simp: feed_byte_def consumed_def pending_def wf_parser_def take_Suc_drop
        preface_bytes_snoc split: if_splits)
next
  case Header
  then have len: "length (header p) = 2" and off: "header_offset p < 2"
    using assms(1) by (auto simp: wf_parser_def)
  show ?thesis
  proof (cases "header_offset p = 0")
    case True
    with Header assms(3) len show ?thesis
      by (auto simp: feed_byte_def consumed_def pending_def)
  next
    case False
    obtain b0 b1 where hd: "header p = [b0, b1]"
      using len by (cases "header p" rule: list.exhaust) (auto simp: Suc_length_conv length_Suc_conv)
    have rh: "record_header (header_length [b0, byte_of_char c]) = [char_of (unat b0), c]"
      using record_header_header_length [of "char_of (unat b0)" c] by (simp add: byte_of_char_of)
    with False Header assms(3) off show ?thesis
      by (auto simp: feed_byte_def Let_def emit_collect consumed_def pending_def hd wire_def
          split: if_splits)
  qed
next
  case Payload
  with assms show ?thesis
    by (auto simp: feed_byte_def Let_def emit_collect consumed_def pending_def wire_def wf_parser_def
        split: if_splits)
qed

lemma consumed_feed:
  assumes "wf_parser p" and "phase p = Preface \<Longrightarrow> rs = []"
    and "feed collect p rs xs = (Returned True, p1, rs1)"
  shows "consumed p1 rs1 = consumed p rs @ xs"
  using assms
proof (induction xs arbitrary: p rs)
  case (Cons c xs)
  obtain r q t where fb: "feed_byte collect p rs c = (r, q, t)" by (metis prod_cases3)
  with Cons.prems(3) have r: "r = Returned True" and f: "feed collect q t xs = (Returned True, p1, rs1)"
    by (auto split: consume_result.splits bool.splits)
  from consumed_feed_byte [OF Cons.prems(1,2)] fb r
  have "consumed q t = consumed p rs @ [c]" "phase q = Preface \<Longrightarrow> t = []" by auto
  moreover have "wf_parser q" using Cons.prems(1) fb by (rule wf_feed_byte)
  ultimately show ?case using Cons.IH [OF _ _ f] by simp
qed simp

section \<open>Properties\<close>

lemma failed_update_id: "failed p \<Longrightarrow> p\<lparr>failed := True\<rparr> = p"
  by (cases p) simp

lemma wires_encode:
  "\<forall>r \<in> set rs. length r \<le> MAX_RECORD_SIZE \<Longrightarrow> map encode_record rs = map Inr (map wire rs)"
  by (induction rs) (simp_all add: encode_record_eq wire_def)

lemma RecordParser_limit: "RecordParser m = Inr p \<Longrightarrow> m \<le> MAX_RECORD_SIZE"
  by (auto simp: RecordParser_def split: if_splits)

text \<open>C21. How the byte stream is cut into fragments does not matter: feeding the fragments one
  after another gives the same result, parser state and handler effects as one call on their
  concatenation, and that call returns.\<close>

theorem consume_fragmentation:
  assumes "accepting p"
  shows "consume_all h p s frags = consume h p s (concat frags) \<and>
    (\<exists>r q t. consume h p s (concat frags) = Some (r, q, t))"
proof -
  obtain r q t where "feed h p s (concat frags) = (r, q, t)" by (metis prod_cases3)
  with assms show ?thesis by (simp add: consume_all_eq_feed consume_eq_feed)
qed

text \<open>C22. Round trip: a stream made of the preface and the encodings of records within the limit,
  cut into any fragments, delivers exactly these records in order and ends cleanly.\<close>

theorem framing_roundtrip:
  assumes "RecordParser m = Inr p" and "\<forall>r \<in> set rs. length r \<le> m"
    and "map encode_record rs = map Inr ws" and "concat frags = preface_bytes @ concat ws"
  shows "\<exists>q. consume_all collect p [] frags = Some (Returned True, q, rs) \<and>
    finish q = (None, q\<lparr>finished := True\<rparr>)"
proof -
  from assms(2) RecordParser_limit [OF assms(1)]
  have "map encode_record rs = map Inr (map wire rs)" by (intro wires_encode) fastforce
  with assms(3) have "map Inr ws = (map Inr (map wire rs) :: (std_error + string) list)" by metis
  then have ws: "ws = map wire rs" by (simp only: inj_map_eq_map inj_Inr)
  obtain q0 where q0: "feed collect p [] preface_bytes = (Returned True, q0, [])" "at_boundary q0"
      "maximum_record_size q0 = m"
    using feed_preface [OF assms(1), of collect "[]"] by auto
  then obtain q where q: "feed collect q0 [] (concat ws) = (Returned True, q, rs)" "at_boundary q"
    using feed_wires [of q0 rs "[]"] assms(2) ws by auto
  have "consume_all collect p [] frags = Some (Returned True, q, rs)"
    using accepting_RecordParser [OF assms(1)] q0(1) q(1)
    by (simp add: consume_all_eq_feed assms(4) feed_append)
  moreover have "finish q = (None, q\<lparr>finished := True\<rparr>)"
    using q(2) by (simp add: finish_def at_boundary_def accepting_def)
  ultimately show ?thesis by blast
qed

text \<open>C23. Soundness: when a stream is accepted up to a clean end of input, it was exactly the
  preface followed by the encodings of the delivered records, none of them above the limit.\<close>

theorem framing_soundness:
  assumes "RecordParser m = Inr p" and "consume_all collect p [] frags = Some (Returned True, q, rs)"
    and "finish q = (None, q1)"
  shows "\<exists>ws. map encode_record rs = map Inr ws \<and> concat frags = preface_bytes @ concat ws \<and>
    (\<forall>r \<in> set rs. length r \<le> m)"
proof -
  have acc: "accepting p" using assms(1) by (rule accepting_RecordParser)
  with assms(2) have f: "feed collect p [] (concat frags) = (Returned True, q, rs)"
    by (simp add: consume_all_eq_feed)
  have wf: "wf_parser p" using acc by (simp add: accepting_def)
  have small: "\<forall>r \<in> set rs. length r \<le> m"
    by (rule collector.feed_inv [OF wf _ _ f]) (simp_all add: maximum_RecordParser [OF assms(1)])
  have "accepting q" using acc f by (rule feed_accepting)
  with assms(3) have "phase q = Header" "header_offset q = 0"
    by (auto simp: finish_def accepting_def split: if_splits) (cases "phase q"; simp)
  moreover have "consumed q rs = consumed p [] @ concat frags"
    by (rule consumed_feed [OF wf _ f]) simp
  moreover have "consumed p [] = []"
    using assms(1) by (auto simp: RecordParser_def consumed_def pending_def split: if_splits)
  ultimately have "concat frags = preface_bytes @ concat (map wire rs)"
    by (simp add: consumed_def pending_def)
  moreover have "map encode_record rs = map Inr (map wire rs)"
    using small RecordParser_limit [OF assms(1)] by (intro wires_encode) fastforce
  ultimately show ?thesis using small by blast
qed

text \<open>C24. Whatever arrives and whatever the handler does, the parser never holds more payload bytes
  than its limit: the declared length is checked before anything is buffered.\<close>

theorem parser_buffer_bounded:
  assumes "RecordParser m = Inr p" and "consume_all h p s frags = Some (r, q, t)"
  shows "buffered_payload_size q \<le> m"
proof -
  have acc: "accepting p" using assms(1) by (rule accepting_RecordParser)
  with assms(2) have f: "feed h p s (concat frags) = (r, q, t)" by (simp add: consume_all_eq_feed)
  from acc have "wf_parser p" by (simp add: accepting_def)
  from wf_feed [OF this f] feed_frame [OF f] maximum_RecordParser [OF assms(1)]
  show ?thesis by (simp add: wf_parser_def buffered_payload_size_def)
qed

text \<open>C25. A framing error or a handler that returns false is terminal: every later call throws
  ParserFinished without calling the handler, and so does the end-of-input call.\<close>

theorem parser_failure_terminal:
  assumes "wf_parser p" and "consume h p s xs = Some (r, q, t)"
    and "r = Returned False \<or> r = Threw e"
  shows "consume h' q s' ys = Some (Threw ParserFinished, q, s') \<and>
    finish q = (Some ParserFinished, q)"
proof -
  have "failed q"
  proof (cases "failed p \<or> finished p")
    case True
    with assms(2) show ?thesis by (auto simp: consume_def fail_def)
  next
    case False
    with assms(1,2) have "feed h p s xs = (r, q, t)"
      by (simp add: consume_def consume_loop_eq_feed)
    from feed_frame [OF this] assms(3) show ?thesis by auto
  qed
  then show ?thesis by (simp add: consume_def fail_def finish_def failed_update_id)
qed

section \<open>Witnesses\<close>

definition sample_parser :: parser where
  "sample_parser = \<lparr>maximum_record_size = 16, phase = Preface, preface_offset = 0, header = [0, 0],
     header_offset = 0, expected_payload_size = 0, payload = [], failed = False, finished = False\<rparr>"

lemma sample_chars: "char_of (0::nat) = CHR 0x00" "char_of (2::nat) = CHR 0x02"
  by code_simp+

lemma sample_parser_new: "RecordParser 16 = Inr sample_parser"
  by (simp add: RecordParser_def sample_parser_def MAX_RECORD_SIZE_def)

lemma sample_encodings:
  "map encode_record [''hi'', []] = map Inr [[CHR 0x00, CHR 0x02] @ ''hi'', [CHR 0x00, CHR 0x00]]"
  by (simp add: encode_record_def MAX_RECORD_SIZE_def low_char_def sample_chars)

theorem consume_fragmentation_witness:
  "consume_all collect sample_parser [] [''GASO'', ''LINE'', [CHR 0x00]] =
   consume collect sample_parser [] (''GASOLINE'' @ [CHR 0x00])"
  using consume_fragmentation [OF accepting_RecordParser [OF sample_parser_new],
      of collect "[]" "[''GASO'', ''LINE'', [CHR 0x00]]"]
  by simp

theorem framing_roundtrip_witness:
  "\<exists>q. consume_all collect sample_parser []
      [''GASO'', ''LINE'' @ [CHR 0x00, CHR 0x02, CHR 0x00], [CHR 0x02] @ ''h'',
       ''i'' @ [CHR 0x00, CHR 0x00]] = Some (Returned True, q, [''hi'', []]) \<and>
    finish q = (None, q\<lparr>finished := True\<rparr>)"
  by (rule framing_roundtrip [OF sample_parser_new _ sample_encodings])
    (simp_all add: preface_bytes_def WIRE_VERSION_def low_char_def sample_chars)

theorem framing_soundness_witness:
  "\<exists>ws. map encode_record [''hi''] = map Inr ws \<and>
     preface_bytes @ [CHR 0x00, CHR 0x02] @ ''hi'' = preface_bytes @ concat ws"
proof -
  let ?frag = "preface_bytes @ [CHR 0x00, CHR 0x02] @ ''hi''"
  have e: "map encode_record [''hi''] = map Inr [[CHR 0x00, CHR 0x02] @ ''hi'']"
    by (simp add: encode_record_def MAX_RECORD_SIZE_def low_char_def sample_chars)
  have "\<exists>q. consume_all collect sample_parser [] [?frag] = Some (Returned True, q, [''hi'']) \<and>
      finish q = (None, q\<lparr>finished := True\<rparr>)"
  proof -
    obtain q0 where q0: "feed collect sample_parser [] preface_bytes = (Returned True, q0, [])"
        "at_boundary q0" "maximum_record_size q0 = 16"
      using feed_preface [OF sample_parser_new, of collect "[]"] by auto
    then obtain q where q: "feed collect q0 [] (wire ''hi'') = (Returned True, q, [''hi''])"
        "at_boundary q"
      using feed_wires [of q0 "[''hi'']" "[]"] by auto
    have w: "[CHR 0x00, CHR 0x02] @ ''hi'' = wire ''hi''"
      by code_simp
    have "feed collect sample_parser [] (preface_bytes @ wire ''hi'') = (Returned True, q, [''hi''])"
      unfolding feed_append using q0 q by simp
    moreover have "finish q = (None, q\<lparr>finished := True\<rparr>)"
      using q(2) by (simp add: finish_def at_boundary_def accepting_def)
    ultimately show ?thesis
      using consume_all_eq_feed [OF accepting_RecordParser [OF sample_parser_new],
          of collect "[]" "[preface_bytes @ wire ''hi'']"]
      unfolding w by (simp del: consume_all.simps)
  qed
  then obtain q where q: "consume_all collect sample_parser [] [?frag] = Some (Returned True, q, [''hi''])"
      "finish q = (None, q\<lparr>finished := True\<rparr>)" by blast
  from framing_soundness [OF sample_parser_new q] show ?thesis by auto
qed

theorem parser_buffer_bounded_witness:
  "\<exists>r q t. consume_all collect sample_parser [] [''GASO''] = Some (r, q, t) \<and>
     buffered_payload_size q \<le> 16"
proof -
  obtain r q t where "feed collect sample_parser [] ''GASO'' = (r, q, t)" by (metis prod_cases3)
  then have c: "consume_all collect sample_parser [] [''GASO''] = Some (r, q, t)"
    using consume_all_eq_feed [OF accepting_RecordParser [OF sample_parser_new],
        of collect "[]" "[''GASO'']"]
    by simp
  from parser_buffer_bounded [OF sample_parser_new c] c show ?thesis by blast
qed

theorem parser_failure_terminal_witness:
  "consume collect (sample_parser\<lparr>failed := True\<rparr>) [] ''GASO'' =
     Some (Threw ParserFinished, sample_parser\<lparr>failed := True\<rparr>, []) \<and>
   finish (sample_parser\<lparr>failed := True\<rparr>) =
     (Some ParserFinished, sample_parser\<lparr>failed := True\<rparr>)"
proof (rule parser_failure_terminal)
  show "wf_parser sample_parser" using sample_parser_new by (rule wf_RecordParser)
  show "consume collect sample_parser [] ''X'' =
      Some (Threw InvalidPreface, sample_parser\<lparr>failed := True\<rparr>, [])"
    using accepting_RecordParser [OF sample_parser_new]
    by (simp add: consume_eq_feed feed_byte_def sample_parser_def preface_bytes_def)
  show "Threw InvalidPreface = Returned False \<or> Threw InvalidPreface = Threw InvalidPreface"
    by simp
qed

end
