(* ===== verification/Packet.thy ===== *)
theory Packet
  imports Gasoline_Prelude
begin

text \<open>
  \<open>src/core/protocol/packet.{hpp,cpp}\<close>: the packet structure, its parser and its serializer.
  The JSON library is third-party code.  Its value type is the documented one (null, booleans,
  the three number kinds, strings of bytes, arrays, and objects kept as a \<open>std::map\<close>, here an
  association list in key order); its text parser and its serializer are the parameter
  \<open>json_lib\<close>.  A serializer emits chunks to its output and may throw after some of them.
\<close>

section \<open>JSON values\<close>

datatype json =
    JNull
  | JBool bool
  | JInteger "64 word"
  | JUnsigned "64 word"
  | JFloat "64 word"
  | JString string
  | JArray "json list"
  | JObject "(string \<times> json) list"

record json_lib =
  json_parse :: "string \<Rightarrow> json option"
  json_stream :: "json \<Rightarrow> string list \<times> bool"

definition json_dump :: "json_lib \<Rightarrow> json \<Rightarrow> std_error + string" where
  "json_dump J j = (case json_stream J j of (chunks, ok) \<Rightarrow> if ok then Inr (concat chunks) else Inl JsonTypeError)"

definition is_object :: "json \<Rightarrow> bool" where
  "is_object j = (case j of JObject _ \<Rightarrow> True | _ \<Rightarrow> False)"

definition is_string :: "json \<Rightarrow> bool" where
  "is_string j = (case j of JString _ \<Rightarrow> True | _ \<Rightarrow> False)"

text \<open>\<open>find\<close> and \<open>contains\<close>: on a value that is not an object there is no such key.\<close>

definition json_find :: "string \<Rightarrow> json \<Rightarrow> json option" where
  "json_find k j = (case j of JObject kvs \<Rightarrow> map_of kvs k | _ \<Rightarrow> None)"

fun object_insert :: "string \<Rightarrow> json \<Rightarrow> (string \<times> json) list \<Rightarrow> (string \<times> json) list" where
  "object_insert k v [] = [(k, v)]"
| "object_insert k v ((k', v') # kvs) =
     (if k < k' then (k, v) # (k', v') # kvs
      else if k = k' then (k, v) # kvs
      else (k', v') # object_insert k v kvs)"

text \<open>\<open>j[key] = v\<close>: null becomes an object first; any other kind of value throws.\<close>

definition json_set :: "string \<Rightarrow> json \<Rightarrow> json \<Rightarrow> std_error + json" where
  "json_set k v j =
     (case j of
        JNull \<Rightarrow> Inr (JObject (object_insert k v []))
      | JObject kvs \<Rightarrow> Inr (JObject (object_insert k v kvs))
      | _ \<Rightarrow> Inl JsonTypeError)"

text \<open>\<open>get<std::string>()\<close>.\<close>

definition json_get_string :: "json \<Rightarrow> std_error + string" where
  "json_get_string j = (case j of JString s \<Rightarrow> Inr s | _ \<Rightarrow> Inl JsonTypeError)"

section \<open>Packets\<close>

record Packet =
  pkt_type :: string
  pkt_device_id :: string
  pkt_payload :: json

definition parse_packet :: "json_lib \<Rightarrow> string \<Rightarrow> std_error + Packet" where
  "parse_packet J data =
     (case json_parse J data of
        None \<Rightarrow> Inl JsonParseError
      | Some j \<Rightarrow>
          if \<not> is_object j then Inl (InvalidArgument ''packet must be an object'')
          else (case (json_find ''type'' j, json_find ''device_id'' j) of
                  (Some (JString t), Some (JString d)) \<Rightarrow>
                    (let payload = json_find ''payload'' j
                     in if t = ''hello'' \<and> (case payload of None \<Rightarrow> True | Some v \<Rightarrow> \<not> is_object v)
                        then Inl (InvalidArgument ''hello payload must be present and an object'')
                        else Inr \<lparr>pkt_type = t, pkt_device_id = d,
                                  pkt_payload = (case payload of Some v \<Rightarrow> v | None \<Rightarrow> JNull)\<rparr>)
                | _ \<Rightarrow> Inl (InvalidArgument
                    ''packet type and device_id must be present and strings'')))"

definition serialize_packet :: "json_lib \<Rightarrow> Packet \<Rightarrow> std_error + string" where
  "serialize_packet J pkt =
     rbind (json_set ''type'' (JString (pkt_type pkt)) JNull) (\<lambda>j1.
     rbind (json_set ''device_id'' (JString (pkt_device_id pkt)) j1) (\<lambda>j2.
     rbind (json_set ''payload'' (pkt_payload pkt) j2) (json_dump J)))"

section \<open>Lemmas\<close>

lemma json_find_JObject [simp]: "json_find k (JObject kvs) = map_of kvs k"
  by (simp add: json_find_def)

lemma is_object_JObject [simp]: "is_object (JObject kvs)" "is_object JNull = False"
  "is_object (JString s) = False"
  by (simp_all add: is_object_def)

lemma map_of_object_insert:
  "sorted (map fst kvs) \<Longrightarrow> map_of (object_insert k v kvs) = (map_of kvs)(k \<mapsto> v)"
  by (induction kvs rule: object_insert.induct)
    (auto simp: fun_eq_iff map_of_eq_None_iff dest: order.strict_trans2)

text \<open>
  Values that survive printing and parsing: the library documents that non-finite floats are
  printed as null and that a non-negative signed integer is read back as an unsigned one.
  Object keys are those of a \<open>std::map\<close>: strictly increasing.
\<close>

fun portable :: "json \<Rightarrow> bool" where
  "portable (JInteger w) = (sint w < 0)"
| "portable (JFloat w) = (drop_bit 52 w AND 0x7ff \<noteq> 0x7ff)"
| "portable (JArray js) = list_all portable js"
| "portable (JObject kvs) = (sorted_wrt (<) (map fst kvs) \<and> list_all (\<lambda>(k, v). portable v) kvs)"
| "portable j = True"

lemma serialize_packet_object:
  "serialize_packet J pkt = json_dump J (JObject
     [(''device_id'', JString (pkt_device_id pkt)), (''payload'', pkt_payload pkt),
      (''type'', JString (pkt_type pkt))])"
  by (simp add: serialize_packet_def json_set_def less_list_code less_char_def)

lemma parse_packet_InrE:
  assumes "parse_packet J data = Inr pkt"
  obtains kvs where "json_parse J data = Some (JObject kvs)"
    and "map_of kvs ''type'' = Some (JString (pkt_type pkt))"
    and "map_of kvs ''device_id'' = Some (JString (pkt_device_id pkt))"
    and "pkt_payload pkt = (case map_of kvs ''payload'' of Some v \<Rightarrow> v | None \<Rightarrow> JNull)"
    and "pkt_type pkt = ''hello'' \<Longrightarrow> is_object (pkt_payload pkt)"
  using assms
  by (auto simp: parse_packet_def is_object_def Let_def
      split: option.splits if_splits json.splits)

section \<open>Properties\<close>

text \<open>C26. Parsing the serialization of a packet gives the packet back, for every JSON library whose
  parser inverts its printer on portable values: all three fields survive, an absent payload
  included, provided a hello carries an object payload (which the parser insists on).\<close>

theorem packet_roundtrip:
  assumes "\<And>j s. portable j \<Longrightarrow> json_dump J j = Inr s \<Longrightarrow> json_parse J s = Some j"
    and "portable (pkt_payload pkt)"
    and "pkt_type pkt = ''hello'' \<Longrightarrow> is_object (pkt_payload pkt)"
    and "serialize_packet J pkt = Inr s"
  shows "parse_packet J s = Inr pkt"
proof -
  let ?j = "JObject [(''device_id'', JString (pkt_device_id pkt)), (''payload'', pkt_payload pkt),
      (''type'', JString (pkt_type pkt))]"
  have "portable ?j" using assms(2) by (simp add: less_list_code less_char_def)
  with assms(1,4) have "json_parse J s = Some ?j" by (simp add: serialize_packet_object)
  then show ?thesis using assms(3) by (auto simp: parse_packet_def Let_def)
qed

text \<open>What the parser accepts, exactly: the text is a JSON object whose type and device_id are
  strings and whose payload, when the type is hello, is an object; the packet holds those
  values, with a null payload when there is none.\<close>

theorem parse_packet_iff:
  "parse_packet J data = Inr pkt \<longleftrightarrow>
     (\<exists>kvs. json_parse J data = Some (JObject kvs) \<and>
        map_of kvs ''type'' = Some (JString (pkt_type pkt)) \<and>
        map_of kvs ''device_id'' = Some (JString (pkt_device_id pkt)) \<and>
        pkt_payload pkt = (case map_of kvs ''payload'' of Some v \<Rightarrow> v | None \<Rightarrow> JNull) \<and>
        (pkt_type pkt \<noteq> ''hello'' \<or> is_object (pkt_payload pkt)))"
proof
  assume "parse_packet J data = Inr pkt"
  then show "\<exists>kvs. json_parse J data = Some (JObject kvs) \<and>
        map_of kvs ''type'' = Some (JString (pkt_type pkt)) \<and>
        map_of kvs ''device_id'' = Some (JString (pkt_device_id pkt)) \<and>
        pkt_payload pkt = (case map_of kvs ''payload'' of Some v \<Rightarrow> v | None \<Rightarrow> JNull) \<and>
        (pkt_type pkt \<noteq> ''hello'' \<or> is_object (pkt_payload pkt))"
    by (elim parse_packet_InrE) blast
qed (cases pkt; auto simp: parse_packet_def Let_def split: option.splits)

section \<open>Witnesses\<close>

definition sample_packet :: Packet where
  "sample_packet = \<lparr>pkt_type = ''ping'', pkt_device_id = ''a'', pkt_payload = JNull\<rparr>"

definition sample_json :: json where
  "sample_json = JObject [(''device_id'', JString ''a''), (''payload'', JNull), (''type'', JString ''ping'')]"

definition sample_lib :: json_lib where
  "sample_lib = \<lparr>json_parse = (\<lambda>s. if s = ''x'' then Some sample_json else None),
     json_stream = (\<lambda>j. if j = sample_json then ([''x''], True) else ([], False))\<rparr>"

theorem packet_roundtrip_witness:
  "serialize_packet sample_lib sample_packet = Inr ''x'' \<and>
   parse_packet sample_lib ''x'' = Inr sample_packet"
proof -
  have ser: "serialize_packet sample_lib sample_packet = Inr ''x''"
    by (simp add: serialize_packet_object json_dump_def sample_lib_def sample_packet_def sample_json_def)
  moreover have "parse_packet sample_lib ''x'' = Inr sample_packet"
    by (rule packet_roundtrip [OF _ _ _ ser])
      (auto simp: json_dump_def sample_lib_def sample_packet_def split: if_splits)
  ultimately show ?thesis by blast
qed

theorem parse_packet_iff_witness: "parse_packet sample_lib ''x'' = Inr sample_packet"
  unfolding parse_packet_iff
  by (intro exI [of _ "[(''device_id'', JString ''a''), (''payload'', JNull), (''type'', JString ''ping'')]"])
    (simp add: sample_lib_def sample_packet_def sample_json_def)

end
