(* ===== verification/Event_Bus.thy ===== *)
theory Event_Bus
  imports Gasoline_Prelude
begin

text \<open>
  \<open>src/core/events/event_bus.{hpp,cpp}\<close>: the process-wide queue of message events, bounded by
  dropping the oldest ones.  The mutex makes each of the two operations atomic, so the state
  is the vector \<open>g_events\<close> and each operation is one function on it.
\<close>

record MessageEvent =
  ev_device_id :: string
  ev_text :: string

definition MAX_STORED_EVENTS :: nat where
  "MAX_STORED_EVENTS = 256"

definition emit_message :: "string \<Rightarrow> string \<Rightarrow> MessageEvent list \<Rightarrow> MessageEvent list" where
  "emit_message device_id msg g_events =
     (let es = g_events @ [\<lparr>ev_device_id = device_id, ev_text = msg\<rparr>]
      in if length es > MAX_STORED_EVENTS then drop (length es - MAX_STORED_EVENTS) es else es)"

definition consume_events :: "MessageEvent list \<Rightarrow> MessageEvent list \<times> MessageEvent list" where
  "consume_events g_events = (g_events, [])"

text \<open>Reference behaviour: the last \<open>MAX_STORED_EVENTS\<close> elements of everything emitted.\<close>

definition last_n :: "nat \<Rightarrow> 'a list \<Rightarrow> 'a list" where
  "last_n n xs = drop (length xs - n) xs"

lemma last_n_snoc: "last_n n (last_n n xs @ [x]) = last_n n (xs @ [x])"
  by (cases "length xs < n") (auto simp: last_n_def drop_drop Suc_diff_le)

lemma emit_message_last_n:
  "emit_message d m es = last_n MAX_STORED_EVENTS (es @ [\<lparr>ev_device_id = d, ev_text = m\<rparr>])"
  by (simp add: emit_message_def last_n_def Let_def)

lemma set_emit_message:
  "set (emit_message d m es) \<subseteq> insert \<lparr>ev_device_id = d, ev_text = m\<rparr> (set es)"
  by (auto simp: emit_message_last_n last_n_def simp del: drop_append dest!: in_set_dropD)

lemma emit_last_n:
  "emit_message d m (last_n MAX_STORED_EVENTS es) =
     last_n MAX_STORED_EVENTS (es @ [\<lparr>ev_device_id = d, ev_text = m\<rparr>])"
  by (simp add: emit_message_last_n last_n_snoc)

text \<open>Emitting any sequence of messages from an empty bus keeps exactly the last 256 of them, in
  order, and a following consume returns those and leaves the bus empty.\<close>

theorem event_bus_keeps_last:
  "consume_events (foldl (\<lambda>es (d, m). emit_message d m es) [] msgs) =
     (map (\<lambda>(d, m). \<lparr>ev_device_id = d, ev_text = m\<rparr>) (drop (length msgs - 256) msgs), [])"
proof -
  let ?ev = "\<lambda>(d, m). \<lparr>ev_device_id = d, ev_text = m\<rparr>"
  have "foldl (\<lambda>es (d, m). emit_message d m es) [] msgs = last_n MAX_STORED_EVENTS (map ?ev msgs)"
  proof (induction msgs rule: rev_induct)
    case (snoc x msgs)
    then show ?case by (cases x) (simp add: emit_last_n)
  qed (simp add: last_n_def)
  then show ?thesis by (simp add: consume_events_def last_n_def drop_map MAX_STORED_EVENTS_def)
qed

end
