(* ===== verification/Trust_Codec.thy ===== *)
theory Trust_Codec
  imports Gasoline_Prelude
begin

text \<open>
  The value conversions of \<open>src/core/trust/trust_store.{hpp,cpp}\<close>: UUIDs and Ed25519 public keys as
  byte arrays, the textual form of a UUID, and the store's exception type.
\<close>

type_synonym TrustUuid = "byte list"
type_synonym TrustPublicKey = "byte list"

text \<open>
  \<open>TrustStoreError\<close> carries a message and an SQLite code.  An error raised by the store's own
  checks has code 0 and a fixed message; one reported by SQLite is either a violated constraint
  (any of the \<open>SQLITE_CONSTRAINT\<close> codes) or some other failure code.
\<close>

datatype TrustStoreError =
    StoreError string
  | SqlConstraint
  | SqlFailure int

definition require :: "bool \<Rightarrow> string \<Rightarrow> TrustStoreError + unit" where
  "require condition message = (if condition then Inr () else Inl (StoreError message))"

lemma require_simps [simp]:
  "require b m = Inr u \<longleftrightarrow> b" "require True m = Inr ()" "require False m = Inl (StoreError m)"
  by (simp_all add: require_def)

section \<open>UUID text\<close>

definition hex :: "char \<Rightarrow> TrustStoreError + byte" where
  "hex c =
     (if CHR ''0'' \<le> c \<and> c \<le> CHR ''9'' then Inr (byte_of_char c - byte_of_char (CHR ''0''))
      else if CHR ''a'' \<le> c \<and> c \<le> CHR ''f'' then Inr (byte_of_char c - byte_of_char (CHR ''a'') + 10)
      else if CHR ''A'' \<le> c \<and> c \<le> CHR ''F'' then Inr (byte_of_char c - byte_of_char (CHR ''A'') + 10)
      else Inl (StoreError ''invalid UUID hex digit''))"

definition separator_before :: "nat \<Rightarrow> bool" where
  "separator_before i \<longleftrightarrow> i = 4 \<or> i = 6 \<or> i = 8 \<or> i = 10"

text \<open>The body of the loop over the byte index \<open>i\<close>, with the running input position.\<close>

fun uuid_parse_loop :: "string \<Rightarrow> nat list \<Rightarrow> nat \<Rightarrow> TrustStoreError + TrustUuid" where
  "uuid_parse_loop val [] input = Inr []"
| "uuid_parse_loop val (i # is) input =
     rbind (if separator_before i
            then rbind (require (val ! input = CHR ''-'') ''invalid UUID separator'') (\<lambda>_. Inr (input + 1))
            else Inr input) (\<lambda>pos.
     rbind (hex (val ! pos)) (\<lambda>hi.
     rbind (hex (val ! (pos + 1))) (\<lambda>lo.
     rbind (uuid_parse_loop val is (pos + 2)) (\<lambda>rest.
       Inr ((push_bit 4 hi OR lo) # rest)))))"

definition trust_uuid_from_string :: "string \<Rightarrow> TrustStoreError + TrustUuid" where
  "trust_uuid_from_string val =
     rbind (require (length val = 36) ''UUID must have 36 characters'') (\<lambda>_.
       uuid_parse_loop val [0..<16] 0)"

definition hex_digits :: string where
  "hex_digits = ''0123456789abcdef''"

fun uuid_print_loop :: "TrustUuid \<Rightarrow> nat list \<Rightarrow> string \<Rightarrow> string" where
  "uuid_print_loop val [] result = result"
| "uuid_print_loop val (i # is) result =
     uuid_print_loop val is
       (result @ (if separator_before i then ''-'' else [])
        @ [hex_digits ! unat (drop_bit 4 (val ! i)), hex_digits ! unat (val ! i AND 15)])"

definition trust_uuid_to_string :: "TrustUuid \<Rightarrow> string" where
  "trust_uuid_to_string val = uuid_print_loop val [0..<length val] []"

definition trust_public_key_from_bytes :: "string \<Rightarrow> TrustStoreError + TrustPublicKey" where
  "trust_public_key_from_bytes val =
     rbind (require (length val = 32) ''Ed25519 public key must have 32 bytes'') (\<lambda>_.
       Inr (map byte_of_char val))"

section \<open>Lemmas\<close>

lemma hex_hex_digits: "n < 16 \<Longrightarrow> hex (hex_digits ! n) = Inr (of_nat n)"
proof -
  assume "n < 16"
  then have "n \<in> set [0..<16]" by simp
  moreover have "list_all (\<lambda>n. hex (hex_digits ! n) = Inr (of_nat n)) [0..<16]" by code_simp
  ultimately show ?thesis by (simp only: list_all_iff)
qed

lemma nibbles: "push_bit 4 (drop_bit 4 b) OR (b AND 15) = (b :: byte)"
proof -
  have low: "b AND 15 = take_bit 4 b"
    by (simp only: take_bit_eq_mask) (simp add: mask_eq_exp_minus_1)
  have "push_bit 4 (drop_bit 4 b) AND take_bit 4 b = 0"
    by (rule bit_eqI) (simp only: bit_simps bit_0_eq, auto)
  then have "push_bit 4 (drop_bit 4 b) OR take_bit 4 b = push_bit 4 (drop_bit 4 b) + take_bit 4 b"
    by (rule disjunctive_add_eq_or [symmetric])
  also have "\<dots> = b" by (rule bits_ident)
  finally show ?thesis unfolding low .
qed

lemma nibble_bounds: "unat (drop_bit 4 b) < 16" "unat (b AND 15) < 16" for b :: byte
proof -
  have "unat b < 256" using unsigned_less [of b] by simp
  then show "unat (drop_bit 4 b) < 16" by (simp add: drop_bit_eq_div unat_div_distrib)
  have "b AND 15 \<le> 15" by (rule word_and_le1)
  then show "unat (b AND 15) < 16" by (simp add: word_le_nat_alt)
qed

text \<open>What the printing loop appends for one index.\<close>

definition uuid_piece :: "TrustUuid \<Rightarrow> nat \<Rightarrow> string" where
  "uuid_piece val i = (if separator_before i then ''-'' else [])
     @ [hex_digits ! unat (drop_bit 4 (val ! i)), hex_digits ! unat (val ! i AND 15)]"

lemma uuid_print_loop_concat: "uuid_print_loop val is r = r @ concat (map (uuid_piece val) is)"
  by (induction "is" arbitrary: r) (simp_all add: uuid_piece_def)

lemma uuid_parse_print:
  assumes "val = pre @ concat (map (uuid_piece u) is) @ post" and "length pre = input"
  shows "uuid_parse_loop val is input = Inr (map ((!) u) is)"
  using assms
proof (induction "is" arbitrary: pre input)
  case (Cons i "is")
  let ?n = "length pre + (if separator_before i then 1 else 0)"
  let ?hi = "hex_digits ! unat (drop_bit 4 (u ! i))"
  let ?lo = "hex_digits ! unat (u ! i AND 15)"
  have hx: "hex ?hi = Inr (drop_bit 4 (u ! i))" "hex ?lo = Inr (u ! i AND 15)"
    by (simp_all only: hex_hex_digits nibble_bounds) simp_all
  have at: "val ! ?n = ?hi" "val ! Suc ?n = ?lo" "separator_before i \<Longrightarrow> val ! length pre = CHR ''-''"
    by (simp_all add: Cons.prems(1) uuid_piece_def nth_append)
  have "uuid_parse_loop val is (?n + 2) = Inr (map ((!) u) is)"
    by (rule Cons.IH [of "pre @ uuid_piece u i"]) (simp_all add: Cons.prems(1) uuid_piece_def)
  then show ?case using at hx Cons.prems(2)
    by (cases "separator_before i") (simp_all add: nibbles)
qed simp

lemma length_uuid_pieces: "length (concat (map (uuid_piece u) [0..<16])) = 36"
  by (simp add: upt_conv_Cons uuid_piece_def separator_before_def)

lemma trust_uuid_to_string_length: "length u = 16 \<Longrightarrow> length (trust_uuid_to_string u) = 36"
  by (simp add: trust_uuid_to_string_def uuid_print_loop_concat length_uuid_pieces)

lemma uuid_parse_to_string:
  assumes "length u = 16"
  shows "uuid_parse_loop (trust_uuid_to_string u) [0..<16] 0 = Inr u"
proof -
  have t: "trust_uuid_to_string u = concat (map (uuid_piece u) [0..<16])"
    by (simp add: trust_uuid_to_string_def uuid_print_loop_concat assms)
  have "uuid_parse_loop (trust_uuid_to_string u) [0..<16] 0 = Inr (map ((!) u) [0..<16])"
    by (rule uuid_parse_print [where pre = "[]" and post = "[]"]) (simp_all add: t)
  moreover have "map ((!) u) [0..<16] = u" using map_nth [of u] assms by simp
  ultimately show ?thesis by simp
qed

section \<open>Properties\<close>

lemma trust_uuid_from_to_string:
  assumes "length u = 16"
  shows "trust_uuid_from_string (trust_uuid_to_string u) = Inr u"
  using trust_uuid_to_string_length [OF assms] uuid_parse_to_string [OF assms]
  by (simp add: trust_uuid_from_string_def del: upt_rec_numeral)

lemma trust_uuid_to_string_inj:
  assumes "length u = 16" and "length v = 16" and "trust_uuid_to_string u = trust_uuid_to_string v"
  shows "u = v"
proof -
  have "Inr u = trust_uuid_from_string (trust_uuid_to_string v)"
    using trust_uuid_from_to_string [OF assms(1), symmetric] unfolding assms(3) .
  also note trust_uuid_from_to_string [OF assms(2)]
  finally show ?thesis by simp
qed

text \<open>Every 16-byte UUID survives printing and parsing, so distinct UUIDs never share a
  device id.\<close>

theorem trust_uuid_roundtrip:
  assumes "length u = 16"
  shows "trust_uuid_from_string (trust_uuid_to_string u) = Inr u"
  by (rule trust_uuid_from_to_string [OF assms])

section \<open>Witnesses\<close>

theorem trust_uuid_roundtrip_witness:
  "trust_uuid_from_string (trust_uuid_to_string [1,2,3,4,5,6,7,8,9,10,11,12,13,14,15,255]) =
     Inr [1,2,3,4,5,6,7,8,9,10,11,12,13,14,15,255]"
  by (rule trust_uuid_roundtrip) simp

end
