(* ===== verification/Trust_Store.thy ===== *)
theory Trust_Store
  imports Trust_Codec
begin

text \<open>
  The persistent trust store: the schema of \<open>src/core/trust/trust_schema.hpp\<close> and the operations
  of \<open>src/core/trust/trust_store.{hpp,cpp}\<close>.  The database is a record of four tables, lists of
  rows in insertion order; each SQL statement of the source is a function on it that enforces
  the table's CHECK, PRIMARY KEY, UNIQUE and REFERENCES clauses (and ON DELETE CASCADE).  A
  transaction threads the database and a statement counter: \<open>sql_env\<close> says which statement, if
  any, fails (busy, disk full, I/O error), whether BEGIN and COMMIT succeed, what \<open>fstatat\<close>
  finds for the database files, and what SQLite's \<open>length\<close> of a text is.  An exception inside a transaction rolls it back.
  64-bit integers are \<open>int\<close>; the guards that keep revisions in range are part of the model.
  Opening and migrating the database file is theory \<open>Trust_Open\<close>; the finalization of prepared statements
  has no effect here.
\<close>

section \<open>Records of the API\<close>

datatype TrustStatus = StatusActive | StatusRevoked

datatype TrustState = StateUnknown | StatePairingPending | StateActive | StateRevoked

datatype PairingAttemptStatus = AttemptPending | AttemptConfirmed | AttemptCancelled | AttemptExpired

record TrustedDevice =
  td_uuid :: TrustUuid
  td_public_key :: TrustPublicKey
  td_status :: TrustStatus
  td_revision :: int
  td_local_alias :: string
  td_peer_name :: string
  td_peer_platform :: string
  td_pairing_method :: string
  td_paired_at :: int
  td_revoked_at :: "int option"
  td_last_authenticated_at :: "int option"
  td_permissions :: "string list"

record PairingAttempt =
  pa_attempt_id :: TrustUuid
  pa_peer_uuid :: TrustUuid
  pa_peer_public_key :: TrustPublicKey
  pa_status :: PairingAttemptStatus
  pa_revision :: int
  pa_local_confirmed :: bool
  pa_peer_confirmed :: bool
  pa_created_at :: int
  pa_updated_at :: int
  pa_expires_at :: int
  pa_proposed_permissions :: "string list"

record ActivePeerAuthorization =
  apa_revision :: int
  apa_permissions :: "string list"

record PairingFinalization =
  pf_peer_uuid :: TrustUuid
  pf_peer_public_key :: TrustPublicKey
  pf_local_alias :: string
  pf_peer_name :: string
  pf_peer_platform :: string
  pf_pairing_method :: string

record ChangeToken =
  ct_local_generation :: "64 word"
  ct_external_generation :: int

section \<open>Tables and their constraints\<close>

record device_row =
  r_uuid :: TrustUuid
  r_public_key :: TrustPublicKey
  r_status :: string
  r_revision :: int
  r_local_alias :: string
  r_peer_name :: string
  r_peer_platform :: string
  r_pairing_method :: string
  r_paired_at :: int
  r_revoked_at :: "int option"
  r_last_authenticated_at :: "int option"

record attempt_row =
  a_attempt_id :: TrustUuid
  a_peer_uuid :: TrustUuid
  a_peer_public_key :: TrustPublicKey
  a_status :: string
  a_revision :: int
  a_local_confirmed :: int
  a_peer_confirmed :: int
  a_created_at :: int
  a_updated_at :: int
  a_expires_at :: int

record database =
  trusted_devices :: "device_row list"
  device_permissions :: "(TrustUuid \<times> string) list"
  pairing_attempts :: "attempt_row list"
  pairing_attempt_permissions :: "(TrustUuid \<times> string) list"

text \<open>What \<open>fstatat\<close> says of a file of the state directory (\<open>StatAbsent\<close> is ENOENT).\<close>

record file_info =
  st_regular :: bool
  st_uid :: int
  st_nlink :: int
  st_mode :: int

datatype stat_result = StatAbsent | StatFailed | StatInfo file_info

record sql_env =
  text_length :: "string \<Rightarrow> nat"
  db_filename :: string
  fstatat :: "string \<Rightarrow> stat_result"
  geteuid :: int
  begin_error :: "int option"
  step_error :: "nat \<Rightarrow> int option"
  commit_error :: "int option"

definition INT64_MAX :: int where
  "INT64_MAX = 9223372036854775807"

definition device_row_ok :: "sql_env \<Rightarrow> device_row \<Rightarrow> bool" where
  "device_row_ok env r \<longleftrightarrow>
     length (r_uuid r) = 16 \<and> length (r_public_key r) = 32 \<and>
     r_status r \<in> {''ACTIVE'', ''REVOKED''} \<and> 1 \<le> r_revision r \<and>
     text_length env (r_local_alias r) \<le> 256 \<and> text_length env (r_peer_name r) \<le> 256 \<and>
     text_length env (r_peer_platform r) \<le> 64 \<and>
     1 \<le> text_length env (r_pairing_method r) \<and> text_length env (r_pairing_method r) \<le> 64 \<and>
     0 \<le> r_paired_at r \<and>
     (r_status r = ''ACTIVE'' \<and> r_revoked_at r = None \<or>
      r_status r = ''REVOKED'' \<and> (case r_revoked_at r of None \<Rightarrow> False | Some t \<Rightarrow> r_paired_at r \<le> t)) \<and>
     (case r_last_authenticated_at r of None \<Rightarrow> True | Some t \<Rightarrow> r_paired_at r \<le> t)"

definition permission_ok :: "sql_env \<Rightarrow> string \<Rightarrow> bool" where
  "permission_ok env p \<longleftrightarrow> 1 \<le> text_length env p \<and> text_length env p \<le> 64"

definition attempt_row_ok :: "attempt_row \<Rightarrow> bool" where
  "attempt_row_ok a \<longleftrightarrow>
     length (a_attempt_id a) = 16 \<and> length (a_peer_uuid a) = 16 \<and> length (a_peer_public_key a) = 32 \<and>
     a_status a \<in> {''PENDING'', ''CONFIRMED'', ''CANCELLED'', ''EXPIRED''} \<and> 1 \<le> a_revision a \<and>
     a_local_confirmed a \<in> {0, 1} \<and> a_peer_confirmed a \<in> {0, 1} \<and>
     0 \<le> a_created_at a \<and> a_created_at a \<le> a_updated_at a \<and> a_updated_at a \<le> a_expires_at a \<and>
     (a_status a \<noteq> ''CONFIRMED'' \<or> a_local_confirmed a = 1 \<and> a_peer_confirmed a = 1)"

section \<open>File checks\<close>

text \<open>\<open>st_mode & 07777\<close> must be \<open>0600\<close>, which is 384.\<close>

definition inspect_file :: "sql_env \<Rightarrow> string \<Rightarrow> TrustStoreError + bool" where
  "inspect_file env name =
     (case fstatat env name of
        StatAbsent \<Rightarrow> Inr False
      | StatFailed \<Rightarrow> Inl (StoreError ''cannot inspect database files'')
      | StatInfo info \<Rightarrow>
          rbind (require (st_regular info \<and> st_uid info = geteuid env \<and> st_nlink info = 1 \<and>
                   st_mode info mod 4096 = 384)
                 ''database files must be single-link, user-owned regular 0600 files'') (\<lambda>_. Inr True))"

definition check_files :: "sql_env \<Rightarrow> TrustStoreError + unit" where
  "check_files env =
     rbind (inspect_file env (db_filename env)) (\<lambda>present.
     rbind (require present ''established database is missing'') (\<lambda>_.
     rbind (inspect_file env (db_filename env @ ''-wal'')) (\<lambda>_.
     rbind (inspect_file env (db_filename env @ ''-shm'')) (\<lambda>_.
     rbind (inspect_file env (db_filename env @ ''-journal'')) (\<lambda>_. Inr ())))))"

definition files_error :: "sql_env \<Rightarrow> TrustStoreError option" where
  "files_error env = (case check_files env of Inl e \<Rightarrow> Some e | Inr _ \<Rightarrow> None)"

section \<open>SQL statements\<close>

definition sql_insert_device :: "sql_env \<Rightarrow> device_row \<Rightarrow> database \<Rightarrow> TrustStoreError + (unit \<times> database)" where
  "sql_insert_device env r db =
     (if device_row_ok env r \<and>
         list_all (\<lambda>q. r_uuid q \<noteq> r_uuid r \<and> r_public_key q \<noteq> r_public_key r) (trusted_devices db)
      then Inr ((), db\<lparr>trusted_devices := trusted_devices db @ [r]\<rparr>)
      else Inl SqlConstraint)"

text \<open>No UPDATE of the source assigns a key column, so only the row constraints can fail.\<close>

definition sql_update_devices ::
  "sql_env \<Rightarrow> (device_row \<Rightarrow> bool) \<Rightarrow> (device_row \<Rightarrow> device_row) \<Rightarrow> database \<Rightarrow>
   TrustStoreError + (nat \<times> database)" where
  "sql_update_devices env P f db =
     (if list_all (\<lambda>r. P r \<longrightarrow> device_row_ok env (f r)) (trusted_devices db)
      then Inr (length (filter P (trusted_devices db)),
                db\<lparr>trusted_devices := map (\<lambda>r. if P r then f r else r) (trusted_devices db)\<rparr>)
      else Inl SqlConstraint)"

definition sql_clear_device_permissions :: "TrustUuid \<Rightarrow> database \<Rightarrow> TrustStoreError + (unit \<times> database)" where
  "sql_clear_device_permissions u db =
     Inr ((), db\<lparr>device_permissions := filter (\<lambda>(v, p). v \<noteq> u) (device_permissions db)\<rparr>)"

definition sql_insert_device_permission ::
  "sql_env \<Rightarrow> TrustUuid \<Rightarrow> string \<Rightarrow> database \<Rightarrow> TrustStoreError + (unit \<times> database)" where
  "sql_insert_device_permission env u p db =
     (if length u = 16 \<and> permission_ok env p \<and> (u, p) \<notin> set (device_permissions db) \<and>
         list_ex (\<lambda>r. r_uuid r = u) (trusted_devices db)
      then Inr ((), db\<lparr>device_permissions := device_permissions db @ [(u, p)]\<rparr>)
      else Inl SqlConstraint)"

definition sql_insert_attempt :: "attempt_row \<Rightarrow> database \<Rightarrow> TrustStoreError + (unit \<times> database)" where
  "sql_insert_attempt a db =
     (if attempt_row_ok a \<and> list_all (\<lambda>b. a_attempt_id b \<noteq> a_attempt_id a) (pairing_attempts db)
      then Inr ((), db\<lparr>pairing_attempts := pairing_attempts db @ [a]\<rparr>)
      else Inl SqlConstraint)"

definition sql_update_attempts ::
  "(attempt_row \<Rightarrow> bool) \<Rightarrow> (attempt_row \<Rightarrow> attempt_row) \<Rightarrow> database \<Rightarrow>
   TrustStoreError + (nat \<times> database)" where
  "sql_update_attempts P f db =
     (if list_all (\<lambda>a. P a \<longrightarrow> attempt_row_ok (f a)) (pairing_attempts db)
      then Inr (length (filter P (pairing_attempts db)),
                db\<lparr>pairing_attempts := map (\<lambda>a. if P a then f a else a) (pairing_attempts db)\<rparr>)
      else Inl SqlConstraint)"

definition sql_delete_attempts :: "(attempt_row \<Rightarrow> bool) \<Rightarrow> database \<Rightarrow> TrustStoreError + (nat \<times> database)" where
  "sql_delete_attempts P db =
     (let gone = map a_attempt_id (filter P (pairing_attempts db))
      in Inr (length gone,
              db\<lparr>pairing_attempts := filter (\<lambda>a. \<not> P a) (pairing_attempts db),
                 pairing_attempt_permissions :=
                   filter (\<lambda>(v, p). v \<notin> set gone) (pairing_attempt_permissions db)\<rparr>))"

definition sql_clear_attempt_permissions :: "TrustUuid \<Rightarrow> database \<Rightarrow> TrustStoreError + (unit \<times> database)" where
  "sql_clear_attempt_permissions u db =
     Inr ((), db\<lparr>pairing_attempt_permissions :=
                 filter (\<lambda>(v, p). v \<noteq> u) (pairing_attempt_permissions db)\<rparr>)"

definition sql_insert_attempt_permission ::
  "sql_env \<Rightarrow> TrustUuid \<Rightarrow> string \<Rightarrow> database \<Rightarrow> TrustStoreError + (unit \<times> database)" where
  "sql_insert_attempt_permission env u p db =
     (if length u = 16 \<and> permission_ok env p \<and> (u, p) \<notin> set (pairing_attempt_permissions db) \<and>
         list_ex (\<lambda>a. a_attempt_id a = u) (pairing_attempts db)
      then Inr ((), db\<lparr>pairing_attempt_permissions := pairing_attempt_permissions db @ [(u, p)]\<rparr>)
      else Inl SqlConstraint)"

section \<open>Transactions\<close>

type_synonym 'a txn = "nat \<times> database \<Rightarrow> TrustStoreError + ('a \<times> nat \<times> database)"

definition tx_return :: "'a \<Rightarrow> 'a txn" where
  "tx_return x = (\<lambda>s. Inr (x, s))"

definition tx_bind :: "'a txn \<Rightarrow> ('a \<Rightarrow> 'b txn) \<Rightarrow> 'b txn" where
  "tx_bind m f = (\<lambda>s. rbind (m s) (\<lambda>(x, s1). f x s1))"

definition tx_lift :: "TrustStoreError + 'a \<Rightarrow> 'a txn" where
  "tx_lift r = (\<lambda>s. rbind r (\<lambda>x. Inr (x, s)))"

text \<open>Running one statement: it may fail as the environment says, and otherwise has its effect.\<close>

definition tx_stmt :: "sql_env \<Rightarrow> (database \<Rightarrow> TrustStoreError + ('a \<times> database)) \<Rightarrow> 'a txn" where
  "tx_stmt env f = (\<lambda>(n, db).
     case step_error env n of
       Some code \<Rightarrow> Inl (SqlFailure code)
     | None \<Rightarrow> rbind (f db) (\<lambda>(x, db1). Inr (x, Suc n, db1)))"

definition tx_query :: "sql_env \<Rightarrow> (database \<Rightarrow> 'a) \<Rightarrow> 'a txn" where
  "tx_query env q = tx_stmt env (\<lambda>db. Inr (q db, db))"

definition transaction :: "sql_env \<Rightarrow> 'a txn \<Rightarrow> database \<Rightarrow> (TrustStoreError + 'a) \<times> database" where
  "transaction env body db =
     (case begin_error env of
        Some code \<Rightarrow> (Inl (SqlFailure code), db)
      | None \<Rightarrow>
          (case body (0, db) of
             Inl e \<Rightarrow> (Inl e, db)
           | Inr (x, _, db1) \<Rightarrow>
               (case commit_error env of
                  Some code \<Rightarrow> (Inl (SqlFailure code), db)
                | None \<Rightarrow> (Inr x, db1))))"

section \<open>Binding and reading rows\<close>

definition status_text :: "TrustStatus \<Rightarrow> string" where
  "status_text s = (case s of StatusActive \<Rightarrow> ''ACTIVE'' | StatusRevoked \<Rightarrow> ''REVOKED'')"

definition attempt_status_text :: "PairingAttemptStatus \<Rightarrow> string" where
  "attempt_status_text s =
     (case s of AttemptPending \<Rightarrow> ''PENDING'' | AttemptConfirmed \<Rightarrow> ''CONFIRMED''
      | AttemptCancelled \<Rightarrow> ''CANCELLED'' | AttemptExpired \<Rightarrow> ''EXPIRED'')"

definition bind_text :: "string \<Rightarrow> TrustStoreError + string" where
  "bind_text val =
     rbind (require (length val \<le> 4096 \<and> CHR 0x00 \<notin> set val) ''invalid text field'') (\<lambda>_. Inr val)"

definition next_revision :: "int \<Rightarrow> int \<Rightarrow> TrustStoreError + unit" where
  "next_revision revision expected =
     require (expected > 0 \<and> expected < INT64_MAX \<and> revision = expected + 1)
       ''replacement revision must advance by one''"

definition changed_one :: "nat \<Rightarrow> TrustStoreError + unit" where
  "changed_one changes =
     require (changes = 1) ''record missing, immutable identity changed, or stale revision''"

fun insert_permissions :: "sql_env \<Rightarrow> TrustUuid \<Rightarrow> bool \<Rightarrow> string list \<Rightarrow> unit txn" where
  "insert_permissions env u attempt [] = tx_return ()"
| "insert_permissions env u attempt (p # ps) =
     tx_bind (tx_lift (bind_text p)) (\<lambda>p1.
     tx_bind (tx_stmt env (if attempt then sql_insert_attempt_permission env u p1
                           else sql_insert_device_permission env u p1)) (\<lambda>_.
       insert_permissions env u attempt ps))"

definition write_permissions :: "sql_env \<Rightarrow> TrustUuid \<Rightarrow> string list \<Rightarrow> bool \<Rightarrow> unit txn" where
  "write_permissions env u permissions attempt =
     tx_bind (tx_lift (require (length permissions \<le> 128) ''too many permissions'')) (\<lambda>_.
       insert_permissions env u attempt permissions)"

definition select_permissions :: "TrustUuid \<Rightarrow> bool \<Rightarrow> database \<Rightarrow> string list" where
  "select_permissions u attempt db =
     (if attempt then sort [p. (v, p) \<leftarrow> pairing_attempt_permissions db, v = u]
      else sort [p. (v, p) \<leftarrow> device_permissions db, d \<leftarrow> trusted_devices db,
                    r_uuid d = v \<and> r_uuid d = u \<and> r_status d = ''ACTIVE''])"

definition read_permissions :: "sql_env \<Rightarrow> TrustUuid \<Rightarrow> bool \<Rightarrow> string list txn" where
  "read_permissions env u attempt = tx_query env (select_permissions u attempt)"

definition read_blob :: "nat \<Rightarrow> byte list \<Rightarrow> TrustStoreError + byte list" where
  "read_blob n b =
     rbind (require (length b = n) ''invalid stored UUID/public-key length or type'') (\<lambda>_. Inr b)"

definition read_device :: "sql_env \<Rightarrow> device_row option \<Rightarrow> TrustedDevice option txn" where
  "read_device env row =
     (case row of
        None \<Rightarrow> tx_return None
      | Some r \<Rightarrow>
          tx_bind (tx_lift (read_blob 16 (r_uuid r))) (\<lambda>u.
          tx_bind (tx_lift (read_blob 32 (r_public_key r))) (\<lambda>k.
          tx_bind (tx_lift (require (r_status r = ''ACTIVE'' \<or> r_status r = ''REVOKED'')
                      ''invalid stored trust status'')) (\<lambda>_.
          tx_bind (read_permissions env u False) (\<lambda>ps.
            tx_return (Some
              \<lparr>td_uuid = u, td_public_key = k,
               td_status = (if r_status r = ''ACTIVE'' then StatusActive else StatusRevoked),
               td_revision = r_revision r, td_local_alias = r_local_alias r,
               td_peer_name = r_peer_name r, td_peer_platform = r_peer_platform r,
               td_pairing_method = r_pairing_method r, td_paired_at = r_paired_at r,
               td_revoked_at = r_revoked_at r,
               td_last_authenticated_at = r_last_authenticated_at r,
               td_permissions = ps\<rparr>))))))"

definition bind_device :: "TrustedDevice \<Rightarrow> TrustStoreError + device_row" where
  "bind_device d =
     rbind (require (td_status d \<noteq> StatusRevoked \<or> td_permissions d = [])
              ''revoked devices cannot be granted permissions'') (\<lambda>_.
     rbind (bind_text (status_text (td_status d))) (\<lambda>status.
     rbind (bind_text (td_local_alias d)) (\<lambda>alias.
     rbind (bind_text (td_peer_name d)) (\<lambda>name.
     rbind (bind_text (td_peer_platform d)) (\<lambda>platform.
     rbind (bind_text (td_pairing_method d)) (\<lambda>pairing.
       Inr \<lparr>r_uuid = td_uuid d, r_public_key = td_public_key d, r_status = status,
            r_revision = td_revision d, r_local_alias = alias, r_peer_name = name,
            r_peer_platform = platform, r_pairing_method = pairing, r_paired_at = td_paired_at d,
            r_revoked_at = td_revoked_at d,
            r_last_authenticated_at = td_last_authenticated_at d\<rparr>))))))"

definition bind_attempt :: "PairingAttempt \<Rightarrow> TrustStoreError + attempt_row" where
  "bind_attempt a =
     rbind (bind_text (attempt_status_text (pa_status a))) (\<lambda>status.
       Inr \<lparr>a_attempt_id = pa_attempt_id a, a_peer_uuid = pa_peer_uuid a,
            a_peer_public_key = pa_peer_public_key a, a_status = status,
            a_revision = pa_revision a,
            a_local_confirmed = (if pa_local_confirmed a then 1 else 0),
            a_peer_confirmed = (if pa_peer_confirmed a then 1 else 0),
            a_created_at = pa_created_at a, a_updated_at = pa_updated_at a,
            a_expires_at = pa_expires_at a\<rparr>)"

section \<open>Store operations\<close>

record TrustStore =
  ts_db :: database
  ts_local_generation :: "64 word"
  ts_data_version :: int

text \<open>
  The frame of every writing operation: file checks, then a transaction.  The local generation
  advances after the commit of an operation that changes trust records.
\<close>

definition write_op ::
  "sql_env \<Rightarrow> bool \<Rightarrow> 'a txn \<Rightarrow> TrustStore \<Rightarrow> (TrustStoreError + 'a) \<times> TrustStore" where
  "write_op env bump body st =
     (case files_error env of
        Some e \<Rightarrow> (Inl e, st)
      | None \<Rightarrow>
          (case transaction env body (ts_db st) of
             (Inl e, db) \<Rightarrow> (Inl e, st\<lparr>ts_db := db\<rparr>)
           | (Inr x, db) \<Rightarrow>
               (Inr x, st\<lparr>ts_db := db,
                  ts_local_generation := (if bump then ts_local_generation st + 1
                                          else ts_local_generation st)\<rparr>)))"

definition read_op :: "sql_env \<Rightarrow> 'a txn \<Rightarrow> TrustStore \<Rightarrow> TrustStoreError + 'a" where
  "read_op env body st =
     (case files_error env of
        Some e \<Rightarrow> Inl e
      | None \<Rightarrow> fst (transaction env body (ts_db st)))"

text \<open>Queries that the source runs outside any transaction: one statement after the file checks.\<close>

definition plain_query :: "sql_env \<Rightarrow> (database \<Rightarrow> 'a) \<Rightarrow> TrustStore \<Rightarrow> TrustStoreError + 'a" where
  "plain_query env q st =
     (case files_error env of
        Some e \<Rightarrow> Inl e
      | None \<Rightarrow> rbind (tx_query env q (0, ts_db st)) (\<lambda>(x, _). Inr x))"

definition import_device_for_admin ::
  "sql_env \<Rightarrow> TrustedDevice \<Rightarrow> TrustStore \<Rightarrow> (TrustStoreError + unit) \<times> TrustStore" where
  "import_device_for_admin env device st =
     (if td_revision device \<noteq> 1 then (Inl (StoreError ''initial trust revision must be one''), st)
      else write_op env True
        (tx_bind (tx_lift (bind_device device)) (\<lambda>row.
         tx_bind (tx_stmt env (sql_insert_device env row)) (\<lambda>_.
           write_permissions env (td_uuid device) (td_permissions device) False))) st)"

definition find_device :: "sql_env \<Rightarrow> TrustUuid \<Rightarrow> TrustStore \<Rightarrow> TrustStoreError + TrustedDevice option" where
  "find_device env u st =
     read_op env
       (tx_bind (tx_query env (\<lambda>db. find (\<lambda>r. r_uuid r = u) (trusted_devices db))) (read_device env)) st"

definition find_by_public_key ::
  "sql_env \<Rightarrow> TrustPublicKey \<Rightarrow> TrustStore \<Rightarrow> TrustStoreError + TrustedDevice option" where
  "find_by_public_key env k st =
     read_op env
       (tx_bind (tx_query env (\<lambda>db. find (\<lambda>r. r_public_key r = k) (trusted_devices db)))
          (read_device env)) st"

definition find_active_authorization ::
  "sql_env \<Rightarrow> TrustUuid \<Rightarrow> TrustPublicKey \<Rightarrow> TrustStore \<Rightarrow>
   TrustStoreError + ActivePeerAuthorization option" where
  "find_active_authorization env u k st =
     read_op env
       (tx_bind (tx_query env (\<lambda>db. find (\<lambda>r. r_uuid r = u \<and> r_public_key r = k \<and>
                   r_status r = ''ACTIVE'') (trusted_devices db))) (\<lambda>row.
        case row of
          None \<Rightarrow> tx_return None
        | Some r \<Rightarrow>
            tx_bind (read_permissions env u False) (\<lambda>ps.
              tx_return (Some \<lparr>apa_revision = r_revision r, apa_permissions = ps\<rparr>)))) st"

definition change_token :: "sql_env \<Rightarrow> TrustStore \<Rightarrow> TrustStoreError + ChangeToken" where
  "change_token env st =
     rbind (plain_query env (\<lambda>_. ts_data_version st) st) (\<lambda>version.
       Inr \<lparr>ct_local_generation = ts_local_generation st, ct_external_generation = version\<rparr>)"

definition update_device ::
  "sql_env \<Rightarrow> TrustedDevice \<Rightarrow> int \<Rightarrow> TrustStore \<Rightarrow> (TrustStoreError + unit) \<times> TrustStore" where
  "update_device env device expected st =
     (case next_revision (td_revision device) expected of
        Inl e \<Rightarrow> (Inl e, st)
      | Inr _ \<Rightarrow> write_op env True
          (tx_bind (tx_lift (bind_device device)) (\<lambda>row.
           tx_bind (tx_stmt env (sql_update_devices env
               (\<lambda>r. r_uuid r = r_uuid row \<and> r_public_key r = r_public_key row \<and>
                    r_status r = r_status row \<and> r_revision r = expected)
               (\<lambda>r. r\<lparr>r_status := r_status row, r_revision := r_revision row,
                      r_local_alias := r_local_alias row, r_peer_name := r_peer_name row,
                      r_peer_platform := r_peer_platform row,
                      r_pairing_method := r_pairing_method row, r_paired_at := r_paired_at row,
                      r_revoked_at := r_revoked_at row,
                      r_last_authenticated_at := r_last_authenticated_at row\<rparr>))) (\<lambda>changes.
           tx_bind (tx_lift (changed_one changes)) (\<lambda>_.
           tx_bind (tx_stmt env (sql_clear_device_permissions (td_uuid device))) (\<lambda>_.
             write_permissions env (td_uuid device) (td_permissions device) False))))) st)"

definition revoke_device ::
  "sql_env \<Rightarrow> TrustUuid \<Rightarrow> int \<Rightarrow> int \<Rightarrow> TrustStore \<Rightarrow> (TrustStoreError + unit) \<times> TrustStore" where
  "revoke_device env u expected revoked_at st =
     (if \<not> (expected > 0 \<and> expected < INT64_MAX) then (Inl (StoreError ''invalid trust revision''), st)
      else write_op env True
        (tx_bind (tx_stmt env (sql_update_devices env
             (\<lambda>r. r_uuid r = u \<and> r_revision r = expected)
             (\<lambda>r. r\<lparr>r_status := ''REVOKED'', r_revision := r_revision r + 1,
                    r_revoked_at := Some revoked_at\<rparr>))) (\<lambda>changes.
         tx_bind (tx_lift (changed_one changes)) (\<lambda>_.
           tx_stmt env (sql_clear_device_permissions u)))) st)"

definition state_text :: "TrustUuid \<Rightarrow> database \<Rightarrow> string" where
  "state_text u db =
     (case find (\<lambda>r. r_uuid r = u) (trusted_devices db) of
        Some r \<Rightarrow> r_status r
      | None \<Rightarrow>
          if list_ex (\<lambda>a. a_peer_uuid a = u \<and> a_status a \<in> {''PENDING'', ''CONFIRMED''}) (pairing_attempts db)
          then ''PENDING'' else ''UNKNOWN'')"

definition state :: "sql_env \<Rightarrow> TrustUuid \<Rightarrow> TrustStore \<Rightarrow> TrustStoreError + TrustState" where
  "state env u st =
     rbind (plain_query env (state_text u) st) (\<lambda>val.
       if val = ''ACTIVE'' then Inr StateActive
       else if val = ''REVOKED'' then Inr StateRevoked
       else if val = ''PENDING'' then Inr StatePairingPending
       else rbind (require (val = ''UNKNOWN'') ''invalid stored trust state'') (\<lambda>_. Inr StateUnknown))"

definition permissions :: "sql_env \<Rightarrow> TrustUuid \<Rightarrow> TrustStore \<Rightarrow> TrustStoreError + string list" where
  "permissions env u st = plain_query env (select_permissions u False) st"

definition create_attempt ::
  "sql_env \<Rightarrow> PairingAttempt \<Rightarrow> TrustStore \<Rightarrow> (TrustStoreError + unit) \<times> TrustStore" where
  "create_attempt env attempt st =
     (if pa_revision attempt \<noteq> 1 then (Inl (StoreError ''initial attempt revision must be one''), st)
      else write_op env False
        (tx_bind (tx_lift (bind_attempt attempt)) (\<lambda>row.
         tx_bind (tx_stmt env (sql_insert_attempt row)) (\<lambda>_.
           write_permissions env (pa_attempt_id attempt) (pa_proposed_permissions attempt) True))) st)"

definition read_attempt :: "sql_env \<Rightarrow> TrustUuid \<Rightarrow> attempt_row option \<Rightarrow> PairingAttempt option txn" where
  "read_attempt env attempt_id row =
     (case row of
        None \<Rightarrow> tx_return None
      | Some a \<Rightarrow>
          tx_bind (tx_lift (read_blob 16 (a_attempt_id a))) (\<lambda>i.
          tx_bind (tx_lift (read_blob 16 (a_peer_uuid a))) (\<lambda>u.
          tx_bind (tx_lift (read_blob 32 (a_peer_public_key a))) (\<lambda>k.
          tx_bind (tx_lift (if a_status a = ''PENDING'' then Inr AttemptPending
                            else if a_status a = ''CONFIRMED'' then Inr AttemptConfirmed
                            else if a_status a = ''CANCELLED'' then Inr AttemptCancelled
                            else if a_status a = ''EXPIRED'' then Inr AttemptExpired
                            else Inl (StoreError ''invalid stored attempt status''))) (\<lambda>status.
          tx_bind (read_permissions env attempt_id True) (\<lambda>ps.
            tx_return (Some
              \<lparr>pa_attempt_id = i, pa_peer_uuid = u, pa_peer_public_key = k, pa_status = status,
               pa_revision = a_revision a, pa_local_confirmed = (a_local_confirmed a \<noteq> 0),
               pa_peer_confirmed = (a_peer_confirmed a \<noteq> 0), pa_created_at = a_created_at a,
               pa_updated_at = a_updated_at a, pa_expires_at = a_expires_at a,
               pa_proposed_permissions = ps\<rparr>)))))))"

definition find_attempt :: "sql_env \<Rightarrow> TrustUuid \<Rightarrow> TrustStore \<Rightarrow> TrustStoreError + PairingAttempt option" where
  "find_attempt env attempt_id st =
     read_op env
       (tx_bind (tx_query env (\<lambda>db. find (\<lambda>a. a_attempt_id a = attempt_id) (pairing_attempts db)))
          (read_attempt env attempt_id)) st"

definition update_attempt ::
  "sql_env \<Rightarrow> PairingAttempt \<Rightarrow> int \<Rightarrow> TrustStore \<Rightarrow> (TrustStoreError + unit) \<times> TrustStore" where
  "update_attempt env attempt expected st =
     (case next_revision (pa_revision attempt) expected of
        Inl e \<Rightarrow> (Inl e, st)
      | Inr _ \<Rightarrow> write_op env False
          (tx_bind (tx_lift (bind_attempt attempt)) (\<lambda>row.
           tx_bind (tx_stmt env (sql_update_attempts
               (\<lambda>a. a_attempt_id a = a_attempt_id row \<and> a_peer_uuid a = a_peer_uuid row \<and>
                    a_peer_public_key a = a_peer_public_key row \<and>
                    a_created_at a = a_created_at row \<and> a_revision a = expected)
               (\<lambda>a. a\<lparr>a_status := a_status row, a_revision := a_revision row,
                      a_local_confirmed := a_local_confirmed row,
                      a_peer_confirmed := a_peer_confirmed row,
                      a_updated_at := a_updated_at row, a_expires_at := a_expires_at row\<rparr>))) (\<lambda>changes.
           tx_bind (tx_lift (changed_one changes)) (\<lambda>_.
           tx_bind (tx_stmt env (sql_clear_attempt_permissions (pa_attempt_id attempt))) (\<lambda>_.
             write_permissions env (pa_attempt_id attempt) (pa_proposed_permissions attempt) True))))) st)"

definition delete_attempt ::
  "sql_env \<Rightarrow> TrustUuid \<Rightarrow> int \<Rightarrow> TrustStore \<Rightarrow> (TrustStoreError + unit) \<times> TrustStore" where
  "delete_attempt env attempt_id expected st =
     write_op env False
       (tx_bind (tx_stmt env (sql_delete_attempts
            (\<lambda>a. a_attempt_id a = attempt_id \<and> a_revision a = expected))) (\<lambda>changes.
          tx_lift (changed_one changes))) st"

text \<open>The WHERE clause that selects, and later deletes, an attempt that may be finalized.\<close>

definition finalizable :: "TrustUuid \<Rightarrow> int \<Rightarrow> int \<Rightarrow> attempt_row \<Rightarrow> bool" where
  "finalizable attempt_id expected now a \<longleftrightarrow>
     a_attempt_id a = attempt_id \<and> a_revision a = expected \<and> a_status a = ''CONFIRMED'' \<and>
     a_local_confirmed a = 1 \<and> a_peer_confirmed a = 1 \<and> now \<le> a_expires_at a"

definition select_attempt ::
  "sql_env \<Rightarrow> TrustUuid \<Rightarrow> int \<Rightarrow> int \<Rightarrow> PairingFinalization \<Rightarrow> unit txn" where
  "select_attempt env attempt_id expected now fin =
     tx_bind (tx_query env (\<lambda>db. find (finalizable attempt_id expected now) (pairing_attempts db))) (\<lambda>row.
       case row of
         None \<Rightarrow> tx_lift (Inl (StoreError
           ''pairing attempt missing, stale, unconfirmed, consumed, or expired''))
       | Some a \<Rightarrow>
           tx_bind (tx_lift (read_blob 16 (a_peer_uuid a))) (\<lambda>u.
           tx_bind (tx_lift (require (u = pf_peer_uuid fin)
             ''pairing finalization identity does not match attempt'')) (\<lambda>_.
           tx_bind (tx_lift (read_blob 32 (a_peer_public_key a))) (\<lambda>k.
             tx_lift (require (k = pf_peer_public_key fin)
               ''pairing finalization identity does not match attempt'')))))"

text \<open>The revision of the new trust record, and whether a revoked record is being reactivated.\<close>

definition select_existing :: "sql_env \<Rightarrow> PairingFinalization \<Rightarrow> (int \<times> bool) txn" where
  "select_existing env fin =
     tx_bind (tx_query env (\<lambda>db. find (\<lambda>r. r_uuid r = pf_peer_uuid fin) (trusted_devices db))) (\<lambda>row.
       case row of
         None \<Rightarrow> tx_return (1, False)
       | Some r \<Rightarrow>
           tx_bind (tx_lift (read_blob 32 (r_public_key r))) (\<lambda>k.
           tx_bind (tx_lift (require (k = pf_peer_public_key fin)
             ''revoked trust identity does not match pairing attempt'')) (\<lambda>_.
           tx_bind (tx_lift (require (r_status r = ''REVOKED'')
             ''active trust record already exists'')) (\<lambda>_.
           tx_bind (tx_lift (require (r_revision r > 0 \<and> r_revision r < INT64_MAX)
             ''invalid trust revision for reactivation'')) (\<lambda>_.
             tx_return (r_revision r + 1, True))))))"

definition finalized_device :: "PairingFinalization \<Rightarrow> int \<Rightarrow> int \<Rightarrow> TrustedDevice" where
  "finalized_device fin trust_revision now =
     \<lparr>td_uuid = pf_peer_uuid fin, td_public_key = pf_peer_public_key fin, td_status = StatusActive,
      td_revision = trust_revision, td_local_alias = pf_local_alias fin,
      td_peer_name = pf_peer_name fin, td_peer_platform = pf_peer_platform fin,
      td_pairing_method = pf_pairing_method fin, td_paired_at = now, td_revoked_at = None,
      td_last_authenticated_at = None, td_permissions = []\<rparr>"

definition store_finalized :: "sql_env \<Rightarrow> TrustedDevice \<Rightarrow> bool \<Rightarrow> unit txn" where
  "store_finalized env device reactivating =
     tx_bind (tx_lift (bind_device device)) (\<lambda>row.
       if reactivating then
         tx_bind (tx_stmt env (sql_update_devices env
             (\<lambda>r. r_uuid r = r_uuid row \<and> r_public_key r = r_public_key row \<and>
                  r_status r = ''REVOKED'' \<and> r_revision r = td_revision device - 1)
             (\<lambda>r. r\<lparr>r_status := r_status row, r_revision := r_revision row,
                    r_local_alias := r_local_alias row, r_peer_name := r_peer_name row,
                    r_peer_platform := r_peer_platform row,
                    r_pairing_method := r_pairing_method row, r_paired_at := r_paired_at row,
                    r_revoked_at := r_revoked_at row,
                    r_last_authenticated_at := r_last_authenticated_at row\<rparr>))) (\<lambda>changes.
           tx_lift (changed_one changes))
       else tx_stmt env (sql_insert_device env row))"

text \<open>The two clock readings of the source are the arguments \<open>now\<close> and \<open>completion_time\<close>.\<close>

definition finalize_pairing ::
  "sql_env \<Rightarrow> int \<Rightarrow> int \<Rightarrow> TrustUuid \<Rightarrow> int \<Rightarrow> PairingFinalization \<Rightarrow> TrustStore \<Rightarrow>
   (TrustStoreError + unit) \<times> TrustStore" where
  "finalize_pairing env now completion_time attempt_id expected fin st =
     (if \<not> expected > 0 then (Inl (StoreError ''invalid attempt revision''), st)
      else write_op env True
        (tx_bind (tx_lift (require (now \<ge> 0) ''system clock precedes Unix epoch'')) (\<lambda>_.
         tx_bind (select_attempt env attempt_id expected now fin) (\<lambda>_.
         tx_bind (read_permissions env attempt_id True) (\<lambda>ps.
         tx_bind (select_existing env fin) (\<lambda>(trust_revision, reactivating).
         tx_bind (store_finalized env (finalized_device fin trust_revision now) reactivating) (\<lambda>_.
         tx_bind (tx_stmt env (sql_clear_device_permissions (pf_peer_uuid fin))) (\<lambda>_.
         tx_bind (write_permissions env (pf_peer_uuid fin) ps False) (\<lambda>_.
         tx_bind (tx_lift (require (completion_time \<ge> 0) ''system clock precedes Unix epoch'')) (\<lambda>_.
         tx_bind (tx_stmt env (sql_delete_attempts (finalizable attempt_id expected completion_time))) (\<lambda>changes.
           tx_lift (changed_one changes))))))))))) st)"

end
