(* ===== verification/Trust_Refinement.thy ===== *)
theory Trust_Refinement
  imports Trust_Store
begin

text \<open>
  Correctness of the trust store.  \<open>wf_db\<close> is the invariant of the database: the schema's
  constraints, that a revoked device holds no permission (which only the code ensures), and
  that revisions stay within 64 bits.  \<open>trust_view\<close> abstracts a database to a map from UUIDs to
  key, status, revision and permission set, and \<open>trust_step\<close> is the abstract transition system
  of trust decisions; every successful operation on a well-formed database is one of its
  steps, and every failing one changes nothing.
\<close>

section \<open>Operations as labels\<close>

datatype store_op =
    OpImport TrustedDevice
  | OpUpdate TrustedDevice int
  | OpRevoke TrustUuid int int
  | OpCreateAttempt PairingAttempt
  | OpUpdateAttempt PairingAttempt int
  | OpDeleteAttempt TrustUuid int
  | OpFinalize int int TrustUuid int PairingFinalization

fun run_op :: "sql_env \<Rightarrow> store_op \<Rightarrow> TrustStore \<Rightarrow> (TrustStoreError + unit) \<times> TrustStore" where
  "run_op env (OpImport d) st = import_device_for_admin env d st"
| "run_op env (OpUpdate d e) st = update_device env d e st"
| "run_op env (OpRevoke u e t) st = revoke_device env u e t st"
| "run_op env (OpCreateAttempt a) st = create_attempt env a st"
| "run_op env (OpUpdateAttempt a e) st = update_attempt env a e st"
| "run_op env (OpDeleteAttempt i e) st = delete_attempt env i e st"
| "run_op env (OpFinalize now done i e fin) st = finalize_pairing env now done i e fin st"

section \<open>The invariant\<close>

definition perms_of :: "(TrustUuid \<times> string) list \<Rightarrow> TrustUuid \<Rightarrow> string set" where
  "perms_of ps u = {p. (u, p) \<in> set ps}"

lemma perms_of_code [code]: "perms_of ps u = snd ` set (filter (\<lambda>(v, p). v = u) ps)"
  by (force simp: perms_of_def)

definition wf_devices :: "sql_env \<Rightarrow> database \<Rightarrow> bool" where
  "wf_devices env db \<longleftrightarrow>
     (\<forall>r \<in> set (trusted_devices db). device_row_ok env r \<and> r_revision r \<le> INT64_MAX) \<and>
     distinct (map r_uuid (trusted_devices db)) \<and> distinct (map r_public_key (trusted_devices db)) \<and>
     distinct (device_permissions db) \<and>
     (\<forall>(u, p) \<in> set (device_permissions db).
        permission_ok env p \<and> u \<in> r_uuid ` set (trusted_devices db)) \<and>
     (\<forall>r \<in> set (trusted_devices db). r_status r = ''REVOKED'' \<longrightarrow>
        perms_of (device_permissions db) (r_uuid r) = {})"

definition wf_attempts :: "sql_env \<Rightarrow> database \<Rightarrow> bool" where
  "wf_attempts env db \<longleftrightarrow>
     (\<forall>a \<in> set (pairing_attempts db). attempt_row_ok a \<and> a_revision a \<le> INT64_MAX) \<and>
     distinct (map a_attempt_id (pairing_attempts db)) \<and>
     distinct (pairing_attempt_permissions db) \<and>
     (\<forall>(i, p) \<in> set (pairing_attempt_permissions db).
        permission_ok env p \<and> i \<in> a_attempt_id ` set (pairing_attempts db))"

definition wf_db :: "sql_env \<Rightarrow> database \<Rightarrow> bool" where
  "wf_db env db \<longleftrightarrow> wf_devices env db \<and> wf_attempts env db"

section \<open>Sequencing lemmas\<close>

named_theorems tx_simps \<open>success of the transaction combinators\<close>

lemma tx_bind_Inr [tx_simps]:
  "tx_bind m f s = Inr y \<longleftrightarrow> (\<exists>x s1. m s = Inr (x, s1) \<and> f x s1 = Inr y)"
  by (auto simp: tx_bind_def split: prod.splits)

lemma tx_lift_Inr [tx_simps]: "tx_lift r s = Inr (x, s1) \<longleftrightarrow> r = Inr x \<and> s1 = s"
  by (auto simp: tx_lift_def)

lemma tx_return_Inr [tx_simps]: "tx_return v s = Inr (x, s1) \<longleftrightarrow> x = v \<and> s1 = s"
  by (auto simp: tx_return_def)

lemma tx_stmt_Inr [tx_simps]:
  "tx_stmt env f (n, db) = Inr (x, s1) \<longleftrightarrow>
     step_error env n = None \<and> (\<exists>db1. f db = Inr (x, db1) \<and> s1 = (Suc n, db1))"
  by (auto simp: tx_stmt_def split: option.splits)

lemma tx_query_Inr [tx_simps]:
  "tx_query env q (n, db) = Inr (x, s1) \<longleftrightarrow>
     step_error env n = None \<and> x = q db \<and> s1 = (Suc n, db)"
  by (auto simp: tx_query_def tx_stmt_Inr)

lemma sql_clear_Inr:
  "sql_clear_device_permissions u db = Inr (x, db1) \<longleftrightarrow>
     db1 = db\<lparr>device_permissions := filter (\<lambda>(v, p). v \<noteq> u) (device_permissions db)\<rparr>"
  "sql_clear_attempt_permissions u db = Inr (x, db1) \<longleftrightarrow>
     db1 = db\<lparr>pairing_attempt_permissions := filter (\<lambda>(v, p). v \<noteq> u) (pairing_attempt_permissions db)\<rparr>"
  by (auto simp: sql_clear_device_permissions_def sql_clear_attempt_permissions_def)

lemma transaction_Inr:
  "transaction env body db = (Inr x, db1) \<longleftrightarrow>
     begin_error env = None \<and> commit_error env = None \<and> (\<exists>n. body (0, db) = Inr (x, n, db1))"
  by (auto simp: transaction_def split: option.splits sum.splits prod.splits)

lemma transaction_Inl: "transaction env body db = (Inl e, db1) \<Longrightarrow> db1 = db"
  by (auto simp: transaction_def split: option.splits sum.splits prod.splits)

lemma write_op_Inr:
  "write_op env b body st = (Inr x, st1) \<longleftrightarrow>
     files_error env = None \<and> begin_error env = None \<and> commit_error env = None \<and>
     (\<exists>n db1. body (0, ts_db st) = Inr (x, n, db1) \<and>
        st1 = st\<lparr>ts_db := db1, ts_local_generation :=
                  (if b then ts_local_generation st + 1 else ts_local_generation st)\<rparr>)"
  by (auto simp: write_op_def transaction_def split: option.splits sum.splits prod.splits)

lemma write_op_Inl: "write_op env b body st = (Inl e, st1) \<Longrightarrow> st1 = st"
  by (auto simp: write_op_def split: option.splits prod.splits sum.splits dest!: transaction_Inl)

lemma write_permissions_device:
  assumes "write_permissions env u ps False (n, db) = Inr (x, n1, db1)"
  shows "db1 = db\<lparr>device_permissions := device_permissions db @ map (Pair u) ps\<rparr> \<and> distinct ps \<and>
    (\<forall>p \<in> set ps. permission_ok env p \<and> (u, p) \<notin> set (device_permissions db) \<and>
       u \<in> r_uuid ` set (trusted_devices db))"
proof -
  have "insert_permissions env u False ps (n, db) = Inr (x, n1, db1) \<Longrightarrow> ?thesis"
  proof (induction ps arbitrary: n db)
    case (Cons p ps)
    from Cons.prems obtain db0 where
      s: "sql_insert_device_permission env u p db = Inr ((), db0)"
      and r: "insert_permissions env u False ps (Suc n, db0) = Inr (x, n1, db1)"
      by (auto simp: tx_simps bind_text_def)
    from Cons.IH [OF r] s show ?case
      by (auto simp: sql_insert_device_permission_def list_ex_iff split: if_splits)
  qed (simp add: tx_simps)
  with assms show ?thesis by (auto simp: write_permissions_def tx_simps)
qed

lemma write_permissions_attempt:
  assumes "write_permissions env u ps True (n, db) = Inr (x, n1, db1)"
  shows "db1 = db\<lparr>pairing_attempt_permissions := pairing_attempt_permissions db @ map (Pair u) ps\<rparr> \<and>
    distinct ps \<and>
    (\<forall>p \<in> set ps. permission_ok env p \<and> (u, p) \<notin> set (pairing_attempt_permissions db) \<and>
       u \<in> a_attempt_id ` set (pairing_attempts db))"
proof -
  have "insert_permissions env u True ps (n, db) = Inr (x, n1, db1) \<Longrightarrow> ?thesis"
  proof (induction ps arbitrary: n db)
    case (Cons p ps)
    from Cons.prems obtain db0 where
      s: "sql_insert_attempt_permission env u p db = Inr ((), db0)"
      and r: "insert_permissions env u True ps (Suc n, db0) = Inr (x, n1, db1)"
      by (auto simp: tx_simps bind_text_def)
    from Cons.IH [OF r] s show ?case
      by (auto simp: sql_insert_attempt_permission_def list_ex_iff split: if_splits)
  qed (simp add: tx_simps)
  with assms show ?thesis by (auto simp: write_permissions_def tx_simps)
qed

section \<open>Rows selected by their key\<close>

lemma filter_one:
  assumes "length (filter P rows) = 1"
  obtains r where "r \<in> set rows" and "P r"
proof -
  from assms obtain r where "filter P rows = [r]" by (auto simp: length_Suc_conv)
  then have "r \<in> set (filter P rows)" by simp
  then show ?thesis using that by auto
qed

lemma distinct_key_Cons: "distinct (map key (q # rows)) \<Longrightarrow> \<forall>p \<in> set rows. key p \<noteq> key q"
  by (metis distinct.simps(2) imageI list.map(2) list.set_map)

lemma find_key:
  assumes "distinct (map key rows)" and "r \<in> set rows"
  shows "find (\<lambda>q. key q = key r) rows = Some r"
  using assms by (induction rows) auto

lemma find_map_update:
  assumes "distinct (map key rows)" and "r \<in> set rows" and "P r"
    and "\<And>q. P q \<Longrightarrow> key q = key r" and "\<And>q. key (f q) = key q"
  shows "find (\<lambda>q. key q = u) (map (\<lambda>q. if P q then f q else q) rows) =
    (if u = key r then Some (f r) else find (\<lambda>q. key q = u) rows)"
  using assms(1,2)
proof (induction rows)
  case (Cons q rows)
  show ?case
  proof (cases "q = r")
    case True
    with distinct_key_Cons [OF Cons.prems(1)] have "\<forall>p \<in> set rows. \<not> P p" using assms(4) by blast
    then have "map (\<lambda>q. if P q then f q else q) rows = rows" by (induction rows) auto
    with True assms(3,5) show ?thesis by auto
  next
    case False
    with Cons.prems have r: "r \<in> set rows" by simp
    with Cons.prems(1) have "key q \<noteq> key r" by auto
    with assms(4) have "\<not> P q" by blast
    with Cons r \<open>key q \<noteq> key r\<close> show ?thesis by auto
  qed
qed simp

lemma find_snoc:
  "\<forall>q \<in> set rows. key q \<noteq> key r \<Longrightarrow>
   find (\<lambda>q. key q = u) (rows @ [r]) = (if u = key r then Some r else find (\<lambda>q. key q = u) rows)"
  by (induction rows) auto

section \<open>The abstract specification\<close>

record trust =
  t_key :: TrustPublicKey
  t_active :: bool
  t_revision :: int
  t_permissions :: "string set"

record pairing =
  p_peer :: TrustUuid
  p_key :: TrustPublicKey
  p_confirmed :: bool
  p_revision :: int
  p_expires :: int
  p_permissions :: "string set"

definition trust_view :: "database \<Rightarrow> TrustUuid \<Rightarrow> trust option" where
  "trust_view db u =
     map_option (\<lambda>r. \<lparr>t_key = r_public_key r, t_active = (r_status r = ''ACTIVE''),
                      t_revision = r_revision r, t_permissions = perms_of (device_permissions db) u\<rparr>)
       (find (\<lambda>r. r_uuid r = u) (trusted_devices db))"

definition pairing_view :: "database \<Rightarrow> TrustUuid \<Rightarrow> pairing option" where
  "pairing_view db i =
     map_option (\<lambda>a. \<lparr>p_peer = a_peer_uuid a, p_key = a_peer_public_key a,
                      p_confirmed = (a_status a = ''CONFIRMED''), p_revision = a_revision a,
                      p_expires = a_expires_at a,
                      p_permissions = perms_of (pairing_attempt_permissions db) i\<rparr>)
       (find (\<lambda>a. a_attempt_id a = i) (pairing_attempts db))"

text \<open>What a trust decision may do: the only rules that make a peer active are an import and the
  finalization of a confirmed, unexpired attempt for that very peer and key, which consumes it.\<close>

inductive trust_step ::
  "store_op \<Rightarrow> (TrustUuid \<rightharpoonup> trust) \<times> (TrustUuid \<rightharpoonup> pairing) \<Rightarrow>
   (TrustUuid \<rightharpoonup> trust) \<times> (TrustUuid \<rightharpoonup> pairing) \<Rightarrow> bool" where
  step_import:
  "\<lbrakk>T (td_uuid d) = None; \<forall>t \<in> ran T. t_key t \<noteq> td_public_key d\<rbrakk> \<Longrightarrow>
   trust_step (OpImport d) (T, A)
     (T(td_uuid d \<mapsto> \<lparr>t_key = td_public_key d, t_active = (td_status d = StatusActive),
                       t_revision = 1, t_permissions = set (td_permissions d)\<rparr>), A)"
| step_update:
  "\<lbrakk>T (td_uuid d) = Some t; t_key t = td_public_key d; t_active t = (td_status d = StatusActive);
    t_revision t = e; e < INT64_MAX\<rbrakk> \<Longrightarrow>
   trust_step (OpUpdate d e) (T, A)
     (T(td_uuid d \<mapsto> t\<lparr>t_revision := e + 1, t_permissions := set (td_permissions d)\<rparr>), A)"
| step_revoke:
  "\<lbrakk>T u = Some t; t_revision t = e; e < INT64_MAX\<rbrakk> \<Longrightarrow>
   trust_step (OpRevoke u e w) (T, A)
     (T(u \<mapsto> t\<lparr>t_active := False, t_revision := e + 1, t_permissions := {}\<rparr>), A)"
| step_create:
  "\<lbrakk>A (pa_attempt_id a) = None\<rbrakk> \<Longrightarrow>
   trust_step (OpCreateAttempt a) (T, A)
     (T, A(pa_attempt_id a \<mapsto>
       \<lparr>p_peer = pa_peer_uuid a, p_key = pa_peer_public_key a,
        p_confirmed = (pa_status a = AttemptConfirmed), p_revision = 1,
        p_expires = pa_expires_at a, p_permissions = set (pa_proposed_permissions a)\<rparr>))"
| step_amend:
  "\<lbrakk>A (pa_attempt_id a) = Some p; p_peer p = pa_peer_uuid a; p_key p = pa_peer_public_key a;
    p_revision p = e; e < INT64_MAX\<rbrakk> \<Longrightarrow>
   trust_step (OpUpdateAttempt a e) (T, A)
     (T, A(pa_attempt_id a \<mapsto>
       p\<lparr>p_confirmed := (pa_status a = AttemptConfirmed), p_revision := e + 1,
         p_expires := pa_expires_at a, p_permissions := set (pa_proposed_permissions a)\<rparr>))"
| step_delete:
  "\<lbrakk>A i = Some p; p_revision p = e\<rbrakk> \<Longrightarrow>
   trust_step (OpDeleteAttempt i e) (T, A) (T, A(i := None))"
| step_pair:
  "\<lbrakk>A i = Some p; p_revision p = e; p_confirmed p; now \<le> p_expires p; fin_time \<le> p_expires p;
    p_peer p = pf_peer_uuid fin; p_key p = pf_peer_public_key fin;
    T (pf_peer_uuid fin) = None; \<forall>t \<in> ran T. t_key t \<noteq> pf_peer_public_key fin\<rbrakk> \<Longrightarrow>
   trust_step (OpFinalize now fin_time i e fin) (T, A)
     (T(pf_peer_uuid fin \<mapsto> \<lparr>t_key = p_key p, t_active = True, t_revision = 1,
                              t_permissions = p_permissions p\<rparr>), A(i := None))"
| step_repair:
  "\<lbrakk>A i = Some p; p_revision p = e; p_confirmed p; now \<le> p_expires p; fin_time \<le> p_expires p;
    p_peer p = pf_peer_uuid fin; p_key p = pf_peer_public_key fin;
    T (pf_peer_uuid fin) = Some t; t_key t = p_key p; \<not> t_active t; t_revision t < INT64_MAX\<rbrakk> \<Longrightarrow>
   trust_step (OpFinalize now fin_time i e fin) (T, A)
     (T(pf_peer_uuid fin \<mapsto> \<lparr>t_key = p_key p, t_active = True, t_revision = t_revision t + 1,
                              t_permissions = p_permissions p\<rparr>), A(i := None))"

inductive_cases trust_stepE: "trust_step opn S S1"

section \<open>Effect of a replaced or added row\<close>

lemma perms_of_replace:
  "perms_of (filter (\<lambda>(v, p). v \<noteq> u) dp @ map (Pair u) ps) w =
     (if w = u then set ps else perms_of dp w)"
  by (auto simp: perms_of_def)

lemma distinct_replace:
  "\<lbrakk>distinct dp; distinct ps\<rbrakk> \<Longrightarrow> distinct (filter (\<lambda>(v, p). v \<noteq> u) dp @ map (Pair u) ps)"
  by (auto simp: distinct_map inj_on_def)

lemma map_key_update:
  "(\<And>q. key (f q) = key q) \<Longrightarrow> map key (map (\<lambda>q. if P q then f q else q) rows) = map key rows"
  by simp

lemma replace_device:
  assumes wf: "wf_devices env db" and r: "r \<in> set (trusted_devices db)" "P r"
    and P: "\<And>q. P q \<Longrightarrow> r_uuid q = r_uuid r"
    and f: "\<And>q. r_uuid (f q) = r_uuid q" "\<And>q. r_public_key (f q) = r_public_key q"
    and ok: "device_row_ok env (f r)" "r_revision (f r) \<le> INT64_MAX"
    and ps: "distinct ps" "\<forall>p \<in> set ps. permission_ok env p" "r_status (f r) = ''REVOKED'' \<Longrightarrow> ps = []"
    and db1: "trusted_devices db1 = map (\<lambda>q. if P q then f q else q) (trusted_devices db)"
      "device_permissions db1 = filter (\<lambda>(v, p). v \<noteq> r_uuid r) (device_permissions db) @ map (Pair (r_uuid r)) ps"
  shows "wf_devices env db1" (is ?wf)
    and "trust_view db1 = (trust_view db)(r_uuid r \<mapsto>
      \<lparr>t_key = r_public_key r, t_active = (r_status (f r) = ''ACTIVE''),
       t_revision = r_revision (f r), t_permissions = set ps\<rparr>)" (is ?view)
proof -
  have uniq: "q = r" if "q \<in> set (trusted_devices db)" "P q" for q
    using wf r(1) that P [OF that(2)] by (auto simp: wf_devices_def distinct_map inj_on_def)
  have uuids_distinct: "distinct (map r_uuid (trusted_devices db))"
    using wf by (simp add: wf_devices_def)
  have keys: "map r_uuid (trusted_devices db1) = map r_uuid (trusted_devices db)"
    "map r_public_key (trusted_devices db1) = map r_public_key (trusted_devices db)"
    by (simp_all add: db1 f)
  have uuids: "r_uuid ` set (trusted_devices db1) = r_uuid ` set (trusted_devices db)"
    using arg_cong [OF keys(1), of set] by simp
  have rows: "q = f r \<or> (q \<in> set (trusted_devices db) \<and> r_uuid q \<noteq> r_uuid r)"
    if "q \<in> set (trusted_devices db1)" for q
  proof -
    from that obtain q0 where q0: "q0 \<in> set (trusted_devices db)" "q = (if P q0 then f q0 else q0)"
      unfolding db1 by auto
    show ?thesis
    proof (cases "q0 = r")
      case False
      with q0 wf r(1) uniq show ?thesis
        by (auto simp: wf_devices_def distinct_map inj_on_def)
    qed (use q0 r(2) in simp)
  qed
  show ?wf
    unfolding wf_devices_def keys uuids
  proof (intro conjI ballI)
    show "distinct (device_permissions db1)"
      using wf ps(1) unfolding db1 by (intro distinct_replace) (auto simp: wf_devices_def)
    show "case x of (u, p) \<Rightarrow> permission_ok env p \<and> u \<in> r_uuid ` set (trusted_devices db)"
      if "x \<in> set (device_permissions db1)" for x
      using that wf ps(2) r(1) unfolding db1 by (auto simp: wf_devices_def)
    show "r_status q = ''REVOKED'' \<longrightarrow> perms_of (device_permissions db1) (r_uuid q) = {}"
      if "q \<in> set (trusted_devices db1)" for q
      using rows [OF that] wf ps(3) by (auto simp: db1 perms_of_replace wf_devices_def f)
  qed (use wf ok rows in \<open>auto simp: wf_devices_def\<close>)
  show ?view
  proof
    fix u
    have "find (\<lambda>q. r_uuid q = u) (trusted_devices db1) =
      (if u = r_uuid r then Some (f r) else find (\<lambda>q. r_uuid q = u) (trusted_devices db))"
      unfolding db1 by (rule find_map_update [where P = P, OF uuids_distinct r]) (simp_all add: P f)
    then show "trust_view db1 u = ((trust_view db)(r_uuid r \<mapsto>
      \<lparr>t_key = r_public_key r, t_active = (r_status (f r) = ''ACTIVE''),
       t_revision = r_revision (f r), t_permissions = set ps\<rparr>)) u"
      by (auto simp: trust_view_def db1(2) perms_of_replace f)
  qed
qed

lemma add_device:
  assumes wf: "wf_devices env db"
    and new: "\<forall>q \<in> set (trusted_devices db). r_uuid q \<noteq> r_uuid r \<and> r_public_key q \<noteq> r_public_key r"
    and ok: "device_row_ok env r" "r_revision r \<le> INT64_MAX"
    and ps: "distinct ps" "\<forall>p \<in> set ps. permission_ok env p" "r_status r = ''REVOKED'' \<Longrightarrow> ps = []"
    and db1: "trusted_devices db1 = trusted_devices db @ [r]"
      "device_permissions db1 = filter (\<lambda>(v, p). v \<noteq> r_uuid r) (device_permissions db) @ map (Pair (r_uuid r)) ps"
  shows "wf_devices env db1" (is ?wf)
    and "trust_view db1 = (trust_view db)(r_uuid r \<mapsto>
      \<lparr>t_key = r_public_key r, t_active = (r_status r = ''ACTIVE''),
       t_revision = r_revision r, t_permissions = set ps\<rparr>)" (is ?view)
proof -
  show ?wf
    unfolding wf_devices_def
  proof (intro conjI ballI)
    show "distinct (device_permissions db1)"
      using wf ps(1) unfolding db1 by (intro distinct_replace) (auto simp: wf_devices_def)
    show "r_status q = ''REVOKED'' \<longrightarrow> perms_of (device_permissions db1) (r_uuid q) = {}"
      if "q \<in> set (trusted_devices db1)" for q
      using that new wf ps(3) by (auto simp: db1 perms_of_replace wf_devices_def)
    show "case x of (u, p) \<Rightarrow> permission_ok env p \<and> u \<in> r_uuid ` set (trusted_devices db1)"
      if "x \<in> set (device_permissions db1)" for x
      using that wf ps(2) unfolding db1 by (auto simp: wf_devices_def)
  qed (use wf ok new in \<open>auto simp: wf_devices_def db1\<close>)
  show ?view
    using new by (intro ext) (auto simp: trust_view_def db1 perms_of_replace find_snoc)
qed

lemma no_dangling_permissions:
  assumes "wf_devices env db" and "\<forall>q \<in> set (trusted_devices db). r_uuid q \<noteq> u"
  shows "filter (\<lambda>(v, p). v \<noteq> u) (device_permissions db) = device_permissions db"
  using assms by (intro filter_True) (auto simp: wf_devices_def)

lemma replace_attempt:
  assumes wf: "wf_attempts env db" and r: "r \<in> set (pairing_attempts db)" "P r"
    and P: "\<And>q. P q \<Longrightarrow> a_attempt_id q = a_attempt_id r"
    and f: "\<And>q. a_attempt_id (f q) = a_attempt_id q"
    and ok: "attempt_row_ok (f r)" "a_revision (f r) \<le> INT64_MAX"
    and ps: "distinct ps" "\<forall>p \<in> set ps. permission_ok env p"
    and db1: "pairing_attempts db1 = map (\<lambda>q. if P q then f q else q) (pairing_attempts db)"
      "pairing_attempt_permissions db1 =
         filter (\<lambda>(v, p). v \<noteq> a_attempt_id r) (pairing_attempt_permissions db) @ map (Pair (a_attempt_id r)) ps"
  shows "wf_attempts env db1" (is ?wf)
    and "pairing_view db1 = (pairing_view db)(a_attempt_id r \<mapsto>
      \<lparr>p_peer = a_peer_uuid (f r), p_key = a_peer_public_key (f r),
       p_confirmed = (a_status (f r) = ''CONFIRMED''), p_revision = a_revision (f r),
       p_expires = a_expires_at (f r), p_permissions = set ps\<rparr>)" (is "_ = ?view")
proof -
  have ids: "distinct (map a_attempt_id (pairing_attempts db))"
    using wf by (simp add: wf_attempts_def)
  have uniq: "q = r" if "q \<in> set (pairing_attempts db)" "P q" for q
    using ids r(1) that P [OF that(2)] by (auto simp: distinct_map inj_on_def)
  have keys: "map a_attempt_id (pairing_attempts db1) = map a_attempt_id (pairing_attempts db)"
    by (simp add: db1 f)
  have set_ids: "a_attempt_id ` set (pairing_attempts db1) = a_attempt_id ` set (pairing_attempts db)"
    using arg_cong [OF keys, of set] by simp
  have rows: "q = f r \<or> q \<in> set (pairing_attempts db)" if "q \<in> set (pairing_attempts db1)" for q
    using that uniq unfolding db1 by (auto split: if_splits)
  show ?wf
    unfolding wf_attempts_def keys set_ids
  proof (intro conjI ballI)
    show "distinct (pairing_attempt_permissions db1)"
      using wf ps(1) unfolding db1 by (intro distinct_replace) (auto simp: wf_attempts_def)
    show "case x of (u, p) \<Rightarrow> permission_ok env p \<and> u \<in> a_attempt_id ` set (pairing_attempts db)"
      if "x \<in> set (pairing_attempt_permissions db1)" for x
      using that wf ps(2) r(1) unfolding db1 by (auto simp: wf_attempts_def)
  qed (use wf ok rows in \<open>auto simp: wf_attempts_def\<close>)
  show "pairing_view db1 = ?view"
  proof
    fix i
    have "find (\<lambda>q. a_attempt_id q = i) (pairing_attempts db1) =
      (if i = a_attempt_id r then Some (f r) else find (\<lambda>q. a_attempt_id q = i) (pairing_attempts db))"
      unfolding db1 by (rule find_map_update [where P = P, OF ids r]) (simp_all add: P f)
    then show "pairing_view db1 i = ?view i"
      by (auto simp: pairing_view_def db1(2) perms_of_replace f)
  qed
qed

lemma add_attempt:
  assumes wf: "wf_attempts env db"
    and new: "\<forall>q \<in> set (pairing_attempts db). a_attempt_id q \<noteq> a_attempt_id r"
    and ok: "attempt_row_ok r" "a_revision r \<le> INT64_MAX"
    and ps: "distinct ps" "\<forall>p \<in> set ps. permission_ok env p"
    and db1: "pairing_attempts db1 = pairing_attempts db @ [r]"
      "pairing_attempt_permissions db1 = pairing_attempt_permissions db @ map (Pair (a_attempt_id r)) ps"
  shows "wf_attempts env db1" (is ?wf)
    and "pairing_view db1 = (pairing_view db)(a_attempt_id r \<mapsto>
      \<lparr>p_peer = a_peer_uuid r, p_key = a_peer_public_key r,
       p_confirmed = (a_status r = ''CONFIRMED''), p_revision = a_revision r,
       p_expires = a_expires_at r, p_permissions = set ps\<rparr>)" (is "_ = ?view")
proof -
  have none: "perms_of (pairing_attempt_permissions db) (a_attempt_id r) = {}"
    using wf new by (fastforce simp: wf_attempts_def perms_of_def)
  have app: "perms_of (pairing_attempt_permissions db1) i =
      (if i = a_attempt_id r then set ps else perms_of (pairing_attempt_permissions db) i)" for i
    using none by (auto simp: perms_of_def db1)
  show ?wf
    unfolding wf_attempts_def
  proof (intro conjI ballI)
    show "distinct (pairing_attempt_permissions db1)"
      using wf ps(1) none by (auto simp: wf_attempts_def db1 perms_of_def distinct_map inj_on_def)
    show "case x of (u, p) \<Rightarrow> permission_ok env p \<and> u \<in> a_attempt_id ` set (pairing_attempts db1)"
      if "x \<in> set (pairing_attempt_permissions db1)" for x
      using that wf ps(2) unfolding db1 by (auto simp: wf_attempts_def)
  qed (use wf ok new in \<open>auto simp: wf_attempts_def db1\<close>)
  show "pairing_view db1 = ?view"
    using new by (intro ext) (auto simp: pairing_view_def app db1(1) find_snoc)
qed

lemma find_filter_key:
  assumes "distinct (map key rows)" and "r \<in> set rows" and "P r" and "\<And>q. P q \<Longrightarrow> key q = key r"
  shows "find (\<lambda>q. key q = u) (filter (\<lambda>q. \<not> P q) rows) =
    (if u = key r then None else find (\<lambda>q. key q = u) rows)"
proof -
  have eq: "P q \<longleftrightarrow> key q = key r" if "q \<in> set rows" for q
    using assms that by (metis distinct_map inj_onD)
  then have "filter (\<lambda>q. \<not> P q) rows = filter (\<lambda>q. key q \<noteq> key r) rows"
    by (intro filter_cong) auto
  moreover have "find (\<lambda>q. key q = u) (filter (\<lambda>q. key q \<noteq> key r) rows) =
    (if u = key r then None else find (\<lambda>q. key q = u) rows)"
    by (induction rows) auto
  ultimately show ?thesis by simp
qed

lemma drop_attempt:
  assumes wf: "wf_attempts env db" and stmt: "sql_delete_attempts P db = Inr (n, db1)"
    and one: "n = 1" and P: "\<And>q. P q \<Longrightarrow> a_attempt_id q = i"
  shows "wf_attempts env db1" (is ?wf)
    and "pairing_view db1 = (pairing_view db)(i := None)" (is ?view)
    and "\<exists>r. find (\<lambda>q. a_attempt_id q = i) (pairing_attempts db) = Some r \<and> P r"
    and "trusted_devices db1 = trusted_devices db" and "device_permissions db1 = device_permissions db"
proof -
  have ids: "distinct (map a_attempt_id (pairing_attempts db))"
    using wf by (simp add: wf_attempts_def)
  from stmt one have "length (filter P (pairing_attempts db)) = 1"
    by (auto simp: sql_delete_attempts_def Let_def)
  then obtain r where r: "r \<in> set (pairing_attempts db)" "P r" by (rule filter_one)
  from P [OF r(2)] have i: "i = a_attempt_id r" by (rule sym)
  have gone: "a_attempt_id ` set (filter P (pairing_attempts db)) = {i}"
  proof
    show "a_attempt_id ` set (filter P (pairing_attempts db)) \<subseteq> {i}" using P by auto
    show "{i} \<subseteq> a_attempt_id ` set (filter P (pairing_attempts db))" using r i by auto
  qed
  have db1: "db1 = db\<lparr>pairing_attempts := filter (\<lambda>a. \<not> P a) (pairing_attempts db),
      pairing_attempt_permissions := filter (\<lambda>(v, p). v \<noteq> i) (pairing_attempt_permissions db)\<rparr>"
    using stmt gone by (auto simp: sql_delete_attempts_def Let_def)
  show "trusted_devices db1 = trusted_devices db" "device_permissions db1 = device_permissions db"
    by (simp_all add: db1)
  show "\<exists>r. find (\<lambda>q. a_attempt_id q = i) (pairing_attempts db) = Some r \<and> P r"
    using find_key [OF ids r(1)] r(2) i by auto
  have keep: "q \<in> set (filter (\<lambda>a. \<not> P a) (pairing_attempts db))"
    if "q \<in> set (pairing_attempts db)" "a_attempt_id q \<noteq> i" for q
    using that P by auto
  show ?wf
    unfolding wf_attempts_def
  proof (intro conjI ballI)
    show "case x of (u, p) \<Rightarrow> permission_ok env p \<and> u \<in> a_attempt_id ` set (pairing_attempts db1)"
      if x: "x \<in> set (pairing_attempt_permissions db1)" for x
    proof -
      from x obtain v p where vp: "x = (v, p)" "(v, p) \<in> set (pairing_attempt_permissions db)" "v \<noteq> i"
        by (auto simp: db1)
      with wf obtain q where "permission_ok env p" "q \<in> set (pairing_attempts db)" "v = a_attempt_id q"
        by (fastforce simp: wf_attempts_def)
      with vp keep [of q] show ?thesis by (auto simp: db1)
    qed
  qed (use wf in \<open>auto simp: wf_attempts_def db1 distinct_map_filter\<close>)
  have "find (\<lambda>q. a_attempt_id q = j) (pairing_attempts db1) =
      (if j = i then None else find (\<lambda>q. a_attempt_id q = j) (pairing_attempts db))" for j
  proof -
    have "a_attempt_id q = a_attempt_id r" if "P q" for q using P [OF that] i by simp
    then show ?thesis
      using find_filter_key [where P = P and u = j, OF ids r] by (simp add: db1 i)
  qed
  then show ?view
    by (intro ext) (auto simp: pairing_view_def db1 perms_of_def)
qed

section \<open>Every operation refines the specification\<close>

abbreviation views :: "database \<Rightarrow> (TrustUuid \<rightharpoonup> trust) \<times> (TrustUuid \<rightharpoonup> pairing)" where
  "views db \<equiv> (trust_view db, pairing_view db)"

lemma device_tables_frame [simp]:
  "wf_devices env (db\<lparr>pairing_attempts := as\<rparr>) = wf_devices env db"
  "wf_devices env (db\<lparr>pairing_attempt_permissions := ps\<rparr>) = wf_devices env db"
  "trust_view (db\<lparr>pairing_attempts := as\<rparr>) = trust_view db"
  "trust_view (db\<lparr>pairing_attempt_permissions := ps\<rparr>) = trust_view db"
  by (simp_all add: wf_devices_def trust_view_def fun_eq_iff)

lemma attempt_tables_frame [simp]:
  "wf_attempts env (db\<lparr>trusted_devices := ds\<rparr>) = wf_attempts env db"
  "wf_attempts env (db\<lparr>device_permissions := ps\<rparr>) = wf_attempts env db"
  "pairing_view (db\<lparr>trusted_devices := ds\<rparr>) = pairing_view db"
  "pairing_view (db\<lparr>device_permissions := ps\<rparr>) = pairing_view db"
  by (simp_all add: wf_attempts_def pairing_view_def fun_eq_iff)

lemma trust_view_row:
  assumes "wf_devices env db" and "r \<in> set (trusted_devices db)"
  shows "trust_view db (r_uuid r) =
    Some \<lparr>t_key = r_public_key r, t_active = (r_status r = ''ACTIVE''), t_revision = r_revision r,
          t_permissions = perms_of (device_permissions db) (r_uuid r)\<rparr>"
  using assms find_key [of r_uuid "trusted_devices db" r] by (simp add: trust_view_def wf_devices_def)

lemma trust_view_length: "wf_db env db \<Longrightarrow> trust_view db u = Some t \<Longrightarrow> length u = 16"
  by (auto simp: trust_view_def find_Some_iff wf_db_def wf_devices_def device_row_ok_def)

lemma trust_view_None:
  "trust_view db u = None \<longleftrightarrow> (\<forall>q \<in> set (trusted_devices db). r_uuid q \<noteq> u)"
  by (auto simp: trust_view_def find_None_iff)

lemma pairing_view_None:
  "pairing_view db i = None \<longleftrightarrow> (\<forall>q \<in> set (pairing_attempts db). a_attempt_id q \<noteq> i)"
  by (auto simp: pairing_view_def find_None_iff)

lemma trust_view_keys:
  "(\<forall>q \<in> set (trusted_devices db). r_public_key q \<noteq> k) \<Longrightarrow> t \<in> ran (trust_view db) \<Longrightarrow> t_key t \<noteq> k"
  by (auto simp: ran_def trust_view_def find_Some_iff)

lemma bind_device_Inr:
  "bind_device d = Inr row \<Longrightarrow>
     row = \<lparr>r_uuid = td_uuid d, r_public_key = td_public_key d, r_status = status_text (td_status d),
            r_revision = td_revision d, r_local_alias = td_local_alias d, r_peer_name = td_peer_name d,
            r_peer_platform = td_peer_platform d, r_pairing_method = td_pairing_method d,
            r_paired_at = td_paired_at d, r_revoked_at = td_revoked_at d,
            r_last_authenticated_at = td_last_authenticated_at d\<rparr> \<and>
     (td_status d = StatusRevoked \<longrightarrow> td_permissions d = [])"
  by (auto simp: bind_device_def bind_text_def require_def split: if_splits)

lemma status_text_eq [simp]:
  "status_text s = ''ACTIVE'' \<longleftrightarrow> s = StatusActive" "status_text s = ''REVOKED'' \<longleftrightarrow> s = StatusRevoked"
  by (simp_all add: status_text_def split: TrustStatus.split)

lemma bind_attempt_Inr:
  "bind_attempt a = Inr row \<Longrightarrow>
     row = \<lparr>a_attempt_id = pa_attempt_id a, a_peer_uuid = pa_peer_uuid a,
            a_peer_public_key = pa_peer_public_key a, a_status = attempt_status_text (pa_status a),
            a_revision = pa_revision a,
            a_local_confirmed = (if pa_local_confirmed a then 1 else 0),
            a_peer_confirmed = (if pa_peer_confirmed a then 1 else 0),
            a_created_at = pa_created_at a, a_updated_at = pa_updated_at a,
            a_expires_at = pa_expires_at a\<rparr>"
  by (auto simp: bind_attempt_def bind_text_def)

lemma attempt_status_text_eq [simp]:
  "attempt_status_text s = ''CONFIRMED'' \<longleftrightarrow> s = AttemptConfirmed"
  by (simp add: attempt_status_text_def split: PairingAttemptStatus.split)

lemma require_Inr [simp]: "require c m = Inr x \<longleftrightarrow> c"
  by (simp add: require_def)

lemma import_refines:
  assumes wf: "wf_db env (ts_db st)" and run: "import_device_for_admin env d st = (Inr x, st1)"
  shows "wf_db env (ts_db st1) \<and> trust_step (OpImport d) (views (ts_db st)) (views (ts_db st1))"
proof -
  let ?db = "ts_db st" and ?u = "td_uuid d" and ?db1 = "ts_db st1"
  from run obtain row db0 n n1 where rev: "td_revision d = 1" and b: "bind_device d = Inr row"
    and i: "sql_insert_device env row ?db = Inr ((), db0)"
    and w: "write_permissions env ?u (td_permissions d) False (n, db0) = Inr (x, n1, ?db1)"
    by (auto simp: import_device_for_admin_def write_op_Inr tx_simps split: if_splits)
  note row = bind_device_Inr [OF b] and w' = write_permissions_device [OF w]
  from i have ok: "device_row_ok env row" and db0: "db0 = ?db\<lparr>trusted_devices := trusted_devices ?db @ [row]\<rparr>"
    and new: "\<forall>q \<in> set (trusted_devices ?db). r_uuid q \<noteq> r_uuid row \<and> r_public_key q \<noteq> r_public_key row"
    by (auto simp: sql_insert_device_def list_all_iff split: if_splits)
  from wf have wfd: "wf_devices env ?db" by (simp add: wf_db_def)
  have uuid: "r_uuid row = ?u" using row by simp
  have perms: "device_permissions ?db1 =
      filter (\<lambda>(v, p). v \<noteq> r_uuid row) (device_permissions ?db) @ map (Pair (r_uuid row)) (td_permissions d)"
    using w' db0 no_dangling_permissions [OF wfd, of "r_uuid row"] new uuid by simp
  have "wf_devices env ?db1 \<and> trust_view ?db1 = (trust_view ?db)(r_uuid row \<mapsto>
      \<lparr>t_key = r_public_key row, t_active = (r_status row = ''ACTIVE''),
       t_revision = r_revision row, t_permissions = set (td_permissions d)\<rparr>)"
    using w' db0 row rev by (intro conjI add_device [OF wfd new ok _ _ _ _ _ perms]) (auto simp: INT64_MAX_def)
  moreover have "wf_attempts env ?db1" "pairing_view ?db1 = pairing_view ?db"
    using wf w' db0 by (simp_all add: wf_db_def)
  moreover have "trust_view ?db ?u = None" "\<forall>t \<in> ran (trust_view ?db). t_key t \<noteq> td_public_key d"
    using new row by (auto simp: trust_view_None dest!: trust_view_keys [rotated])
  ultimately show ?thesis
    using row rev step_import [of "trust_view ?db" d "pairing_view ?db"] by (simp add: wf_db_def)
qed

lemma sql_update_devices_one:
  assumes "sql_update_devices env P f db = Inr (1, db1)"
  obtains r where "r \<in> set (trusted_devices db)" "P r" "device_row_ok env (f r)"
    "db1 = db\<lparr>trusted_devices := map (\<lambda>r. if P r then f r else r) (trusted_devices db)\<rparr>"
proof -
  from assms have all: "\<forall>r \<in> set (trusted_devices db). P r \<longrightarrow> device_row_ok env (f r)"
    and one: "length (filter P (trusted_devices db)) = 1"
    and db1: "db1 = db\<lparr>trusted_devices := map (\<lambda>r. if P r then f r else r) (trusted_devices db)\<rparr>"
    by (auto simp: sql_update_devices_def list_all_iff split: if_splits)
  from one obtain r where "r \<in> set (trusted_devices db)" "P r" by (rule filter_one)
  with all db1 show ?thesis using that by blast
qed

lemma update_refines:
  assumes wf: "wf_db env (ts_db st)" and run: "update_device env d e st = (Inr x, st1)"
  shows "wf_db env (ts_db st1) \<and> trust_step (OpUpdate d e) (views (ts_db st)) (views (ts_db st1))"
proof -
  let ?db = "ts_db st" and ?u = "td_uuid d" and ?db1 = "ts_db st1"
  from run obtain row P f db0 db2 n n1 where rev: "next_revision (td_revision d) e = Inr ()"
    and b: "bind_device d = Inr row"
    and P: "P = (\<lambda>r. r_uuid r = r_uuid row \<and> r_public_key r = r_public_key row \<and>
                    r_status r = r_status row \<and> r_revision r = e)"
    and f: "f = (\<lambda>r. r\<lparr>r_status := r_status row, r_revision := r_revision row,
                      r_local_alias := r_local_alias row, r_peer_name := r_peer_name row,
                      r_peer_platform := r_peer_platform row,
                      r_pairing_method := r_pairing_method row, r_paired_at := r_paired_at row,
                      r_revoked_at := r_revoked_at row,
                      r_last_authenticated_at := r_last_authenticated_at row\<rparr>)"
    and s: "sql_update_devices env P f ?db = Inr (1, db0)"
    and c: "sql_clear_device_permissions ?u db0 = Inr ((), db2)"
    and w: "write_permissions env ?u (td_permissions d) False (n, db2) = Inr (x, n1, ?db1)"
    by (auto simp: update_device_def write_op_Inr tx_simps changed_one_def split: sum.splits)
  note row = bind_device_Inr [OF b] and w' = write_permissions_device [OF w]
  from s obtain r where r: "r \<in> set (trusted_devices ?db)" "P r" and ok: "device_row_ok env (f r)"
    and db0: "db0 = ?db\<lparr>trusted_devices := map (\<lambda>r. if P r then f r else r) (trusted_devices ?db)\<rparr>"
    by (rule sql_update_devices_one)
  from wf have wfd: "wf_devices env ?db" by (simp add: wf_db_def)
  have uuid: "r_uuid r = ?u" using r(2) row by (simp add: P)
  have perms: "device_permissions ?db1 =
      filter (\<lambda>(v, p). v \<noteq> r_uuid r) (device_permissions ?db) @ map (Pair (r_uuid r)) (td_permissions d)"
    using w' c db0 uuid by (auto simp: sql_clear_Inr)
  have devs: "trusted_devices ?db1 = map (\<lambda>r. if P r then f r else r) (trusted_devices ?db)"
    using w' c db0 by (auto simp: sql_clear_Inr)
  have bound: "td_revision d = e + 1" "e < INT64_MAX"
    using rev by (auto simp: next_revision_def)
  have "wf_devices env ?db1 \<and> trust_view ?db1 = (trust_view ?db)(r_uuid r \<mapsto>
      \<lparr>t_key = r_public_key r, t_active = (r_status (f r) = ''ACTIVE''),
       t_revision = r_revision (f r), t_permissions = set (td_permissions d)\<rparr>)"
    using w' row ok r bound
    by (intro conjI replace_device [where P = P and f = f, OF wfd r _ _ _ _ _ _ _ _ devs perms])
      (auto simp: P f)
  moreover have "wf_attempts env ?db1" "pairing_view ?db1 = pairing_view ?db"
    using wf w' c db0
    by (auto simp: wf_db_def sql_clear_Inr)
  moreover note trust_view_row [OF wfd r(1)]
  ultimately show ?thesis
    using row bound r(2) uuid step_update [of "trust_view ?db" d _ e "pairing_view ?db"]
    by (simp add: wf_db_def P f)
qed

lemma revoke_refines:
  assumes wf: "wf_db env (ts_db st)" and run: "revoke_device env u e w st = (Inr x, st1)"
  shows "wf_db env (ts_db st1) \<and> trust_step (OpRevoke u e w) (views (ts_db st)) (views (ts_db st1))"
proof -
  let ?db = "ts_db st" and ?db1 = "ts_db st1"
  define P where "P = (\<lambda>r :: device_row. r_uuid r = u \<and> r_revision r = e)"
  define f where "f = (\<lambda>r :: device_row. r\<lparr>r_status := ''REVOKED'', r_revision := r_revision r + 1, r_revoked_at := Some w\<rparr>)"
  from run obtain db0 where bound: "e < INT64_MAX"
    and s: "sql_update_devices env P f ?db = Inr (1, db0)"
    and c: "sql_clear_device_permissions u db0 = Inr (x, ?db1)"
    by (auto simp: revoke_device_def write_op_Inr tx_simps changed_one_def P_def f_def split: if_splits)
  from s obtain r where r: "r \<in> set (trusted_devices ?db)" "P r" and ok: "device_row_ok env (f r)"
    and db0: "db0 = ?db\<lparr>trusted_devices := map (\<lambda>r. if P r then f r else r) (trusted_devices ?db)\<rparr>"
    by (rule sql_update_devices_one)
  from wf have wfd: "wf_devices env ?db" by (simp add: wf_db_def)
  have perms: "device_permissions ?db1 =
      filter (\<lambda>(v, p). v \<noteq> r_uuid r) (device_permissions ?db) @ map (Pair (r_uuid r)) []"
    and devs: "trusted_devices ?db1 = map (\<lambda>r. if P r then f r else r) (trusted_devices ?db)"
    using c db0 r(2) by (auto simp: sql_clear_Inr P_def)
  have "wf_devices env ?db1 \<and> trust_view ?db1 = (trust_view ?db)(r_uuid r \<mapsto>
      \<lparr>t_key = r_public_key r, t_active = (r_status (f r) = ''ACTIVE''),
       t_revision = r_revision (f r), t_permissions = set []\<rparr>)"
    using ok r bound
    by (intro conjI replace_device [where P = P and f = f, OF wfd r _ _ _ _ _ _ _ _ devs perms])
      (auto simp: P_def f_def)
  moreover have "wf_attempts env ?db1" "pairing_view ?db1 = pairing_view ?db"
    using wf c db0 by (auto simp: wf_db_def sql_clear_Inr)
  moreover note trust_view_row [OF wfd r(1)]
  ultimately show ?thesis
    using bound r(2) step_revoke [of "trust_view ?db" u _ e w "pairing_view ?db"]
    by (simp add: wf_db_def P_def f_def)
qed

lemma create_attempt_refines:
  assumes wf: "wf_db env (ts_db st)" and run: "create_attempt env a st = (Inr x, st1)"
  shows "wf_db env (ts_db st1) \<and> trust_step (OpCreateAttempt a) (views (ts_db st)) (views (ts_db st1))"
proof -
  let ?db = "ts_db st" and ?i = "pa_attempt_id a" and ?db1 = "ts_db st1"
  from run obtain row db0 n n1 where rev: "pa_revision a = 1" and b: "bind_attempt a = Inr row"
    and i: "sql_insert_attempt row ?db = Inr ((), db0)"
    and w: "write_permissions env ?i (pa_proposed_permissions a) True (n, db0) = Inr (x, n1, ?db1)"
    by (auto simp: create_attempt_def write_op_Inr tx_simps split: if_splits)
  note row = bind_attempt_Inr [OF b] and w' = write_permissions_attempt [OF w]
  from i have ok: "attempt_row_ok row" and db0: "db0 = ?db\<lparr>pairing_attempts := pairing_attempts ?db @ [row]\<rparr>"
    and new: "\<forall>q \<in> set (pairing_attempts ?db). a_attempt_id q \<noteq> a_attempt_id row"
    by (auto simp: sql_insert_attempt_def list_all_iff split: if_splits)
  from wf have wfa: "wf_attempts env ?db" by (simp add: wf_db_def)
  have "wf_attempts env ?db1 \<and> pairing_view ?db1 = (pairing_view ?db)(a_attempt_id row \<mapsto>
      \<lparr>p_peer = a_peer_uuid row, p_key = a_peer_public_key row,
       p_confirmed = (a_status row = ''CONFIRMED''), p_revision = a_revision row,
       p_expires = a_expires_at row, p_permissions = set (pa_proposed_permissions a)\<rparr>)"
    using w' db0 row rev by (intro conjI add_attempt [OF wfa new ok]) (auto simp: INT64_MAX_def)
  moreover have "wf_devices env ?db1" "trust_view ?db1 = trust_view ?db"
    using wf w' db0 by (simp_all add: wf_db_def)
  moreover have "pairing_view ?db ?i = None" using new row by (auto simp: pairing_view_None)
  ultimately show ?thesis
    using row rev step_create [of "pairing_view ?db" a "trust_view ?db"] by (simp add: wf_db_def)
qed

lemma update_attempt_refines:
  assumes wf: "wf_db env (ts_db st)" and run: "update_attempt env a e st = (Inr x, st1)"
  shows "wf_db env (ts_db st1) \<and> trust_step (OpUpdateAttempt a e) (views (ts_db st)) (views (ts_db st1))"
proof -
  let ?db = "ts_db st" and ?i = "pa_attempt_id a" and ?db1 = "ts_db st1"
  from run obtain row P f db0 db2 n n1 where rev: "next_revision (pa_revision a) e = Inr ()"
    and b: "bind_attempt a = Inr row"
    and P: "P = (\<lambda>a. a_attempt_id a = a_attempt_id row \<and> a_peer_uuid a = a_peer_uuid row \<and>
                    a_peer_public_key a = a_peer_public_key row \<and>
                    a_created_at a = a_created_at row \<and> a_revision a = e)"
    and f: "f = (\<lambda>a. a\<lparr>a_status := a_status row, a_revision := a_revision row,
                      a_local_confirmed := a_local_confirmed row,
                      a_peer_confirmed := a_peer_confirmed row,
                      a_updated_at := a_updated_at row, a_expires_at := a_expires_at row\<rparr>)"
    and s: "sql_update_attempts P f ?db = Inr (1, db0)"
    and c: "sql_clear_attempt_permissions ?i db0 = Inr ((), db2)"
    and w: "write_permissions env ?i (pa_proposed_permissions a) True (n, db2) = Inr (x, n1, ?db1)"
    by (auto simp: update_attempt_def write_op_Inr tx_simps changed_one_def split: sum.splits)
  note row = bind_attempt_Inr [OF b] and w' = write_permissions_attempt [OF w]
  from s have all: "\<forall>r \<in> set (pairing_attempts ?db). P r \<longrightarrow> attempt_row_ok (f r)"
    and one: "length (filter P (pairing_attempts ?db)) = 1"
    and db0: "db0 = ?db\<lparr>pairing_attempts := map (\<lambda>r. if P r then f r else r) (pairing_attempts ?db)\<rparr>"
    by (auto simp: sql_update_attempts_def list_all_iff split: if_splits)
  from one obtain r where r: "r \<in> set (pairing_attempts ?db)" "P r" by (rule filter_one)
  from wf have wfa: "wf_attempts env ?db" by (simp add: wf_db_def)
  have id: "a_attempt_id r = ?i" using r(2) row by (simp add: P)
  have perms: "pairing_attempt_permissions ?db1 =
      filter (\<lambda>(v, p). v \<noteq> a_attempt_id r) (pairing_attempt_permissions ?db) @
      map (Pair (a_attempt_id r)) (pa_proposed_permissions a)"
    and rows: "pairing_attempts ?db1 = map (\<lambda>r. if P r then f r else r) (pairing_attempts ?db)"
    using w' c db0 id by (auto simp: sql_clear_Inr)
  have bound: "pa_revision a = e + 1" "e < INT64_MAX"
    using rev by (auto simp: next_revision_def)
  have "wf_attempts env ?db1 \<and> pairing_view ?db1 = (pairing_view ?db)(a_attempt_id r \<mapsto>
      \<lparr>p_peer = a_peer_uuid (f r), p_key = a_peer_public_key (f r),
       p_confirmed = (a_status (f r) = ''CONFIRMED''), p_revision = a_revision (f r),
       p_expires = a_expires_at (f r), p_permissions = set (pa_proposed_permissions a)\<rparr>)"
    using w' row all r bound
    by (intro conjI replace_attempt [where P = P and f = f, OF wfa r _ _ _ _ _ _ rows perms])
      (auto simp: P f)
  moreover have "wf_devices env ?db1" "trust_view ?db1 = trust_view ?db"
    using wf w' c db0 by (auto simp: wf_db_def sql_clear_Inr)
  moreover have "pairing_view ?db ?i = Some
      \<lparr>p_peer = a_peer_uuid r, p_key = a_peer_public_key r, p_confirmed = (a_status r = ''CONFIRMED''),
       p_revision = a_revision r, p_expires = a_expires_at r,
       p_permissions = perms_of (pairing_attempt_permissions ?db) ?i\<rparr>"
    using find_key [of a_attempt_id "pairing_attempts ?db" r] wfa r(1) id
    by (simp add: pairing_view_def wf_attempts_def)
  ultimately show ?thesis
    using row bound r(2) id step_amend [of "pairing_view ?db" a _ e "trust_view ?db"]
    by (simp add: wf_db_def P f)
qed

lemma delete_attempt_refines:
  assumes wf: "wf_db env (ts_db st)" and run: "delete_attempt env i e st = (Inr x, st1)"
  shows "wf_db env (ts_db st1) \<and> trust_step (OpDeleteAttempt i e) (views (ts_db st)) (views (ts_db st1))"
proof -
  let ?db = "ts_db st" and ?db1 = "ts_db st1"
  define P where "P = (\<lambda>a :: attempt_row. a_attempt_id a = i \<and> a_revision a = e)"
  from run have s: "sql_delete_attempts P ?db = Inr (1, ?db1)"
    by (auto simp: delete_attempt_def write_op_Inr tx_simps changed_one_def P_def)
  from wf have wfa: "wf_attempts env ?db" by (simp add: wf_db_def)
  have P: "a_attempt_id q = i" if "P q" for q using that by (simp add: P_def)
  note d = drop_attempt [OF wfa s refl P]
  have "wf_devices env ?db1" "trust_view ?db1 = trust_view ?db"
    using wf d(4,5) by (simp_all add: wf_db_def wf_devices_def trust_view_def fun_eq_iff)
  moreover obtain p where "pairing_view ?db i = Some p" "p_revision p = e"
    using d(3) by (auto simp: pairing_view_def P_def)
  ultimately show ?thesis
    using d step_delete [of "pairing_view ?db" i p e "trust_view ?db"] by (simp add: wf_db_def)
qed

lemma select_attempt_Inr:
  assumes "select_attempt env i e now fin (n, db) = Inr (x, s1)"
  shows "\<exists>n1. s1 = (n1, db)"
    and "\<exists>a \<in> set (pairing_attempts db). finalizable i e now a \<and>
           a_peer_uuid a = pf_peer_uuid fin \<and> a_peer_public_key a = pf_peer_public_key fin"
  using assms
  by (auto simp: select_attempt_def tx_simps read_blob_def find_Some_iff split: option.splits)

lemma select_existing_Inr:
  assumes "select_existing env fin (n, db) = Inr ((vr, re), s1)"
  shows "(\<exists>n1. s1 = (n1, db)) \<and>
    (case find (\<lambda>r. r_uuid r = pf_peer_uuid fin) (trusted_devices db) of
       None \<Rightarrow> vr = 1 \<and> \<not> re
     | Some r \<Rightarrow> re \<and> r_public_key r = pf_peer_public_key fin \<and> r_status r = ''REVOKED'' \<and>
         r_revision r < INT64_MAX \<and> vr = r_revision r + 1)"
  using assms by (auto simp: select_existing_def tx_simps read_blob_def split: option.splits)

lemma set_select_attempt_permissions:
  "set (select_permissions i True db) = perms_of (pairing_attempt_permissions db) i"
  by (auto simp: select_permissions_def perms_of_def)

lemma finalized_device_row:
  "bind_device (finalized_device fin vr now) = Inr row \<Longrightarrow>
   r_uuid row = pf_peer_uuid fin \<and> r_public_key row = pf_peer_public_key fin \<and>
   r_status row = ''ACTIVE'' \<and> r_revision row = vr"
  by (drule bind_device_Inr) (simp add: finalized_device_def)

lemma store_finalized_new:
  assumes wf: "wf_devices env db"
    and s: "store_finalized env (finalized_device fin 1 now) False (n, db) = Inr (x, n1, db0)"
    and db1: "trusted_devices db1 = trusted_devices db0"
      "device_permissions db1 = filter (\<lambda>(v, p). v \<noteq> pf_peer_uuid fin) (device_permissions db) @
         map (Pair (pf_peer_uuid fin)) ps"
    and ps: "distinct ps" "\<forall>p \<in> set ps. permission_ok env p"
  shows "wf_devices env db1"
    and "trust_view db1 = (trust_view db)(pf_peer_uuid fin \<mapsto>
      \<lparr>t_key = pf_peer_public_key fin, t_active = True, t_revision = 1, t_permissions = set ps\<rparr>)"
    and "\<forall>t \<in> ran (trust_view db). t_key t \<noteq> pf_peer_public_key fin"
    and "db0 = db\<lparr>trusted_devices := trusted_devices db0\<rparr>"
proof -
  from s obtain row where b: "bind_device (finalized_device fin 1 now) = Inr row"
    and ok: "device_row_ok env row" and db0: "db0 = db\<lparr>trusted_devices := trusted_devices db @ [row]\<rparr>"
    and new: "\<forall>q \<in> set (trusted_devices db). r_uuid q \<noteq> r_uuid row \<and> r_public_key q \<noteq> r_public_key row"
    by (auto simp: store_finalized_def tx_simps sql_insert_device_def list_all_iff split: if_splits)
  note row = finalized_device_row [OF b]
  have devs: "trusted_devices db1 = trusted_devices db @ [row]" using db1(1) db0 by simp
  note perms = db1(2) [folded row [THEN conjunct1]]
  show "wf_devices env db1"
    using row ps by (intro add_device(1) [OF wf new ok _ _ _ _ devs perms]) (auto simp: INT64_MAX_def)
  have "trust_view db1 = (trust_view db)(r_uuid row \<mapsto>
      \<lparr>t_key = r_public_key row, t_active = (r_status row = ''ACTIVE''),
       t_revision = r_revision row, t_permissions = set ps\<rparr>)"
    using row ps by (intro add_device(2) [OF wf new ok _ _ _ _ devs perms]) (auto simp: INT64_MAX_def)
  then show "trust_view db1 = (trust_view db)(pf_peer_uuid fin \<mapsto>
      \<lparr>t_key = pf_peer_public_key fin, t_active = True, t_revision = 1, t_permissions = set ps\<rparr>)"
    using row by simp
  show "\<forall>t \<in> ran (trust_view db). t_key t \<noteq> pf_peer_public_key fin"
    using new row by (auto dest!: trust_view_keys [rotated])
  show "db0 = db\<lparr>trusted_devices := trusted_devices db0\<rparr>" by (simp add: db0)
qed

lemma store_finalized_again:
  assumes wf: "wf_devices env db"
    and s: "store_finalized env (finalized_device fin vr now) True (n, db) = Inr (x, n1, db0)"
    and vr: "vr \<le> INT64_MAX"
    and db1: "trusted_devices db1 = trusted_devices db0"
      "device_permissions db1 = filter (\<lambda>(v, p). v \<noteq> pf_peer_uuid fin) (device_permissions db) @
         map (Pair (pf_peer_uuid fin)) ps"
    and ps: "distinct ps" "\<forall>p \<in> set ps. permission_ok env p"
  shows "wf_devices env db1"
    and "trust_view db1 = (trust_view db)(pf_peer_uuid fin \<mapsto>
      \<lparr>t_key = pf_peer_public_key fin, t_active = True, t_revision = vr, t_permissions = set ps\<rparr>)"
    and "db0 = db\<lparr>trusted_devices := trusted_devices db0\<rparr>"
proof -
  from s obtain row P f where b: "bind_device (finalized_device fin vr now) = Inr row"
    and P: "P = (\<lambda>r. r_uuid r = r_uuid row \<and> r_public_key r = r_public_key row \<and>
                  r_status r = ''REVOKED'' \<and> r_revision r = td_revision (finalized_device fin vr now) - 1)"
    and f: "f = (\<lambda>r. r\<lparr>r_status := r_status row, r_revision := r_revision row,
                    r_local_alias := r_local_alias row, r_peer_name := r_peer_name row,
                    r_peer_platform := r_peer_platform row,
                    r_pairing_method := r_pairing_method row, r_paired_at := r_paired_at row,
                    r_revoked_at := r_revoked_at row,
                    r_last_authenticated_at := r_last_authenticated_at row\<rparr>)"
    and u: "sql_update_devices env P f db = Inr (1, db0)"
    by (auto simp: store_finalized_def tx_simps changed_one_def)
  note row = finalized_device_row [OF b]
  from u obtain r where r: "r \<in> set (trusted_devices db)" "P r" and ok: "device_row_ok env (f r)"
    and db0: "db0 = db\<lparr>trusted_devices := map (\<lambda>r. if P r then f r else r) (trusted_devices db)\<rparr>"
    by (rule sql_update_devices_one)
  have uuid: "r_uuid r = pf_peer_uuid fin" using r(2) row by (simp add: P)
  have devs: "trusted_devices db1 = map (\<lambda>r. if P r then f r else r) (trusted_devices db)"
    using db1(1) db0 by simp
  note perms = db1(2) [folded uuid]
  have "wf_devices env db1 \<and> trust_view db1 = (trust_view db)(r_uuid r \<mapsto>
      \<lparr>t_key = r_public_key r, t_active = (r_status (f r) = ''ACTIVE''),
       t_revision = r_revision (f r), t_permissions = set ps\<rparr>)"
    using row ps ok r vr
    by (intro conjI replace_device [where P = P and f = f, OF wf r _ _ _ _ _ _ _ _ devs perms])
      (auto simp: P f)
  then show "wf_devices env db1"
    and "trust_view db1 = (trust_view db)(pf_peer_uuid fin \<mapsto>
      \<lparr>t_key = pf_peer_public_key fin, t_active = True, t_revision = vr, t_permissions = set ps\<rparr>)"
    using row r(2) by (simp_all add: P f)
  show "db0 = db\<lparr>trusted_devices := trusted_devices db0\<rparr>" by (simp add: db0)
qed

lemma finalize_refines:
  assumes wf: "wf_db env (ts_db st)" and run: "finalize_pairing env now fin_time i e fin st = (Inr x, st1)"
  shows "wf_db env (ts_db st1) \<and>
    trust_step (OpFinalize now fin_time i e fin) (views (ts_db st)) (views (ts_db st1))"
proof -
  let ?db = "ts_db st" and ?u = "pf_peer_uuid fin" and ?db1 = "ts_db st1"
  let ?ps = "select_permissions i True ?db"
  let ?P = "finalizable i e fin_time"
  from wf have wfd: "wf_devices env ?db" and wfa: "wf_attempts env ?db" by (simp_all add: wf_db_def)
  from run obtain k0 dbA k1 dbB vr re n3 db0 db2 n5 db3 where
    sel: "select_attempt env i e now fin (0, ?db) = Inr ((), k0, dbA)"
    and ex: "select_existing env fin (Suc k0, dbA) = Inr ((vr, re), k1, dbB)"
    and st: "store_finalized env (finalized_device fin vr now) re (k1, dbB) = Inr ((), n3, db0)"
    and c: "sql_clear_device_permissions ?u db0 = Inr ((), db2)"
    and w: "write_permissions env ?u (select_permissions i True dbA) False (Suc n3, db2) = Inr ((), n5, db3)"
    and d: "sql_delete_attempts ?P db3 = Inr (1, ?db1)"
    by (auto simp: finalize_pairing_def write_op_Inr tx_simps read_permissions_def changed_one_def
        split: if_splits)
  have [simp]: "dbA = ?db" using select_attempt_Inr(1) [OF sel] by simp
  have [simp]: "dbB = ?db" using select_existing_Inr [OF ex] by simp
  note w' = write_permissions_device [OF w] and ex' = select_existing_Inr [OF ex]
  have tables: "trusted_devices db3 = trusted_devices db0"
    "device_permissions db3 = filter (\<lambda>(v, p). v \<noteq> ?u) (device_permissions db0) @ map (Pair ?u) ?ps"
    using w' c by (auto simp: sql_clear_Inr)
  have case_facts: "wf_devices env db3 \<and> db0 = ?db\<lparr>trusted_devices := trusted_devices db0\<rparr> \<and>
    trust_view db3 = (trust_view ?db)(?u \<mapsto>
      \<lparr>t_key = pf_peer_public_key fin, t_active = True, t_revision = vr, t_permissions = set ?ps\<rparr>) \<and>
    (trust_view ?db ?u = None \<and> vr = 1 \<and> (\<forall>t \<in> ran (trust_view ?db). t_key t \<noteq> pf_peer_public_key fin) \<or>
     (\<exists>t. trust_view ?db ?u = Some t \<and> t_key t = pf_peer_public_key fin \<and> \<not> t_active t \<and>
        t_revision t < INT64_MAX \<and> vr = t_revision t + 1))"
  proof (cases "find (\<lambda>r. r_uuid r = ?u) (trusted_devices ?db)")
    case None
    with ex' st have s: "store_finalized env (finalized_device fin 1 now) False (k1, ?db) = Inr ((), n3, db0)"
      and "vr = 1" by auto
    have frame: "device_permissions db0 = device_permissions ?db"
      using s by (auto simp: store_finalized_def tx_simps sql_insert_device_def split: if_splits)
    show ?thesis
      using store_finalized_new [OF wfd s tables(1) tables(2) [unfolded frame]] w' None \<open>vr = 1\<close>
      by (simp add: trust_view_def)
  next
    case (Some r)
    with ex' st have s: "store_finalized env (finalized_device fin vr now) True (k1, ?db) = Inr ((), n3, db0)"
      and r: "r_public_key r = pf_peer_public_key fin" "r_status r = ''REVOKED''" "r_revision r < INT64_MAX"
        "vr = r_revision r + 1" by auto
    have frame: "device_permissions db0 = device_permissions ?db"
      using s by (auto simp: store_finalized_def tx_simps sql_update_devices_def split: if_splits)
    have "vr \<le> INT64_MAX" using r by simp
    then show ?thesis
      using store_finalized_again [OF wfd s _ tables(1) tables(2) [unfolded frame]] w' r Some
      by (simp add: trust_view_def)
  qed
  then obtain ds where "db0 = ?db\<lparr>trusted_devices := ds\<rparr>" by blast
  then obtain dp where db3: "db3 = ?db\<lparr>trusted_devices := ds, device_permissions := dp\<rparr>"
    using w' c by (auto simp: sql_clear_Inr)
  then have frame: "wf_attempts env db3" "pairing_view db3 = pairing_view ?db"
    "pairing_attempts db3 = pairing_attempts ?db"
    using wfa by simp_all
  have P: "a_attempt_id q = i" if "?P q" for q using that by (simp add: finalizable_def)
  note dr = drop_attempt [OF frame(1) d refl P]
  have views1: "wf_devices env ?db1 \<longleftrightarrow> wf_devices env db3" "trust_view ?db1 = trust_view db3"
    using dr(4,5) by (simp_all add: wf_devices_def trust_view_def fun_eq_iff)
  obtain a where a: "a \<in> set (pairing_attempts ?db)" "finalizable i e now a"
    "a_peer_uuid a = ?u" "a_peer_public_key a = pf_peer_public_key fin"
    using select_attempt_Inr(2) [OF sel] by auto
  from a wfa have "find (\<lambda>q. a_attempt_id q = i) (pairing_attempts ?db) = Some a"
    using find_key [of a_attempt_id "pairing_attempts ?db" a] by (auto simp: wf_attempts_def finalizable_def)
  with a dr(3) frame(3) have pv: "pairing_view ?db i = Some
      \<lparr>p_peer = ?u, p_key = pf_peer_public_key fin, p_confirmed = True, p_revision = e,
       p_expires = a_expires_at a, p_permissions = set ?ps\<rparr>"
    and exp: "now \<le> a_expires_at a" "fin_time \<le> a_expires_at a"
    by (auto simp: pairing_view_def finalizable_def set_select_attempt_permissions)
  have "trust_step (OpFinalize now fin_time i e fin) (views ?db)
      ((trust_view ?db)(?u \<mapsto> \<lparr>t_key = pf_peer_public_key fin, t_active = True, t_revision = vr,
         t_permissions = set ?ps\<rparr>), (pairing_view ?db)(i := None))"
    using case_facts step_pair [of "pairing_view ?db" i _ e now fin_time fin "trust_view ?db", OF pv]
      step_repair [of "pairing_view ?db" i _ e now fin_time fin "trust_view ?db", OF pv] exp
    by auto
  with case_facts views1 dr(1,2) frame(2) show ?thesis by (simp add: wf_db_def)
qed

lemmas refinements = import_refines update_refines revoke_refines create_attempt_refines
  update_attempt_refines delete_attempt_refines finalize_refines

lemma run_op_Inl: "run_op env opn st = (Inl err, st1) \<Longrightarrow> st1 = st"
  by (cases opn)
    (auto simp: import_device_for_admin_def update_device_def revoke_device_def create_attempt_def
       update_attempt_def delete_attempt_def finalize_pairing_def dest!: write_op_Inl
       split: if_splits sum.splits)

lemma run_op_Inr:
  assumes "wf_db env (ts_db st)" and "run_op env opn st = (Inr x, st1)"
  shows "wf_db env (ts_db st1)" and "trust_step opn (views (ts_db st)) (views (ts_db st1))"
proof -
  have "wf_db env (ts_db st1) \<and> trust_step opn (views (ts_db st)) (views (ts_db st1))"
    using assms(2)
    by (cases opn; simp only: run_op.simps)
      (erule refinements [OF assms(1)])+
  then show "wf_db env (ts_db st1)" and "trust_step opn (views (ts_db st)) (views (ts_db st1))"
    by simp_all
qed

section \<open>Runs of operations\<close>

text \<open>A run: each operation with the faults its environment injects, successful or not.\<close>

fun run_ops :: "(sql_env \<times> store_op) list \<Rightarrow> TrustStore \<Rightarrow> TrustStore" where
  "run_ops [] st = st"
| "run_ops ((env, opn) # ops) st = run_ops ops (snd (run_op env opn st))"

definition empty_db :: database where
  "empty_db = \<lparr>trusted_devices = [], device_permissions = [], pairing_attempts = [],
               pairing_attempt_permissions = []\<rparr>"

lemma wf_db_env: "text_length env1 = text_length env \<Longrightarrow> wf_db env1 db = wf_db env db"
  by (simp add: wf_db_def wf_devices_def wf_attempts_def device_row_ok_def permission_ok_def)

lemma wf_empty_db: "wf_db env empty_db"
  by (simp add: wf_db_def wf_devices_def wf_attempts_def empty_db_def)

lemma run_op_wf:
  assumes "wf_db env (ts_db st)" shows "wf_db env (ts_db (snd (run_op env opn st)))"
proof (cases "run_op env opn st")
  case (Pair r st1)
  then show ?thesis
    using assms run_op_Inl [of env opn st] run_op_Inr(1) [of env st opn] by (cases r) auto
qed

lemma run_ops_wf:
  assumes "\<forall>(env1, opn) \<in> set ops. text_length env1 = text_length env" and "wf_db env (ts_db st)"
  shows "wf_db env (ts_db (run_ops ops st))"
  using assms
proof (induction ops arbitrary: st)
  case (Cons eo ops)
  obtain env1 opn where eo: "eo = (env1, opn)" by (cases eo)
  with Cons.prems have "wf_db env (ts_db (snd (run_op env1 opn st)))"
    using run_op_wf [of env1 st opn] wf_db_env [of env1 env] by auto
  with Cons eo show ?case by simp
qed simp

text \<open>The order in which one peer's record evolves: same key, and a strictly larger revision
  whenever anything about it changed.\<close>

definition trust_le :: "trust \<Rightarrow> trust \<Rightarrow> bool" where
  "trust_le t t1 \<longleftrightarrow> t = t1 \<or> t_key t1 = t_key t \<and> t_revision t < t_revision t1"

lemma trust_le_trans: "trust_le t t1 \<Longrightarrow> trust_le t1 t2 \<Longrightarrow> trust_le t t2"
  by (auto simp: trust_le_def)

lemma trust_step_le:
  "trust_step opn (T, A) (T1, A1) \<Longrightarrow> T u = Some t \<Longrightarrow> \<exists>t1. T1 u = Some t1 \<and> trust_le t t1"
  by (erule trust_stepE) (auto simp: trust_le_def)

lemma run_op_le:
  assumes "wf_db env (ts_db st)" and "trust_view (ts_db st) u = Some t"
  shows "\<exists>t1. trust_view (ts_db (snd (run_op env opn st))) u = Some t1 \<and> trust_le t t1"
proof (cases "run_op env opn st")
  case (Pair r st1)
  show ?thesis
  proof (cases r)
    case (Inl err)
    with Pair assms(2) run_op_Inl [of env opn st err st1] show ?thesis by (auto simp: trust_le_def)
  next
    case (Inr x)
    with Pair assms(1) have "trust_step opn (views (ts_db st)) (views (ts_db st1))"
      by (intro run_op_Inr(2)) auto
    from trust_step_le [OF this assms(2)] Pair show ?thesis by simp
  qed
qed

section \<open>Properties\<close>

text \<open>C1. Refinement of the trust store.  On a well-formed database every public operation, under
  every injected fault, keeps the database well formed; when it throws, the store is exactly as
  before (the transaction rolled back and the generation did not move); when it returns, its
  effect is one step of the abstract transition system of trust decisions.\<close>

theorem store_refines:
  assumes "wf_db env (ts_db st)" and "run_op env opn st = (r, st1)"
  shows "wf_db env (ts_db st1) \<and>
    (case r of Inl err \<Rightarrow> st1 = st
     | Inr _ \<Rightarrow> trust_step opn (views (ts_db st)) (views (ts_db st1)))"
  using assms run_op_Inl [of env opn st] run_op_Inr [of env st opn] by (cases r) auto

text \<open>C9. A revision number identifies a trust record: along any run of operations (with any
  faults) from a well-formed store, a peer's record never disappears, its key never changes, and
  if its revision is unchanged at the end then so are its status and permissions.\<close>

theorem revision_identifies_record:
  assumes "\<forall>(env1, opn) \<in> set ops. text_length env1 = text_length env" and "wf_db env (ts_db st)"
    and "trust_view (ts_db st) u = Some t"
  shows "\<exists>t1. trust_view (ts_db (run_ops ops st)) u = Some t1 \<and> t_key t1 = t_key t \<and>
    t_revision t \<le> t_revision t1 \<and> (t_revision t1 = t_revision t \<longrightarrow> t1 = t)"
proof -
  have "\<exists>t1. trust_view (ts_db (run_ops ops st)) u = Some t1 \<and> trust_le t t1"
    using assms
  proof (induction ops arbitrary: st t)
    case (Cons eo ops)
    obtain env1 opn where eo: "eo = (env1, opn)" by (cases eo)
    let ?st1 = "snd (run_op env1 opn st)"
    have wf1: "wf_db env1 (ts_db st)" and env1: "text_length env1 = text_length env"
      using Cons.prems wf_db_env [of env1 env] eo by auto
    obtain t1 where t1: "trust_view (ts_db ?st1) u = Some t1" "trust_le t t1"
      using run_op_le [OF wf1 Cons.prems(3)] by blast
    have "wf_db env (ts_db ?st1)" using run_op_wf [OF wf1] wf_db_env [OF env1] by auto
    with Cons.IH [OF _ _ t1(1)] Cons.prems(1) eo t1(2) show ?case by (auto intro: trust_le_trans)
  qed (simp add: trust_le_def)
  then show ?thesis by (auto simp: trust_le_def)
qed

text \<open>C2. No trust without confirmation: if an operation makes a peer active that was not active
  before, it is an administrator's import of an active record for it, or the finalization of a
  stored attempt for exactly that peer and key which is confirmed, carries the expected revision
  and has not expired at either clock reading; the new record has the attempt's permissions and
  the attempt is consumed.\<close>

theorem trust_only_by_confirmed_pairing:
  assumes "wf_db env (ts_db st)" and "run_op env opn st = (r, st1)"
    and "trust_view (ts_db st1) u = Some t1" and "t_active t1"
    and "\<forall>t. trust_view (ts_db st) u = Some t \<longrightarrow> \<not> t_active t"
  shows "(\<exists>d. opn = OpImport d \<and> td_uuid d = u \<and> td_public_key d = t_key t1 \<and> td_status d = StatusActive) \<or>
    (\<exists>now fin_time i e fin p. opn = OpFinalize now fin_time i e fin \<and>
       pairing_view (ts_db st) i = Some p \<and> p_confirmed p \<and> p_revision p = e \<and>
       p_peer p = u \<and> p_key p = t_key t1 \<and> p_permissions p = t_permissions t1 \<and>
       now \<le> p_expires p \<and> fin_time \<le> p_expires p \<and> pairing_view (ts_db st1) i = None)"
proof -
  have "trust_step opn (views (ts_db st)) (views (ts_db st1))"
  proof (cases r)
    case (Inl err)
    with assms run_op_Inl [of env opn st err st1] show ?thesis by auto
  qed (use assms run_op_Inr(2) in auto)
  then show ?thesis
    by (rule trust_stepE) (use assms(3-5) in \<open>auto split: if_splits\<close>)
qed

section \<open>Queries\<close>

definition faultless :: "sql_env \<Rightarrow> bool" where
  "faultless env \<longleftrightarrow> files_error env = None \<and> begin_error env = None \<and> commit_error env = None \<and>
     (\<forall>n. step_error env n = None)"

lemma read_op_Inr:
  "read_op env body st = Inr x \<longleftrightarrow>
     files_error env = None \<and> begin_error env = None \<and> commit_error env = None \<and>
     (\<exists>s1. body (0, ts_db st) = Inr (x, s1))"
  by (auto simp: read_op_def transaction_def split: option.splits sum.splits prod.splits)

lemma plain_query_Inr:
  "plain_query env q st = Inr x \<longleftrightarrow> files_error env = None \<and> step_error env 0 = None \<and> x = q (ts_db st)"
  by (auto simp: plain_query_def tx_simps split: option.splits)

lemma filter_key_one:
  assumes "distinct (map key rows)" and "r \<in> set rows"
  shows "filter (\<lambda>q. key q = key r) rows = [r]"
  using assms
proof (induction rows)
  case (Cons q rows)
  show ?case
  proof (cases "q = r")
    case True
    with distinct_key_Cons [OF Cons.prems(1)] have "\<forall>p \<in> set rows. key p \<noteq> key r" by simp
    with True show ?thesis by simp
  qed (use Cons in auto)
qed simp

lemma active_permissions:
  assumes "wf_devices env db"
  shows "select_permissions u False db =
    (case trust_view db u of Some t \<Rightarrow> if t_active t then sorted_list_of_set (t_permissions t) else []
     | None \<Rightarrow> [])"
proof (cases "find (\<lambda>r. r_uuid r = u) (trusted_devices db)")
  case None
  then have "\<forall>r \<in> set (trusted_devices db). r_uuid r \<noteq> u" by (simp add: find_None_iff)
  then have "set (select_permissions u False db) = {}" by (auto simp: select_permissions_def)
  with None show ?thesis by (simp add: trust_view_def)
next
  case (Some r)
  then have r: "r \<in> set (trusted_devices db)" "r_uuid r = u" by (auto simp: find_Some_iff)
  have rows: "filter (\<lambda>q. r_uuid q = u) (trusted_devices db) = [r]"
    using filter_key_one [of r_uuid _ r] r assms by (auto simp: wf_devices_def)
  have inner: "[p. d \<leftarrow> trusted_devices db, r_uuid d = v \<and> r_uuid d = u \<and> r_status d = ''ACTIVE''] =
      (if v = u \<and> r_status r = ''ACTIVE'' then [p] else [])" for v and p :: string
  proof -
    have "concat (map (\<lambda>d. if r_uuid d = v \<and> r_uuid d = u \<and> r_status d = ''ACTIVE'' then [p] else []) ds) =
      concat (map (\<lambda>d. if r_uuid d = v \<and> r_status d = ''ACTIVE'' then [p] else [])
        (filter (\<lambda>q. r_uuid q = u) ds))" for ds :: "device_row list"
      by (induction ds) auto
    with rows r(2) show ?thesis by auto
  qed
  have outer: "[p. (v, p) \<leftarrow> dp, v = u] = map snd (filter (\<lambda>(v, p). v = u) dp)"
    for dp :: "(TrustUuid \<times> string) list"
    by (induction dp) auto
  have dist: "distinct (map snd (filter (\<lambda>(v, p). v = u) (device_permissions db)))"
    using assms by (auto simp: wf_devices_def distinct_map inj_on_def)
  have "set (map snd (filter (\<lambda>(v, p). v = u) (device_permissions db))) = perms_of (device_permissions db) u"
    by (force simp: perms_of_def)
  with dist have srt: "sort (map snd (filter (\<lambda>(v, p). v = u) (device_permissions db))) =
      sorted_list_of_set (perms_of (device_permissions db) u)"
    by (metis sorted_list_of_set_sort_remdups distinct_remdups_id)
  show ?thesis
  proof (cases "r_status r = ''ACTIVE''")
    case True
    with Some show ?thesis
      by (simp add: select_permissions_def inner trust_view_def outer [symmetric] srt [symmetric])
  next
    case False
    then have "set (select_permissions u False db) = {}" by (auto simp: select_permissions_def inner)
    with False Some show ?thesis by (simp add: trust_view_def)
  qed
qed

lemma find_conj_key:
  assumes "distinct (map key rows)"
  shows "find (\<lambda>q. key q = u \<and> Q q) rows =
    (case find (\<lambda>q. key q = u) rows of Some r \<Rightarrow> if Q r then Some r else None | None \<Rightarrow> None)"
  using assms
proof (induction rows)
  case (Cons q rows)
  show ?case
  proof (cases "key q = u")
    case True
    with distinct_key_Cons [OF Cons.prems(1)] have "\<forall>p \<in> set rows. key p \<noteq> u" by simp
    then have "find (\<lambda>q. key q = u \<and> Q q) rows = None" by (auto simp: find_None_iff)
    with True show ?thesis by simp
  qed (use Cons in simp)
qed simp

text \<open>What an authorization query should answer, in terms of the abstract view.\<close>

definition authorization_spec :: "(TrustUuid \<rightharpoonup> trust) \<Rightarrow> TrustUuid \<Rightarrow> TrustPublicKey \<Rightarrow> ActivePeerAuthorization option" where
  "authorization_spec T u k =
     (case T u of
        Some t \<Rightarrow> if t_active t \<and> t_key t = k
                  then Some \<lparr>apa_revision = t_revision t, apa_permissions = sorted_list_of_set (t_permissions t)\<rparr>
                  else None
      | None \<Rightarrow> None)"

lemma authorization_Inr:
  assumes wf: "wf_db env (ts_db st)"
  shows "find_active_authorization env1 u k st = Inr a \<longleftrightarrow>
     files_error env1 = None \<and> begin_error env1 = None \<and> commit_error env1 = None \<and>
     step_error env1 0 = None \<and> (a \<noteq> None \<longrightarrow> step_error env1 1 = None) \<and>
     a = authorization_spec (trust_view (ts_db st)) u k"
proof -
  have "distinct (map r_uuid (trusted_devices (ts_db st)))" and wfd: "wf_devices env (ts_db st)"
    using wf by (auto simp: wf_db_def wf_devices_def)
  note key = find_conj_key [OF this(1), where u = u and Q = "\<lambda>r. r_public_key r = k \<and> r_status r = ''ACTIVE''"]
  show ?thesis
  proof (cases "find (\<lambda>r. r_uuid r = u) (trusted_devices (ts_db st))")
    case None
    then show ?thesis
      using key by (auto simp: find_active_authorization_def read_op_Inr tx_simps authorization_spec_def trust_view_def)
  next
    case (Some r)
    show ?thesis
    proof (cases "r_public_key r = k \<and> r_status r = ''ACTIVE''")
      case True
      with Some show ?thesis
        using key by (auto simp: find_active_authorization_def read_op_Inr tx_simps read_permissions_def
            authorization_spec_def trust_view_def active_permissions [OF wfd])
    next
      case False
      then show ?thesis
        using key Some by (auto simp: find_active_authorization_def read_op_Inr tx_simps
            authorization_spec_def trust_view_def)
    qed
  qed
qed

lemma state_Inr:
  assumes wf: "wf_db env (ts_db st)" and "trust_view (ts_db st) u = Some t" and "state env1 u st = Inr s"
  shows "s = (if t_active t then StateActive else StateRevoked)"
proof -
  from assms(2) obtain r where r: "find (\<lambda>r. r_uuid r = u) (trusted_devices (ts_db st)) = Some r"
    "t_active t = (r_status r = ''ACTIVE'')" by (auto simp: trust_view_def)
  then have "r \<in> set (trusted_devices (ts_db st))" by (auto simp: find_Some_iff)
  with wf have "r_status r = ''ACTIVE'' \<or> r_status r = ''REVOKED''"
    by (auto simp: wf_db_def wf_devices_def device_row_ok_def)
  with assms(3) r show ?thesis
    by (auto simp: state_def plain_query_Inr state_text_def split: if_splits)
qed

text \<open>An authorization query answers exactly what the abstract trust relation says: the
  revision and sorted permissions of the peer's record if it is active and carries the presented
  key, and nothing otherwise; a query that meets no fault does answer.\<close>

theorem authorization_exact:
  assumes "wf_db env (ts_db st)"
  shows "(\<forall>a. find_active_authorization env1 u k st = Inr a \<longrightarrow>
            a = authorization_spec (trust_view (ts_db st)) u k) \<and>
    (faultless env1 \<longrightarrow>
       find_active_authorization env1 u k st = Inr (authorization_spec (trust_view (ts_db st)) u k))"
  using authorization_Inr [OF assms] by (simp add: faultless_def)

text \<open>C27. Revocation takes effect at once: after a successful revocation the local generation has
  advanced, no key authorizes the peer, its permissions are empty and its state is revoked; a
  query on it can only give those answers or fail.\<close>

theorem revoke_takes_effect:
  assumes "wf_db env (ts_db st)" and "revoke_device env u e w st = (Inr x, st1)"
  shows "ts_local_generation st1 = ts_local_generation st + 1 \<and>
    (\<forall>env1 k a. find_active_authorization env1 u k st1 = Inr a \<longrightarrow> a = None) \<and>
    (\<forall>env1 ps. permissions env1 u st1 = Inr ps \<longrightarrow> ps = []) \<and>
    (\<forall>env1 s. state env1 u st1 = Inr s \<longrightarrow> s = StateRevoked)"
proof -
  have wf1: "wf_db env (ts_db st1)"
    and "trust_step (OpRevoke u e w) (views (ts_db st)) (views (ts_db st1))"
    using revoke_refines [OF assms] by simp_all
  then obtain t where t: "trust_view (ts_db st1) u = Some t" "\<not> t_active t"
    by (auto elim: trust_stepE)
  have "ts_local_generation st1 = ts_local_generation st + 1"
    using assms(2) by (auto simp: revoke_device_def write_op_Inr split: if_splits)
  moreover have "select_permissions u False (ts_db st1) = []"
    using active_permissions [of env "ts_db st1" u] wf1 t by (simp add: wf_db_def)
  ultimately show ?thesis
    using authorization_Inr [OF wf1] t state_Inr [OF wf1 t(1)]
    by (auto simp: authorization_spec_def permissions_def plain_query_Inr)
qed

lemma finalize_absent:
  assumes "pairing_view (ts_db st) i = None"
  shows "\<exists>err. finalize_pairing env now fin_time i e fin st = (Inl err, st)"
proof (cases "finalize_pairing env now fin_time i e fin st")
  case (Pair r st1)
  have "r \<noteq> Inr x" for x
  proof
    assume r: "r = Inr x"
    from Pair r obtain s1 where "select_attempt env i e now fin (0, ts_db st) = Inr ((), s1)"
      by (auto simp: finalize_pairing_def write_op_Inr tx_simps split: if_splits)
    from select_attempt_Inr(2) [OF this] assms show False
      by (auto simp: pairing_view_None finalizable_def)
  qed
  then obtain err where "r = Inl err" by (cases r) auto
  with Pair run_op_Inl [of env "OpFinalize now fin_time i e fin" st err st1] show ?thesis by simp
qed

text \<open>A pairing attempt is single use: once it has been finalized, every later finalization
  with its identifier throws and leaves the store unchanged.\<close>

theorem finalize_single_use:
  assumes "wf_db env (ts_db st)" and "finalize_pairing env now fin_time i e fin st = (Inr x, st1)"
  shows "\<exists>err. finalize_pairing env1 now1 fin_time1 i e1 fin1 st1 = (Inl err, st1)"
proof -
  have "trust_step (OpFinalize now fin_time i e fin) (views (ts_db st)) (views (ts_db st1))"
    using finalize_refines [OF assms] by simp
  then have "pairing_view (ts_db st1) i = None" by (auto elim: trust_stepE)
  then show ?thesis by (rule finalize_absent)
qed

lemma import_row:
  assumes "import_device_for_admin env d st = (Inr x, st1)"
  shows "\<exists>row. bind_device d = Inr row \<and> device_row_ok env row \<and>
    trusted_devices (ts_db st1) = trusted_devices (ts_db st) @ [row] \<and>
    (\<forall>q \<in> set (trusted_devices (ts_db st)). r_uuid q \<noteq> r_uuid row \<and> r_public_key q \<noteq> r_public_key row)"
  using assms
  by (auto simp: import_device_for_admin_def write_op_Inr tx_simps sql_insert_device_def list_all_iff
      dest!: write_permissions_device split: if_splits)

lemma read_imported:
  assumes b: "bind_device d = Inr row" and ok: "device_row_ok env row" and env1: "faultless env1"
    and wf: "wf_devices env db" and view: "trust_view db (td_uuid d) = Some t"
      "t_active t = (td_status d = StatusActive)" "t_permissions t = set (td_permissions d)"
  shows "\<exists>s1. read_device env1 (Some row) (n, db) =
    Inr (Some (d\<lparr>td_permissions := sorted_list_of_set (set (td_permissions d))\<rparr>), s1)"
proof -
  note row = bind_device_Inr [OF b]
  have "select_permissions (td_uuid d) False db = sorted_list_of_set (set (td_permissions d))"
    using active_permissions [OF wf] view row by (cases "td_status d") auto
  with row ok env1 show ?thesis
    by (cases "td_status d")
      (auto simp: read_device_def tx_simps read_blob_def read_permissions_def faultless_def
        device_row_ok_def status_text_def)
qed

text \<open>Import and lookup round trip: a device that was imported is found again under its UUID
  and under its public key with every field as given, its permissions as a sorted list without
  repetition.\<close>

theorem import_find_roundtrip:
  assumes wf: "wf_db env (ts_db st)" and run: "import_device_for_admin env d st = (Inr x, st1)"
    and env1: "faultless env1"
  shows "find_device env1 (td_uuid d) st1 =
      Inr (Some (d\<lparr>td_permissions := sorted_list_of_set (set (td_permissions d))\<rparr>)) \<and>
    find_by_public_key env1 (td_public_key d) st1 =
      Inr (Some (d\<lparr>td_permissions := sorted_list_of_set (set (td_permissions d))\<rparr>))"
proof -
  obtain row where b: "bind_device d = Inr row" and ok: "device_row_ok env row"
    and devs: "trusted_devices (ts_db st1) = trusted_devices (ts_db st) @ [row]"
    and new: "\<forall>q \<in> set (trusted_devices (ts_db st)). r_uuid q \<noteq> r_uuid row \<and> r_public_key q \<noteq> r_public_key row"
    using import_row [OF run] by blast
  note row = bind_device_Inr [OF b]
  have wf1: "wf_devices env (ts_db st1)"
    and "trust_step (OpImport d) (views (ts_db st)) (views (ts_db st1))"
    using import_refines [OF wf run] by (simp_all add: wf_db_def)
  then obtain t where t: "trust_view (ts_db st1) (td_uuid d) = Some t"
      "t_active t = (td_status d = StatusActive)" "t_permissions t = set (td_permissions d)"
    by (auto elim: trust_stepE)
  note rd = read_imported [OF b ok env1 wf1 t, of "Suc 0"]
  have "find (\<lambda>q. r_uuid q = td_uuid d) (trusted_devices (ts_db st1)) = Some row"
    "find (\<lambda>q. r_public_key q = td_public_key d) (trusted_devices (ts_db st1)) = Some row"
    using find_snoc [of _ r_uuid row] find_snoc [of _ r_public_key row] new row by (simp_all add: devs)
  with rd env1 show ?thesis
    by (simp_all add: find_device_def find_by_public_key_def read_op_Inr tx_simps faultless_def)
qed

section \<open>Witnesses\<close>

definition sample_env :: sql_env where
  "sample_env =
     \<lparr>text_length = length, db_filename = ''trust.sqlite3'',
      fstatat = (\<lambda>f. if f = ''trust.sqlite3''
                      then StatInfo \<lparr>st_regular = True, st_uid = 1000, st_nlink = 1, st_mode = 33152\<rparr>
                      else StatAbsent),
      geteuid = 1000, begin_error = None, step_error = (\<lambda>_. None), commit_error = None\<rparr>"

definition sample_uuid :: TrustUuid where "sample_uuid = replicate 16 7"

definition sample_key :: TrustPublicKey where "sample_key = replicate 32 9"

definition sample_device :: TrustedDevice where
  "sample_device =
     \<lparr>td_uuid = sample_uuid, td_public_key = sample_key, td_status = StatusActive, td_revision = 1,
      td_local_alias = ''desk'', td_peer_name = ''peer'', td_peer_platform = ''linux'',
      td_pairing_method = ''admin'', td_paired_at = 100, td_revoked_at = None,
      td_last_authenticated_at = None, td_permissions = [''ping'', ''message'']\<rparr>"

definition sample_attempt :: PairingAttempt where
  "sample_attempt =
     \<lparr>pa_attempt_id = replicate 16 3, pa_peer_uuid = sample_uuid, pa_peer_public_key = sample_key,
      pa_status = AttemptConfirmed, pa_revision = 1, pa_local_confirmed = True,
      pa_peer_confirmed = True, pa_created_at = 10, pa_updated_at = 20, pa_expires_at = 90,
      pa_proposed_permissions = [''message'']\<rparr>"

definition sample_fin :: PairingFinalization where
  "sample_fin = \<lparr>pf_peer_uuid = sample_uuid, pf_peer_public_key = sample_key, pf_local_alias = ''desk'',
                 pf_peer_name = ''peer'', pf_peer_platform = ''linux'', pf_pairing_method = ''code''\<rparr>"

definition sample_store :: TrustStore where
  "sample_store = \<lparr>ts_db = empty_db, ts_local_generation = 0, ts_data_version = 1\<rparr>"

definition sample_imported :: TrustStore where
  "sample_imported = snd (run_op sample_env (OpImport sample_device) sample_store)"

definition sample_attempted :: TrustStore where
  "sample_attempted = snd (run_op sample_env (OpCreateAttempt sample_attempt) sample_store)"

abbreviation sample_finalize :: store_op where
  "sample_finalize \<equiv> OpFinalize 50 60 (replicate 16 3) 1 sample_fin"

definition sample_finalized :: TrustStore where
  "sample_finalized = snd (run_op sample_env sample_finalize sample_attempted)"

definition sample_revoked :: TrustStore where
  "sample_revoked = snd (run_op sample_env (OpRevoke sample_uuid 1 200) sample_imported)"

lemma sample_faultless: "faultless sample_env"
  by (simp add: faultless_def sample_env_def files_error_def check_files_def inspect_file_def require_def)

lemma sample_wf_store: "wf_db sample_env (ts_db sample_store)"
  by (simp add: sample_store_def wf_empty_db)

lemma sample_runs:
  "run_op sample_env (OpImport sample_device) sample_store = (Inr (), sample_imported)"
  "run_op sample_env (OpCreateAttempt sample_attempt) sample_store = (Inr (), sample_attempted)"
  "run_op sample_env sample_finalize sample_attempted = (Inr (), sample_finalized)"
  "run_op sample_env (OpRevoke sample_uuid 1 200) sample_imported = (Inr (), sample_revoked)"
proof -
  have fst_ok: "fst p = Inr () \<Longrightarrow> p = (Inr (), snd p)" for p :: "(TrustStoreError + unit) \<times> TrustStore"
    by (cases p) simp
  show "run_op sample_env (OpImport sample_device) sample_store = (Inr (), sample_imported)"
    unfolding sample_imported_def by (rule fst_ok) code_simp
  show "run_op sample_env (OpCreateAttempt sample_attempt) sample_store = (Inr (), sample_attempted)"
    unfolding sample_attempted_def by (rule fst_ok) code_simp
  show "run_op sample_env sample_finalize sample_attempted = (Inr (), sample_finalized)"
    unfolding sample_finalized_def by (rule fst_ok) code_simp
  show "run_op sample_env (OpRevoke sample_uuid 1 200) sample_imported = (Inr (), sample_revoked)"
    unfolding sample_revoked_def by (rule fst_ok) code_simp
qed

lemma sample_wf: "wf_db sample_env (ts_db sample_imported)" "wf_db sample_env (ts_db sample_attempted)"
  using sample_runs sample_wf_store by (blast intro: run_op_Inr(1))+

theorem store_refines_witness:
  "trust_step sample_finalize (views (ts_db sample_attempted)) (views (ts_db sample_finalized))"
  using store_refines [OF sample_wf(2) sample_runs(3)] by simp

theorem revision_identifies_record_witness:
  "\<exists>t1. trust_view (ts_db (run_ops [(sample_env, OpRevoke sample_uuid 1 200)] sample_imported)) sample_uuid =
     Some t1 \<and> t_key t1 = sample_key \<and> 1 \<le> t_revision t1"
proof -
  have v: "trust_view (ts_db sample_imported) sample_uuid =
      Some \<lparr>t_key = sample_key, t_active = True, t_revision = 1, t_permissions = {''ping'', ''message''}\<rparr>"
    using import_refines [OF sample_wf_store, of sample_device "()" sample_imported] sample_runs(1)
    by (auto simp: sample_device_def elim!: trust_stepE)
  show ?thesis
    using revision_identifies_record [OF _ sample_wf(1) v, of "[(sample_env, OpRevoke sample_uuid 1 200)]"]
    by auto
qed

theorem authorization_exact_witness:
  "find_active_authorization sample_env sample_uuid sample_key sample_imported =
     Inr (authorization_spec (trust_view (ts_db sample_imported)) sample_uuid sample_key)"
  using authorization_exact [OF sample_wf(1), of sample_env sample_uuid sample_key] sample_faultless by blast

theorem revoke_takes_effect_witness:
  "find_active_authorization sample_env sample_uuid sample_key sample_imported =
     Inr (Some \<lparr>apa_revision = 1, apa_permissions = [''message'', ''ping'']\<rparr>) \<and>
   find_active_authorization sample_env sample_uuid sample_key sample_revoked = Inr None"
proof -
  have "find_active_authorization sample_env sample_uuid sample_key sample_imported =
     Inr (Some \<lparr>apa_revision = 1, apa_permissions = [''message'', ''ping'']\<rparr>)" by code_simp
  moreover have "is_ok (find_active_authorization sample_env sample_uuid sample_key sample_revoked)" by code_simp
  ultimately show ?thesis
    using revoke_takes_effect [OF sample_wf(1) sample_runs(4) [simplified]] by (auto simp: is_ok_iff)
qed

theorem finalize_single_use_witness:
  "\<exists>err. finalize_pairing sample_env 50 60 (replicate 16 3) 1 sample_fin sample_finalized =
     (Inl err, sample_finalized)"
  using finalize_single_use [OF sample_wf(2)] sample_runs(3) by simp

theorem import_find_roundtrip_witness:
  "find_device sample_env sample_uuid sample_imported =
     Inr (Some (sample_device\<lparr>td_permissions := [''message'', ''ping'']\<rparr>))"
proof -
  have "sorted_list_of_set (set (td_permissions sample_device)) = [''message'', ''ping'']" by code_simp
  then show ?thesis
    using import_find_roundtrip [OF sample_wf_store, of sample_device "()" sample_imported sample_env]
      sample_runs(1) sample_faultless by (simp add: sample_device_def)
qed

theorem trust_only_by_confirmed_pairing_witness:
  "\<exists>p. pairing_view (ts_db sample_attempted) (replicate 16 3) = Some p \<and> p_confirmed p \<and> p_peer p = sample_uuid"
proof -
  have none: "trust_view (ts_db sample_attempted) sample_uuid = None" by code_simp
  have some: "map_option t_active (trust_view (ts_db sample_finalized) sample_uuid) = Some True" by code_simp
  then obtain t1 where "trust_view (ts_db sample_finalized) sample_uuid = Some t1" "t_active t1" by auto
  from trust_only_by_confirmed_pairing [OF sample_wf(2) sample_runs(3) this] none show ?thesis by auto
qed

end
