(* ===== verification/Session_Auth.thy ===== *)
theory Session_Auth
  imports Trust_Refinement
begin

text \<open>
  Session authorization: \<open>src/core/auth/session_authentication.{hpp,cpp}\<close>.  The live sessions
  are an association list in key order (a \<open>std::map\<close>).  The callback of a live session captures a
  weak pointer to its connection and asks it to disconnect, so it is modelled by that
  connection's session id (\<open>None\<close> is an empty \<open>std::function\<close>).  The monitor thread is a state
  machine with one step per atomic section of its loop, so that it interleaves with store
  writes, registrations and removals; \<open>None\<close> as a step is waiting on the condition variable.
  The trust store is passed to every operation.  Thread creation and joining, and the length of
  the 100 ms wait, are not modelled: a timed wait may end at any moment.
\<close>

section \<open>Identities and snapshots\<close>

record VerifiedPeerIdentity =
  vpi_uuid :: TrustUuid
  vpi_public_key :: TrustPublicKey

record AuthorizedPeer =
  ap_uuid :: TrustUuid
  ap_public_key :: TrustPublicKey
  ap_device_id :: string
  ap_revision :: int
  ap_permissions :: "string list"

record LiveAuthorization =
  la_uuid :: TrustUuid
  la_public_key :: TrustPublicKey
  la_revision :: int
  la_permissions :: "string list"
  la_invalidate :: "session_id option"

record SessionAuthentication =
  sa_live :: "(session_id \<times> LiveAuthorization) list"
  sa_stopping :: bool
  sa_force_scan :: bool

section \<open>Authorization\<close>

definition authorize_verified_peer ::
  "sql_env \<Rightarrow> TrustStore \<Rightarrow> VerifiedPeerIdentity \<Rightarrow> TrustStoreError + AuthorizedPeer option" where
  "authorize_verified_peer env st identity =
     rbind (find_active_authorization env (vpi_uuid identity) (vpi_public_key identity) st) (\<lambda>authorization.
       case authorization of
         None \<Rightarrow> Inr None
       | Some a \<Rightarrow> Inr (Some
           \<lparr>ap_uuid = vpi_uuid identity, ap_public_key = vpi_public_key identity,
            ap_device_id = trust_uuid_to_string (vpi_uuid identity),
            ap_revision = apa_revision a, ap_permissions = apa_permissions a\<rparr>))"

text \<open>The comparison that both the gate and the monitor make; an exception counts as stale.\<close>

definition stored_matches ::
  "TrustStoreError + ActivePeerAuthorization option \<Rightarrow> int \<Rightarrow> string list \<Rightarrow> bool" where
  "stored_matches stored revision perms =
     (case stored of
        Inl _ \<Rightarrow> False
      | Inr None \<Rightarrow> False
      | Inr (Some current) \<Rightarrow> apa_revision current = revision \<and> apa_permissions current = perms)"

definition authorization_is_current :: "sql_env \<Rightarrow> TrustStore \<Rightarrow> AuthorizedPeer \<Rightarrow> bool" where
  "authorization_is_current env st authorization =
     stored_matches
       (find_active_authorization env (ap_uuid authorization) (ap_public_key authorization) st)
       (ap_revision authorization) (ap_permissions authorization)"

section \<open>Live sessions\<close>

text \<open>The part of the registration under \<open>live_mutex_\<close>.\<close>

definition publish_live_session ::
  "session_id \<Rightarrow> AuthorizedPeer \<Rightarrow> session_id option \<Rightarrow> SessionAuthentication \<Rightarrow>
   bool \<times> SessionAuthentication" where
  "publish_live_session sid authorization invalidate sa =
     (if sa_stopping sa \<or> map_of (sa_live sa) sid \<noteq> None then (False, sa)
      else (True, sa\<lparr>sa_live := insort_key fst
                       (sid, \<lparr>la_uuid = ap_uuid authorization, la_public_key = ap_public_key authorization,
                              la_revision = ap_revision authorization,
                              la_permissions = ap_permissions authorization,
                              la_invalidate = invalidate\<rparr>) (sa_live sa),
                     sa_force_scan := True\<rparr>))"

definition register_live_session ::
  "sql_env \<Rightarrow> TrustStore \<Rightarrow> session_id \<Rightarrow> AuthorizedPeer \<Rightarrow> session_id option \<Rightarrow>
   SessionAuthentication \<Rightarrow> bool \<times> SessionAuthentication" where
  "register_live_session env st sid authorization invalidate sa =
     (if invalidate = None \<or> \<not> authorization_is_current env st authorization then (False, sa)
      else publish_live_session sid authorization invalidate sa)"

definition unregister_live_session :: "session_id \<Rightarrow> SessionAuthentication \<Rightarrow> SessionAuthentication" where
  "unregister_live_session sid sa = sa\<lparr>sa_live := filter (\<lambda>(k, v). k \<noteq> sid) (sa_live sa)\<rparr>"

definition stop_authentication :: "SessionAuthentication \<Rightarrow> SessionAuthentication" where
  "stop_authentication sa = sa\<lparr>sa_stopping := True\<rparr>"

section \<open>The monitor thread\<close>

datatype monitor_pc =
    MonWait
  | MonToken bool
  | MonSnapshot
  | MonScan "(session_id \<times> LiveAuthorization) list"
  | MonDrop "session_id \<times> LiveAuthorization" "(session_id \<times> LiveAuthorization) list"
  | MonInvalidate "session_id option" "(session_id \<times> LiveAuthorization) list"
  | MonExit

record monitor =
  mon_pc :: monitor_pc
  mon_last_token :: "ChangeToken option"

definition new_monitor :: monitor where
  "new_monitor = \<lparr>mon_pc = MonWait, mon_last_token = None\<rparr>"

text \<open>Whether the live entry is still the one that was found stale.\<close>

definition same_authorization :: "LiveAuthorization \<Rightarrow> LiveAuthorization \<Rightarrow> bool" where
  "same_authorization live authorization \<longleftrightarrow>
     la_revision live = la_revision authorization \<and> la_uuid live = la_uuid authorization \<and>
     la_public_key live = la_public_key authorization"

fun monitor_step ::
  "sql_env \<Rightarrow> TrustStore \<Rightarrow> SessionAuthentication \<Rightarrow> monitor \<Rightarrow>
   (SessionAuthentication \<times> monitor \<times> session_id list) option" where
  "monitor_step env st sa m =
     (case mon_pc m of
        MonWait \<Rightarrow>
          if sa_stopping sa then Some (sa, m\<lparr>mon_pc := MonExit\<rparr>, [])
          else if sa_force_scan sa \<or> sa_live sa \<noteq> []
          then Some (sa\<lparr>sa_force_scan := False\<rparr>, m\<lparr>mon_pc := MonToken (sa_force_scan sa)\<rparr>, [])
          else None
      | MonToken force_scan \<Rightarrow>
          (case change_token env st of
             Inr token \<Rightarrow>
               Some (sa, \<lparr>mon_pc = (if force_scan \<or> mon_last_token m \<noteq> Some token then MonSnapshot else MonWait),
                          mon_last_token = Some token\<rparr>, [])
           | Inl _ \<Rightarrow> Some (sa, \<lparr>mon_pc = MonSnapshot, mon_last_token = None\<rparr>, []))
      | MonSnapshot \<Rightarrow> Some (sa, m\<lparr>mon_pc := MonScan (sa_live sa)\<rparr>, [])
      | MonScan [] \<Rightarrow> Some (sa, m\<lparr>mon_pc := MonWait\<rparr>, [])
      | MonScan ((sid, authorization) # entries) \<Rightarrow>
          if stored_matches
               (find_active_authorization env (la_uuid authorization) (la_public_key authorization) st)
               (la_revision authorization) (la_permissions authorization)
          then Some (sa, m\<lparr>mon_pc := MonScan entries\<rparr>, [])
          else Some (sa, m\<lparr>mon_pc := MonDrop (sid, authorization) entries\<rparr>, [])
      | MonDrop (sid, authorization) entries \<Rightarrow>
          (case map_of (sa_live sa) sid of
             None \<Rightarrow> Some (sa, m\<lparr>mon_pc := MonScan entries\<rparr>, [])
           | Some live \<Rightarrow>
               if same_authorization live authorization
               then Some (unregister_live_session sid sa,
                          m\<lparr>mon_pc := MonInvalidate (la_invalidate live) entries\<rparr>, [])
               else Some (sa, m\<lparr>mon_pc := MonScan entries\<rparr>, []))
      | MonInvalidate invalidate entries \<Rightarrow>
          Some (sa, m\<lparr>mon_pc := MonScan entries\<rparr>,
                (case invalidate of None \<Rightarrow> [] | Some c \<Rightarrow> [c]))
      | MonExit \<Rightarrow> None)"

declare monitor_step.simps [simp del]

text \<open>Successive steps of the monitor with no other thread in between; it stays where it blocks.\<close>

fun monitor_steps ::
  "sql_env list \<Rightarrow> TrustStore \<Rightarrow> SessionAuthentication \<Rightarrow> monitor \<Rightarrow>
   SessionAuthentication \<times> monitor \<times> session_id list" where
  "monitor_steps [] st sa m = (sa, m, [])"
| "monitor_steps (env # envs) st sa m =
     (case monitor_step env st sa m of
        None \<Rightarrow> (sa, m, [])
      | Some (sa1, m1, out) \<Rightarrow>
          (case monitor_steps envs st sa1 m1 of (sa2, m2, out2) \<Rightarrow> (sa2, m2, out @ out2)))"

section \<open>Change notification\<close>

text \<open>
  What the monitor relies on: a store whose answers can only change when its generation
  advances.  Within fewer than \<open>2 ^ 64\<close> writes an unchanged generation then means unchanged
  answers.
\<close>

locale change_notifier =
  fixes inv :: "'s \<Rightarrow> bool" and allowed :: "'o \<Rightarrow> bool" and wr :: "'o \<Rightarrow> 's \<Rightarrow> 's"
    and generation :: "'s \<Rightarrow> 64 word" and answer :: "'s \<Rightarrow> 'a"
  assumes inv_write: "inv s \<Longrightarrow> allowed w \<Longrightarrow> inv (wr w s)"
    and visible: "inv s \<Longrightarrow> allowed w \<Longrightarrow>
      generation (wr w s) = generation s \<and> answer (wr w s) = answer s \<or>
      generation (wr w s) = generation s + 1"
begin

lemma inv_writes: "inv s \<Longrightarrow> list_all allowed ws \<Longrightarrow> inv (fold wr ws s)"
  by (induction ws arbitrary: s) (auto simp: inv_write)

lemma generation_counts:
  assumes "inv s" and "list_all allowed ws"
  shows "\<exists>k \<le> length ws. generation (fold wr ws s) = generation s + of_nat k \<and>
    (k = 0 \<longrightarrow> answer (fold wr ws s) = answer s)"
  using assms
proof (induction ws arbitrary: s)
  case (Cons w ws)
  then have "inv (wr w s)" "list_all allowed ws" by (auto simp: inv_write)
  from Cons.IH [OF this] obtain k where k: "k \<le> length ws"
    "generation (fold wr ws (wr w s)) = generation (wr w s) + of_nat k"
    "k = 0 \<longrightarrow> answer (fold wr ws (wr w s)) = answer (wr w s)"
    by blast
  from Cons.prems have "inv s" "allowed w" by auto
  from visible [OF this] show ?case
  proof (elim disjE)
    assume "generation (wr w s) = generation s \<and> answer (wr w s) = answer s"
    with k show ?thesis by (intro exI [of _ k]) auto
  next
    assume "generation (wr w s) = generation s + 1"
    with k show ?thesis by (intro exI [of _ "Suc k"]) auto
  qed
qed simp

lemma unchanged_generation:
  assumes "inv s" and "list_all allowed ws" and "length ws < 2 ^ 64"
    and "generation (fold wr ws s) = generation s"
  shows "answer (fold wr ws s) = answer s"
proof -
  obtain k where k: "k \<le> length ws" "generation (fold wr ws s) = generation s + of_nat k"
    "k = 0 \<longrightarrow> answer (fold wr ws s) = answer s"
    using generation_counts [OF assms(1,2)] by blast
  with assms(4) have "(of_nat k :: 64 word) = 0" by simp
  then have "unat (of_nat k :: 64 word) = 0" by simp
  then have "k mod 2 ^ 64 = 0" by (simp only: unat_of_nat) simp
  moreover have "k < 2 ^ 64" using k(1) assms(3) by (rule le_less_trans)
  ultimately have "k = 0" by simp
  with k(3) show ?thesis by simp
qed

end

definition store_write :: "sql_env \<times> store_op \<Rightarrow> TrustStore \<Rightarrow> TrustStore" where
  "store_write w st = snd (run_op (fst w) (snd w) st)"

lemma run_op_generation:
  assumes wf: "wf_db env (ts_db st)"
  shows "ts_local_generation (snd (run_op env opn st)) = ts_local_generation st \<and>
      trust_view (ts_db (snd (run_op env opn st))) = trust_view (ts_db st) \<or>
    ts_local_generation (snd (run_op env opn st)) = ts_local_generation st + 1"
proof (cases "run_op env opn st")
  case (Pair r st1)
  show ?thesis
  proof (cases r)
    case (Inl err)
    with Pair run_op_Inl [of env opn st err st1] show ?thesis by simp
  next
    case (Inr x)
    with Pair have run: "run_op env opn st = (Inr x, st1)" by simp
    note step = run_op_Inr(2) [OF wf run]
    show ?thesis
    proof (cases opn)
      case (OpCreateAttempt a)
      with step run Pair show ?thesis
        by (auto simp: create_attempt_def write_op_Inr elim!: trust_stepE split: if_splits)
    next
      case (OpUpdateAttempt a e)
      with step run Pair show ?thesis
        by (auto simp: update_attempt_def write_op_Inr elim!: trust_stepE split: sum.splits)
    next
      case (OpDeleteAttempt i e)
      with step run Pair show ?thesis
        by (auto simp: delete_attempt_def write_op_Inr elim!: trust_stepE)
    qed (use run Pair in \<open>auto simp: import_device_for_admin_def update_device_def revoke_device_def
          finalize_pairing_def write_op_Inr split: if_splits sum.splits\<close>)
  qed
qed

interpretation trust_writes: change_notifier
  "\<lambda>st. wf_db env0 (ts_db st)" "\<lambda>w. text_length (fst w) = text_length env0" store_write
  ts_local_generation "\<lambda>st. trust_view (ts_db st)" for env0
proof unfold_locales
  fix st :: TrustStore and w :: "sql_env \<times> store_op"
  assume wf: "wf_db env0 (ts_db st)" and env: "text_length (fst w) = text_length env0"
  then have "wf_db (fst w) (ts_db st)" by (simp add: wf_db_env [OF env])
  then show "wf_db env0 (ts_db (store_write w st))"
    and "ts_local_generation (store_write w st) = ts_local_generation st \<and>
        trust_view (ts_db (store_write w st)) = trust_view (ts_db st) \<or>
      ts_local_generation (store_write w st) = ts_local_generation st + 1"
    using run_op_wf [of "fst w" st "snd w"] run_op_generation [of "fst w" st "snd w"]
    by (simp_all add: store_write_def wf_db_env [OF env])
qed

section \<open>The monitor among other threads\<close>

record auth_system =
  as_store :: TrustStore
  as_auth :: SessionAuthentication
  as_monitor :: monitor
  as_disconnects :: "session_id list"

definition new_auth :: SessionAuthentication where
  "new_auth = \<lparr>sa_live = [], sa_stopping = False, sa_force_scan = False\<rparr>"

text \<open>
  Runs of the authentication service from a fresh store instance, with the number of store
  writes so far.  A session is published at any moment after its authorization was found
  current, so \<open>run_publish\<close> does not ask that it still is.
\<close>

inductive auth_run :: "sql_env \<Rightarrow> nat \<Rightarrow> auth_system \<Rightarrow> bool" for env0 where
  run_start:
  "\<lbrakk>wf_db env0 (ts_db st); ts_local_generation st = 0\<rbrakk> \<Longrightarrow>
   auth_run env0 0 \<lparr>as_store = st, as_auth = new_auth, as_monitor = new_monitor, as_disconnects = []\<rparr>"
| run_write:
  "\<lbrakk>auth_run env0 n s; text_length env = text_length env0\<rbrakk> \<Longrightarrow>
   auth_run env0 (Suc n) (s\<lparr>as_store := store_write (env, opn) (as_store s)\<rparr>)"
| run_publish:
  "auth_run env0 n s \<Longrightarrow>
   auth_run env0 n (s\<lparr>as_auth := snd (publish_live_session sid authorization invalidate (as_auth s))\<rparr>)"
| run_unregister:
  "auth_run env0 n s \<Longrightarrow> auth_run env0 n (s\<lparr>as_auth := unregister_live_session sid (as_auth s)\<rparr>)"
| run_stop:
  "auth_run env0 n s \<Longrightarrow> auth_run env0 n (s\<lparr>as_auth := stop_authentication (as_auth s)\<rparr>)"
| run_monitor:
  "\<lbrakk>auth_run env0 n s; monitor_step env (as_store s) (as_auth s) (as_monitor s) = Some (sa, m, out)\<rbrakk> \<Longrightarrow>
   auth_run env0 n (s\<lparr>as_auth := sa, as_monitor := m, as_disconnects := as_disconnects s @ out\<rparr>)"

definition stale :: "TrustStore \<Rightarrow> LiveAuthorization \<Rightarrow> bool" where
  "stale st la \<longleftrightarrow>
     \<not> stored_matches (Inr (authorization_spec (trust_view (ts_db st)) (la_uuid la) (la_public_key la)))
         (la_revision la) (la_permissions la)"

text \<open>The entries that the current cycle of the monitor is still going to look at.\<close>

definition pending :: "monitor_pc \<Rightarrow> session_id \<times> LiveAuthorization \<Rightarrow> bool" where
  "pending pc e \<longleftrightarrow>
     (case pc of MonToken force \<Rightarrow> force | MonSnapshot \<Rightarrow> True | MonScan es \<Rightarrow> e \<in> set es
      | MonDrop d es \<Rightarrow> e \<in> insert d (set es) | MonInvalidate c es \<Rightarrow> e \<in> set es | _ \<Rightarrow> False)"

definition token_at :: "TrustStore \<Rightarrow> nat \<Rightarrow> ChangeToken" where
  "token_at st j = \<lparr>ct_local_generation = of_nat j, ct_external_generation = ts_data_version st\<rparr>"

definition noticed :: "nat \<Rightarrow> TrustStore \<Rightarrow> SessionAuthentication \<Rightarrow> monitor \<Rightarrow> bool" where
  "noticed k st sa m \<longleftrightarrow> sa_force_scan sa \<or> mon_last_token m = None \<or>
     (\<exists>j < k. mon_last_token m = Some (token_at st j))"

definition watch_store :: "sql_env \<Rightarrow> nat \<Rightarrow> TrustStore \<Rightarrow> SessionAuthentication \<Rightarrow> monitor \<Rightarrow> bool" where
  "watch_store env0 k st sa m \<longleftrightarrow>
     wf_db env0 (ts_db st) \<and> ts_local_generation st = of_nat k \<and> distinct (map fst (sa_live sa)) \<and>
     (\<forall>t. mon_last_token m = Some t \<longrightarrow> (\<exists>j \<le> k. t = token_at st j))"

definition watch_live :: "nat \<Rightarrow> TrustStore \<Rightarrow> SessionAuthentication \<Rightarrow> monitor \<Rightarrow> bool" where
  "watch_live k st sa m \<longleftrightarrow>
     (\<forall>e \<in> set (sa_live sa). stale st (snd e) \<longrightarrow> pending (mon_pc m) e \<or> noticed k st sa m)"

definition watch_inv :: "sql_env \<Rightarrow> nat \<Rightarrow> TrustStore \<Rightarrow> SessionAuthentication \<Rightarrow> monitor \<Rightarrow> bool" where
  "watch_inv env0 k st sa m \<longleftrightarrow> watch_store env0 k st sa m \<and> watch_live k st sa m"

lemma token_at_eq:
  assumes "i < 2 ^ 64" and "j < 2 ^ 64" and "token_at st i = token_at st j" shows "i = j"
proof -
  from assms(3) have "unat (of_nat i :: 64 word) = unat (of_nat j :: 64 word)" by (simp add: token_at_def)
  with assms(1,2) show ?thesis by (simp add: unat_of_nat)
qed

lemma token_not_seen:
  assumes "k < 2 ^ 64" and "noticed k st sa m"
  shows "sa_force_scan sa \<or> mon_last_token m \<noteq> Some (token_at st k)"
proof -
  have "token_at st j \<noteq> token_at st k" if "j < k" for j
    using token_at_eq [of j k st] that assms(1) by (auto dest: less_trans)
  with assms(2) show ?thesis by (auto simp: noticed_def)
qed

lemma noticed_Suc: "watch_store env0 k st sa m \<Longrightarrow> noticed (Suc k) st sa m"
  by (cases "mon_last_token m") (auto simp: watch_store_def noticed_def less_Suc_eq_le)

lemma stored_matches_stale:
  assumes "wf_db env0 (ts_db st)"
    and "stored_matches (find_active_authorization env (la_uuid la) (la_public_key la) st)
      (la_revision la) (la_permissions la)"
  shows "\<not> stale st la"
proof -
  from assms(2) obtain a where a: "find_active_authorization env (la_uuid la) (la_public_key la) st = Inr a"
    by (auto simp: stored_matches_def split: sum.splits)
  with authorization_Inr [OF assms(1)] have
    "a = authorization_spec (trust_view (ts_db st)) (la_uuid la) (la_public_key la)" by blast
  with a assms(2) show ?thesis by (simp add: stale_def)
qed

lemma write_op_version: "ts_data_version (snd (write_op env b body st)) = ts_data_version st"
  by (auto simp: write_op_def split: option.split sum.split prod.split)

lemma run_op_version: "ts_data_version (snd (run_op env opn st)) = ts_data_version st"
  by (cases opn)
    (auto simp: import_device_for_admin_def update_device_def revoke_device_def create_attempt_def
      update_attempt_def delete_attempt_def finalize_pairing_def write_op_version split: sum.split)

lemma watch_write:
  assumes inv: "watch_inv env0 k st sa m" and "text_length env = text_length env0"
  shows "\<exists>k1 \<in> {k, Suc k}. watch_inv env0 k1 (store_write (env, opn) st) sa m"
proof -
  let ?st = "store_write (env, opn) st"
  have wf: "wf_db env0 (ts_db st)" using inv by (simp add: watch_inv_def watch_store_def)
  have wf1: "wf_db env0 (ts_db ?st)" using trust_writes.inv_write [OF wf] assms(2) by simp
  have tok: "token_at ?st = token_at st"
    by (simp add: token_at_def store_write_def run_op_version fun_eq_iff)
  from trust_writes.visible [OF wf, of "(env, opn)"] assms(2)
  have "ts_local_generation ?st = ts_local_generation st \<and> trust_view (ts_db ?st) = trust_view (ts_db st) \<or>
    ts_local_generation ?st = ts_local_generation st + 1" by simp
  then show ?thesis
  proof
    assume "ts_local_generation ?st = ts_local_generation st \<and> trust_view (ts_db ?st) = trust_view (ts_db st)"
    with inv wf1 tok have "watch_inv env0 k ?st sa m"
      by (simp add: watch_inv_def watch_store_def watch_live_def stale_def noticed_def)
    then show ?thesis by blast
  next
    assume "ts_local_generation ?st = ts_local_generation st + 1"
    with inv wf1 tok have "watch_store env0 (Suc k) ?st sa m"
      by (auto simp: watch_inv_def watch_store_def intro: le_SucI)
    moreover have "noticed (Suc k) ?st sa m"
      using noticed_Suc [of env0 k st sa m] inv tok by (simp add: watch_inv_def noticed_def)
    ultimately show ?thesis by (auto simp: watch_inv_def watch_live_def)
  qed
qed

lemma watch_publish:
  "watch_inv env0 k st sa m \<Longrightarrow> watch_inv env0 k st (snd (publish_live_session sid a c sa)) m"
  by (auto simp: publish_live_session_def watch_inv_def watch_store_def watch_live_def noticed_def
      distinct_insort_key map_of_eq_None_iff)

lemma watch_unregister:
  "watch_inv env0 k st sa m \<Longrightarrow> watch_inv env0 k st (unregister_live_session sid sa) m"
  by (auto simp: unregister_live_session_def watch_inv_def watch_store_def watch_live_def noticed_def
      distinct_map_filter)

lemma watch_token:
  assumes inv: "watch_inv env0 k st sa m" and k: "k < 2 ^ 64"
    and pc: "mon_pc m = MonToken force" and tok: "change_token env st = Inr token"
  shows "watch_inv env0 k st sa
    \<lparr>mon_pc = (if force \<or> mon_last_token m \<noteq> Some token then MonSnapshot else MonWait),
     mon_last_token = Some token\<rparr>" (is "watch_inv _ _ _ _ ?m")
proof -
  have token: "token = token_at st k"
    using inv tok by (auto simp: change_token_def plain_query_Inr watch_inv_def watch_store_def token_at_def)
  have "watch_store env0 k st sa ?m"
    using inv token by (auto simp: watch_inv_def watch_store_def)
  moreover have "noticed k st sa ?m" if stale: "e \<in> set (sa_live sa)" "stale st (snd e)"
    and quiet: "\<not> force" "mon_last_token m = Some token" for e
  proof -
    have "noticed k st sa m"
      using inv stale pc quiet(1) by (auto simp: watch_inv_def watch_live_def pending_def)
    from token_not_seen [OF k this] show ?thesis using quiet(2) token by (simp add: noticed_def)
  qed
  ultimately show ?thesis by (auto simp: watch_inv_def watch_live_def pending_def)
qed

lemma watch_pc:
  assumes "watch_inv env0 k st sa m"
    and "\<And>e. \<lbrakk>e \<in> set (sa_live sa); stale st (snd e); pending (mon_pc m) e\<rbrakk> \<Longrightarrow> pending pc e"
  shows "watch_inv env0 k st sa (m\<lparr>mon_pc := pc\<rparr>)"
  using assms by (fastforce simp: watch_inv_def watch_store_def watch_live_def noticed_def)

lemma watch_monitor:
  assumes inv: "watch_inv env0 k st sa m" and k: "k < 2 ^ 64"
    and step: "monitor_step env st sa m = Some (sa1, m1, out)"
  shows "watch_inv env0 k st sa1 m1"
proof (cases "mon_pc m")
  case MonWait
  with inv step show ?thesis
    by (auto simp: monitor_step.simps watch_inv_def watch_store_def watch_live_def noticed_def pending_def
        split: if_splits)
next
  case (MonToken force)
  show ?thesis
  proof (cases "change_token env st")
    case (Inl err)
    with MonToken inv step show ?thesis
      by (auto simp: monitor_step.simps watch_inv_def watch_store_def watch_live_def pending_def)
  next
    case (Inr token)
    with MonToken step watch_token [OF inv k MonToken Inr] show ?thesis
      by (auto simp: monitor_step.simps)
  qed
next
  case MonSnapshot
  with step watch_pc [OF inv] show ?thesis by (auto simp: monitor_step.simps pending_def)
next
  case (MonScan es)
  have wf: "wf_db env0 (ts_db st)" using inv by (simp add: watch_inv_def watch_store_def)
  show ?thesis
  proof (cases es)
    case Nil
    with MonScan step watch_pc [OF inv] show ?thesis by (auto simp: monitor_step.simps pending_def)
  next
    case (Cons e rest)
    obtain sid la where e: "e = (sid, la)" by (cases e)
    have keep: "watch_inv env0 k st sa (m\<lparr>mon_pc := MonScan rest\<rparr>)" if "\<not> stale st la"
      using that MonScan Cons e by (intro watch_pc [OF inv]) (auto simp: pending_def)
    have drop: "watch_inv env0 k st sa (m\<lparr>mon_pc := MonDrop e rest\<rparr>)"
      using MonScan Cons by (intro watch_pc [OF inv]) (auto simp: pending_def)
    show ?thesis
      using MonScan Cons e step keep drop stored_matches_stale [OF wf, of env la]
      by (auto simp: monitor_step.simps split: if_splits)
  qed
next
  case (MonDrop d es)
  obtain sid la where d: "d = (sid, la)" by (cases d)
  have dist: "distinct (map fst (sa_live sa))" using inv by (simp add: watch_inv_def watch_store_def)
  have gone: "d \<notin> set (sa_live sa)"
    if "map_of (sa_live sa) sid = None \<or> (\<exists>live. map_of (sa_live sa) sid = Some live \<and> \<not> same_authorization live la)"
    using that map_of_is_SomeI [OF dist, of sid la] d by (auto simp: same_authorization_def)
  have skip: "watch_inv env0 k st sa (m\<lparr>mon_pc := MonScan es\<rparr>)" if "d \<notin> set (sa_live sa)"
    using that MonDrop by (intro watch_pc [OF inv]) (auto simp: pending_def)
  have drop: "watch_inv env0 k st (unregister_live_session sid sa) (m\<lparr>mon_pc := MonInvalidate c es\<rparr>)" for c
    using MonDrop d by (intro watch_pc [OF watch_unregister [OF inv]])
      (auto simp: pending_def unregister_live_session_def)
  show ?thesis
    using MonDrop d step skip drop gone
    by (auto simp: monitor_step.simps split: option.splits if_splits)
next
  case (MonInvalidate c es)
  with step watch_pc [OF inv] show ?thesis by (auto simp: monitor_step.simps pending_def)
qed (use step in \<open>simp add: monitor_step.simps\<close>)

lemma auth_run_watched:
  assumes "auth_run env0 n s" and "n < 2 ^ 64"
  shows "\<exists>k \<le> n. watch_inv env0 k (as_store s) (as_auth s) (as_monitor s)"
  using assms
proof (induction rule: auth_run.induct)
  case (run_start st)
  then show ?case
    by (auto simp: watch_inv_def watch_store_def watch_live_def new_auth_def new_monitor_def)
next
  case (run_write n s env opn)
  then obtain k where "k \<le> n" "watch_inv env0 k (as_store s) (as_auth s) (as_monitor s)" by auto
  with watch_write [OF _ run_write.hyps(2)] obtain k1 where "k1 \<in> {k, Suc k}"
    "watch_inv env0 k1 (store_write (env, opn) (as_store s)) (as_auth s) (as_monitor s)" by blast
  with \<open>k \<le> n\<close> show ?case by (intro exI [of _ k1]) auto
next
  case (run_stop n s)
  then show ?case
    by (auto simp: stop_authentication_def watch_inv_def watch_store_def watch_live_def noticed_def)
next
  case (run_monitor n s env sa m out)
  then show ?case using watch_monitor by (auto dest: le_less_trans)
qed (auto intro: watch_publish watch_unregister)

section \<open>A cycle of the monitor\<close>

text \<open>\<open>cut_by st es sa sa1 out\<close>: of the entries \<open>es\<close>, those that are live and stale are gone and
  their connections were asked to disconnect; nothing was added.\<close>

definition cut_by ::
  "TrustStore \<Rightarrow> (session_id \<times> LiveAuthorization) list \<Rightarrow> SessionAuthentication \<Rightarrow>
   SessionAuthentication \<Rightarrow> session_id list \<Rightarrow> bool" where
  "cut_by st es sa sa1 out \<longleftrightarrow> set (sa_live sa1) \<subseteq> set (sa_live sa) \<and>
     (\<forall>(sid, la) \<in> set es. (sid, la) \<in> set (sa_live sa) \<and> stale st la \<longrightarrow>
        sid \<notin> fst ` set (sa_live sa1) \<and> set_option (la_invalidate la) \<subseteq> set out)"

lemma steps_Cons:
  assumes "monitor_step env st sa m = Some (sa1, m1, o1)"
    and "monitor_steps envs st sa1 m1 = (sa2, m2, o2)"
  shows "monitor_steps (env # envs) st sa m = (sa2, m2, o1 @ o2)"
  using assms by simp

lemma cut_by_keep: "cut_by st es sa sa1 out \<Longrightarrow> \<not> stale st la \<or> (sid, la) \<notin> set (sa_live sa) \<Longrightarrow>
   cut_by st ((sid, la) # es) sa sa1 out"
  by (auto simp: cut_by_def)

lemma cut_by_drop:
  assumes "cut_by st es (unregister_live_session sid sa) sa1 out" and dist: "distinct (map fst (sa_live sa))"
    and live: "map_of (sa_live sa) sid = Some live"
  shows "cut_by st ((sid, la) # es) sa sa1 ((case la_invalidate live of None \<Rightarrow> [] | Some c \<Rightarrow> [c]) @ out)"
proof -
  have same: "v = live" if "(sid, v) \<in> set (sa_live sa)" for v
    using map_of_is_SomeI [OF dist that] live by simp
  have gone: "sid \<notin> fst ` set (sa_live sa1)" "set (sa_live sa1) \<subseteq> set (sa_live sa)"
    using assms(1) by (auto simp: cut_by_def unregister_live_session_def)
  show ?thesis
    unfolding cut_by_def
  proof (intro conjI ballI)
    fix e assume e: "e \<in> set ((sid, la) # es)"
    obtain i v where [simp]: "e = (i, v)" by (cases e)
    show "case e of (i, v) \<Rightarrow> (i, v) \<in> set (sa_live sa) \<and> stale st v \<longrightarrow>
        i \<notin> fst ` set (sa_live sa1) \<and>
        set_option (la_invalidate v) \<subseteq> set ((case la_invalidate live of None \<Rightarrow> [] | Some c \<Rightarrow> [c]) @ out)"
    proof (cases "i = sid")
      case True
      with same gone show ?thesis by (auto split: option.split)
    next
      case False
      with e assms(1) show ?thesis by (auto simp: cut_by_def unregister_live_session_def)
    qed
  qed (rule gone)
qed

lemma scan_cuts:
  assumes "wf_db env0 (ts_db st)" and "mon_pc m = MonScan es" and "distinct (map fst (sa_live sa))"
    and "3 * length es + 1 \<le> length envs"
  shows "\<exists>k \<le> 3 * length es + 1. \<exists>sa1 m1 out. monitor_steps (take k envs) st sa m = (sa1, m1, out) \<and>
    mon_pc m1 = MonWait \<and> cut_by st es sa sa1 out"
  using assms(2-)
proof (induction es arbitrary: m sa envs)
  case Nil
  then obtain env rest where "envs = env # rest" by (cases envs) auto
  with Nil show ?case
    by (intro exI [of _ 1]) (simp add: monitor_step.simps cut_by_def)
next
  case (Cons e es)
  obtain sid la where e [simp]: "e = (sid, la)" by (cases e)
  from Cons.prems(3) obtain e1 e2 e3 rest where envs: "envs = e1 # e2 # e3 # rest"
    by (cases envs rule: remdups_adj.cases) (auto simp: Suc_le_length_iff)
  let ?ok = "stored_matches (find_active_authorization e1 (la_uuid la) (la_public_key la) st)
    (la_revision la) (la_permissions la)"
  let ?scan = "m\<lparr>mon_pc := MonScan es\<rparr>"
  have len: "3 * length es + 1 \<le> length (e2 # e3 # rest)" "3 * length es + 1 \<le> length (e3 # rest)"
    "3 * length es + 1 \<le> length rest" using Cons.prems(3) envs by auto
  show ?case
  proof (cases ?ok)
    case True
    then have "monitor_step e1 st sa m = Some (sa, ?scan, [])"
      using Cons.prems(1) by (simp add: monitor_step.simps)
    moreover obtain k sa1 m1 out where "k \<le> 3 * length es + 1" "mon_pc m1 = MonWait" "cut_by st es sa sa1 out"
      "monitor_steps (take k (e2 # e3 # rest)) st sa ?scan = (sa1, m1, out)"
      using Cons.IH [of ?scan sa "e2 # e3 # rest"] len(1) Cons.prems(2) by auto
    ultimately show ?thesis
      using steps_Cons cut_by_keep [of st es sa sa1 out la sid] stored_matches_stale [OF assms(1) True]
      by (intro exI [of _ "Suc k"]) (auto simp: envs)
  next
    case False
    let ?drop = "m\<lparr>mon_pc := MonDrop (sid, la) es\<rparr>"
    from False have s1: "monitor_step e1 st sa m = Some (sa, ?drop, [])"
      using Cons.prems(1) by (simp add: monitor_step.simps)
    show ?thesis
    proof (cases "\<exists>live. map_of (sa_live sa) sid = Some live \<and> same_authorization live la")
      case True
      then obtain live where live: "map_of (sa_live sa) sid = Some live" "same_authorization live la" by blast
      let ?sa = "unregister_live_session sid sa"
      let ?inv = "m\<lparr>mon_pc := MonInvalidate (la_invalidate live) es\<rparr>"
      have s2: "monitor_step e2 st sa ?drop = Some (?sa, ?inv, [])"
        using live by (simp add: monitor_step.simps)
      have s3: "monitor_step e3 st ?sa ?inv =
          Some (?sa, ?scan, case la_invalidate live of None \<Rightarrow> [] | Some c \<Rightarrow> [c])"
        by (simp add: monitor_step.simps)
      have "distinct (map fst (sa_live ?sa))"
        using Cons.prems(2) by (simp add: unregister_live_session_def distinct_map_filter)
      then obtain k sa1 m1 out where "k \<le> 3 * length es + 1" "mon_pc m1 = MonWait" "cut_by st es ?sa sa1 out"
        "monitor_steps (take k rest) st ?sa ?scan = (sa1, m1, out)"
        using Cons.IH [of ?scan ?sa rest] len(3) by auto
      then show ?thesis
        using steps_Cons [OF s1 steps_Cons [OF s2 steps_Cons [OF s3]]]
          cut_by_drop [OF _ Cons.prems(2) live(1)]
        by (intro exI [of _ "Suc (Suc (Suc k))"]) (auto simp: envs)
    next
      case None: False
      have s2: "monitor_step e2 st sa ?drop = Some (sa, ?scan, [])"
        using None by (auto simp: monitor_step.simps split: option.split)
      have gone: "(sid, la) \<notin> set (sa_live sa)"
        using None map_of_is_SomeI [OF Cons.prems(2), of sid la] by (auto simp: same_authorization_def)
      obtain k sa1 m1 out where "k \<le> 3 * length es + 1" "mon_pc m1 = MonWait" "cut_by st es sa sa1 out"
        "monitor_steps (take k (e3 # rest)) st sa ?scan = (sa1, m1, out)"
        using Cons.IH [of ?scan sa "e3 # rest"] len(2) Cons.prems(2) by auto
      then show ?thesis
        using steps_Cons [OF s1 steps_Cons [OF s2]] cut_by_keep gone
        by (intro exI [of _ "Suc (Suc k)"]) (auto simp: envs)
    qed
  qed
qed

lemma cycle_cuts:
  assumes inv: "watch_inv env0 k st sa m" and k: "k < 2 ^ 64" and pc: "mon_pc m = MonWait"
    and run: "\<not> sa_stopping sa" and e: "(sid, la) \<in> set (sa_live sa)" "stale st la"
    and len: "length envs = 3 * length (sa_live sa) + 4"
  shows "\<exists>i \<le> length envs. \<exists>sa1 m1 out. monitor_steps (take i envs) st sa m = (sa1, m1, out) \<and>
    mon_pc m1 = MonWait \<and> cut_by st (sa_live sa) sa sa1 out"
proof -
  from len obtain e1 e2 e3 rest where envs: "envs = e1 # e2 # e3 # rest"
    by (cases envs rule: remdups_adj.cases) (auto simp: Suc_le_length_iff length_Suc_conv)
  let ?sa = "sa\<lparr>sa_force_scan := False\<rparr>"
  let ?tok = "m\<lparr>mon_pc := MonToken (sa_force_scan sa)\<rparr>"
  have s1: "monitor_step e1 st sa m = Some (?sa, ?tok, [])"
    using pc run e(1) by (auto simp: monitor_step.simps)
  have notice: "noticed k st sa m"
    using inv e pc by (force simp: watch_inv_def watch_live_def pending_def)
  have wf: "wf_db env0 (ts_db st)" and dist: "distinct (map fst (sa_live sa))"
    using inv by (simp_all add: watch_inv_def watch_store_def)
  have "\<exists>t. monitor_step e2 st ?sa ?tok = Some (?sa, \<lparr>mon_pc = MonSnapshot, mon_last_token = t\<rparr>, [])"
  proof (cases "change_token e2 st")
    case (Inr token)
    then have "token = token_at st k"
      using inv by (auto simp: change_token_def plain_query_Inr watch_inv_def watch_store_def token_at_def)
    with token_not_seen [OF k notice] have "sa_force_scan sa \<or> mon_last_token m \<noteq> Some token" by simp
    with Inr show ?thesis by (auto simp: monitor_step.simps)
  qed (simp add: monitor_step.simps)
  then obtain t where s2: "monitor_step e2 st ?sa ?tok =
      Some (?sa, \<lparr>mon_pc = MonSnapshot, mon_last_token = t\<rparr>, [])" by blast
  let ?scan = "\<lparr>mon_pc = MonScan (sa_live sa), mon_last_token = t\<rparr>"
  have s3: "monitor_step e3 st ?sa \<lparr>mon_pc = MonSnapshot, mon_last_token = t\<rparr> = Some (?sa, ?scan, [])"
    by (simp add: monitor_step.simps)
  obtain i sa1 m1 out where i: "i \<le> 3 * length (sa_live sa) + 1" "mon_pc m1 = MonWait"
    "cut_by st (sa_live sa) ?sa sa1 out" "monitor_steps (take i rest) st ?sa ?scan = (sa1, m1, out)"
    using scan_cuts [OF wf, of ?scan "sa_live sa" ?sa rest] dist len envs by auto
  moreover from i(3) have "cut_by st (sa_live sa) sa sa1 out" by (simp add: cut_by_def)
  ultimately show ?thesis
    using steps_Cons [OF s1 steps_Cons [OF s2 steps_Cons [OF s3 i(4)]]] len envs
    by (intro exI [of _ "Suc (Suc (Suc i))"]) auto
qed

lemma gate_sound:
  assumes "wf_db env0 (ts_db st)" and "authorization_is_current env st p"
  shows "authorization_spec (trust_view (ts_db st)) (ap_uuid p) (ap_public_key p) =
    Some \<lparr>apa_revision = ap_revision p, apa_permissions = ap_permissions p\<rparr>"
proof -
  from assms(2) obtain a where a: "find_active_authorization env (ap_uuid p) (ap_public_key p) st = Inr (Some a)"
    "apa_revision a = ap_revision p" "apa_permissions a = ap_permissions p"
    by (auto simp: authorization_is_current_def stored_matches_def split: sum.splits option.splits)
  then have "a = \<lparr>apa_revision = ap_revision p, apa_permissions = ap_permissions p\<rparr>" by (cases a) simp
  with a(1) authorization_Inr [OF assms(1)] show ?thesis by simp
qed

lemma gate_complete:
  assumes "wf_db env0 (ts_db st)" and "faultless env"
    and "authorization_spec (trust_view (ts_db st)) (ap_uuid p) (ap_public_key p) =
      Some \<lparr>apa_revision = ap_revision p, apa_permissions = ap_permissions p\<rparr>"
  shows "authorization_is_current env st p"
proof -
  have "find_active_authorization env (ap_uuid p) (ap_public_key p) st =
      Inr (Some \<lparr>apa_revision = ap_revision p, apa_permissions = ap_permissions p\<rparr>)"
    using authorization_Inr [OF assms(1)] assms(2,3) by (simp add: faultless_def)
  then show ?thesis by (simp add: authorization_is_current_def stored_matches_def)
qed

section \<open>Properties\<close>

text \<open>The change token is a sound hint: within fewer than 2^64 writes through a store
  instance, an unchanged local generation means that no authorization answer has changed.\<close>

theorem unchanged_token_unchanged_trust:
  assumes "wf_db env0 (ts_db st)" and "list_all (\<lambda>w. text_length (fst w) = text_length env0) ws"
    and "length ws < 2 ^ 64" and "ts_local_generation (fold store_write ws st) = ts_local_generation st"
  shows "authorization_spec (trust_view (ts_db (fold store_write ws st))) u k =
    authorization_spec (trust_view (ts_db st)) u k"
  using trust_writes.unchanged_generation [OF assms] by simp


text \<open>The authorization gate is exact and fails closed: it passes a snapshot only if the store
  holds an active record for that UUID and key with the same revision and permissions; it passes
  every such snapshot when the store meets no fault, and none when the lookup throws.\<close>

theorem authorization_gate_exact:
  assumes "wf_db env0 (ts_db st)"
  shows "(authorization_is_current env st p \<longrightarrow>
      (\<exists>t. trust_view (ts_db st) (ap_uuid p) = Some t \<and> t_active t \<and> t_key t = ap_public_key p \<and>
         t_revision t = ap_revision p \<and> sorted_list_of_set (t_permissions t) = ap_permissions p)) \<and>
    (faultless env \<longrightarrow>
      (\<forall>t. trust_view (ts_db st) (ap_uuid p) = Some t \<and> t_active t \<and> t_key t = ap_public_key p \<and>
         t_revision t = ap_revision p \<and> sorted_list_of_set (t_permissions t) = ap_permissions p \<longrightarrow>
         authorization_is_current env st p)) \<and>
    (\<forall>err. find_active_authorization env (ap_uuid p) (ap_public_key p) st = Inl err \<longrightarrow>
       \<not> authorization_is_current env st p)"
proof -
  have "authorization_spec (trust_view (ts_db st)) (ap_uuid p) (ap_public_key p) =
      Some \<lparr>apa_revision = ap_revision p, apa_permissions = ap_permissions p\<rparr>"
    if "authorization_is_current env st p"
    using gate_sound [OF assms that] .
  moreover have "\<not> authorization_is_current env st p"
    if "find_active_authorization env (ap_uuid p) (ap_public_key p) st = Inl err" for err
    using that by (simp add: authorization_is_current_def stored_matches_def)
  ultimately show ?thesis
    using gate_complete [OF assms] by (auto simp: authorization_spec_def split: option.splits if_splits)
qed

text \<open>Authorizing a verified identity yields a snapshot of exactly that identity: its UUID and
  key, the canonical text of the UUID as device id, and the revision and permissions that the
  active trust record for this UUID and key has; and that snapshot passes the gate.\<close>

theorem authorize_verified_peer_sound:
  assumes "wf_db env0 (ts_db st)" and "authorize_verified_peer env st identity = Inr (Some p)"
    and "faultless env1"
  shows "ap_uuid p = vpi_uuid identity \<and> ap_public_key p = vpi_public_key identity \<and>
    trust_uuid_from_string (ap_device_id p) = Inr (vpi_uuid identity) \<and>
    (\<exists>t. trust_view (ts_db st) (ap_uuid p) = Some t \<and> t_active t \<and> t_key t = ap_public_key p \<and>
       t_revision t = ap_revision p) \<and>
    authorization_is_current env1 st p"
proof -
  from assms(2) obtain a where a: "find_active_authorization env (vpi_uuid identity) (vpi_public_key identity) st =
      Inr (Some a)" and p: "p = \<lparr>ap_uuid = vpi_uuid identity, ap_public_key = vpi_public_key identity,
         ap_device_id = trust_uuid_to_string (vpi_uuid identity),
         ap_revision = apa_revision a, ap_permissions = apa_permissions a\<rparr>"
    by (auto simp: authorize_verified_peer_def split: option.splits)
  have spec: "authorization_spec (trust_view (ts_db st)) (vpi_uuid identity) (vpi_public_key identity) = Some a"
    using a authorization_Inr [OF assms(1)] by simp
  then obtain t where t: "trust_view (ts_db st) (vpi_uuid identity) = Some t" "t_active t"
    "t_key t = vpi_public_key identity" "t_revision t = apa_revision a"
    by (auto simp: authorization_spec_def split: option.splits if_splits)
  have "length (vpi_uuid identity) = 16" by (rule trust_view_length [OF assms(1) t(1)])
  moreover have "authorization_is_current env1 st p"
    using spec p by (intro gate_complete [OF assms(1,3)]) simp
  ultimately show ?thesis
    using p t trust_uuid_from_to_string by simp
qed

section \<open>Witnesses\<close>

definition sample_peer :: AuthorizedPeer where
  "sample_peer = \<lparr>ap_uuid = sample_uuid, ap_public_key = sample_key,
                  ap_device_id = trust_uuid_to_string sample_uuid, ap_revision = 1,
                  ap_permissions = [''message'', ''ping'']\<rparr>"

definition sample_live :: LiveAuthorization where
  "sample_live = \<lparr>la_uuid = sample_uuid, la_public_key = sample_key, la_revision = 1,
                  la_permissions = [''message'', ''ping''], la_invalidate = Some 1\<rparr>"

definition sample_auth :: SessionAuthentication where
  "sample_auth = snd (publish_live_session 1 sample_peer (Some 1) new_auth)"

definition sample_system :: auth_system where
  "sample_system = \<lparr>as_store = sample_revoked, as_auth = sample_auth, as_monitor = new_monitor,
                    as_disconnects = []\<rparr>"

lemma sample_auth_live: "sa_live sample_auth = [(1, sample_live)]"
  by (simp add: sample_auth_def publish_live_session_def new_auth_def sample_peer_def sample_live_def)

lemma sample_auth_run: "auth_run sample_env 2 sample_system"
proof -
  have g: "ts_local_generation sample_store = 0" by (simp add: sample_store_def)
  have i: "store_write (sample_env, OpImport sample_device) sample_store = sample_imported"
    "store_write (sample_env, OpRevoke sample_uuid 1 200) sample_imported = sample_revoked"
    by (simp_all only: store_write_def fst_conv snd_conv sample_runs)
  note r0 = run_start [OF sample_wf_store g]
  note r1 = run_write [OF r0 refl, of "OpImport sample_device"]
  note r2 = run_publish [OF r1, of 1 sample_peer "Some 1"]
  note r3 = run_write [OF r2 refl, of "OpRevoke sample_uuid 1 200"]
  from r3 show ?thesis by (simp add: i sample_system_def sample_auth_def numeral_2_eq_2)
qed

theorem unchanged_token_unchanged_trust_witness:
  "authorization_spec (trust_view (ts_db (fold store_write [(sample_env, OpCreateAttempt sample_attempt)]
       sample_store))) sample_uuid sample_key =
   authorization_spec (trust_view (ts_db sample_store)) sample_uuid sample_key"
proof -
  have "ts_local_generation (fold store_write [(sample_env, OpCreateAttempt sample_attempt)] sample_store) =
      ts_local_generation sample_store" by code_simp
  from unchanged_token_unchanged_trust [OF sample_wf_store _ _ this] show ?thesis by simp
qed


theorem authorization_gate_exact_witness:
  "authorization_is_current sample_env sample_imported sample_peer \<and>
   (\<exists>t. trust_view (ts_db sample_imported) sample_uuid = Some t \<and> t_active t \<and> t_revision t = 1)"
proof -
  have "authorization_is_current sample_env sample_imported sample_peer" by code_simp
  with authorization_gate_exact [OF sample_wf(1), of sample_env sample_peer] show ?thesis
    by (auto simp: sample_peer_def)
qed

theorem authorize_verified_peer_sound_witness:
  "authorize_verified_peer sample_env sample_imported \<lparr>vpi_uuid = sample_uuid, vpi_public_key = sample_key\<rparr> =
     Inr (Some sample_peer) \<and>
   trust_uuid_from_string (ap_device_id sample_peer) = Inr sample_uuid"
proof -
  have a: "authorize_verified_peer sample_env sample_imported
      \<lparr>vpi_uuid = sample_uuid, vpi_public_key = sample_key\<rparr> = Inr (Some sample_peer)" by code_simp
  from authorize_verified_peer_sound [OF sample_wf(1) a sample_faultless] a show ?thesis
    by (simp add: sample_peer_def)
qed

end
