(* ===== verification/Device_Registry.thy ===== *)
theory Device_Registry
  imports Session_Auth
begin

text \<open>
  The registry of ready devices: \<open>src/core/device/device.hpp\<close> and
  \<open>src/core/device/device_registry.{hpp,cpp}\<close>.  A \<open>std::weak_ptr<Connection>\<close> is the session id
  of the connection it refers to (\<open>None\<close> for the null pointer); \<open>lock\<close> looks it up in the map of
  connection objects that are still alive, which gives their \<open>is_stopping\<close> flag.  The registry is
  the vector of devices; each operation runs under \<open>registry_mutex\<close>, so it is one function.
  \<open>list_devices\<close>, which prints, is in theory \<open>Console\<close>.
\<close>

section \<open>Data\<close>

datatype DeviceState = CONNECTING | HANDSHAKE_DONE | AUTHENTICATED | READY | DISCONNECTED

record Device =
  dev_device_id :: string
  dev_device_name :: string
  dev_device_type :: string
  dev_socket_fd :: int
  dev_session_id :: session_id
  dev_connection :: "session_id option"
  dev_preferred_connection :: bool
  dev_state :: DeviceState
  dev_public_key :: TrustPublicKey
  dev_trust_revision :: int
  dev_permissions :: "string list"

record RegistrationResult =
  rr_accepted :: bool
  rr_replaced_device :: "Device option"

text \<open>The connection objects that are still alive, with their \<open>is_stopping\<close> flag.\<close>

type_synonym alive = "session_id \<rightharpoonup> bool"

definition weak_lock :: "alive \<Rightarrow> session_id option \<Rightarrow> bool option" where
  "weak_lock conns w = Option.bind w conns"

section \<open>Operations\<close>

definition rejected :: RegistrationResult where
  "rejected = \<lparr>rr_accepted = False, rr_replaced_device = None\<rparr>"

text \<open>The checks made before the table is searched.\<close>

definition publishable :: "alive \<Rightarrow> Device \<Rightarrow> AuthorizedPeer \<Rightarrow> bool" where
  "publishable conns device authorization \<longleftrightarrow>
     (case dev_connection device of
        None \<Rightarrow> False
      | Some c \<Rightarrow> conns c = Some False \<and> c = dev_session_id device) \<and>
     dev_device_id device = ap_device_id authorization \<and>
     dev_public_key device = ap_public_key authorization \<and>
     dev_trust_revision device = ap_revision authorization \<and>
     dev_permissions device = ap_permissions authorization \<and>
     dev_state device = AUTHENTICATED"

fun publish_loop :: "alive \<Rightarrow> Device \<Rightarrow> Device list \<Rightarrow> RegistrationResult \<times> Device list" where
  "publish_loop conns device [] =
     (\<lparr>rr_accepted = True, rr_replaced_device = None\<rparr>, [device\<lparr>dev_state := READY\<rparr>])"
| "publish_loop conns device (existing # devices) =
     (if dev_device_id existing \<noteq> dev_device_id device
      then (case publish_loop conns device devices of (r, ds) \<Rightarrow> (r, existing # ds))
      else if weak_lock conns (dev_connection existing) = Some False \<and>
              (dev_preferred_connection existing \<or> \<not> dev_preferred_connection device)
      then (rejected, existing # devices)
      else (\<lparr>rr_accepted = True, rr_replaced_device = Some existing\<rparr>,
            device\<lparr>dev_state := READY\<rparr> # devices))"

definition publish_authenticated_device ::
  "alive \<Rightarrow> Device \<Rightarrow> AuthorizedPeer \<Rightarrow> Device list \<Rightarrow> RegistrationResult \<times> Device list" where
  "publish_authenticated_device conns device authorization devices =
     (if \<not> publishable conns device authorization then (rejected, devices)
      else publish_loop conns device devices)"

definition remove_device :: "session_id \<Rightarrow> Device list \<Rightarrow> Device list" where
  "remove_device sid devices = filter (\<lambda>d. dev_session_id d \<noteq> sid) devices"

definition is_already_connected :: "string \<Rightarrow> Device list \<Rightarrow> bool" where
  "is_already_connected device_id devices =
     list_ex (\<lambda>d. dev_device_id d = device_id \<and> dev_state d \<noteq> DISCONNECTED) devices"

definition get_devices_copy :: "Device list \<Rightarrow> Device list" where
  "get_devices_copy devices = devices"

text \<open>
  Which direction of a duplicate pair is preferred, as a session computes it when it builds its
  device record: the connection opened by the side with the smaller device id.
\<close>

definition preferred_direction :: "string \<Rightarrow> string \<Rightarrow> bool \<Rightarrow> bool" where
  "preferred_direction my_device_id device_id is_outgoing = ((my_device_id < device_id) = is_outgoing)"

section \<open>Invariant\<close>

definition wf_registry :: "Device list \<Rightarrow> bool" where
  "wf_registry devices \<longleftrightarrow>
     distinct (map dev_device_id devices) \<and>
     (\<forall>d \<in> set devices. dev_state d = READY \<and> dev_connection d = Some (dev_session_id d))"

text \<open>The entry of a device, if it has one.\<close>

definition owner_of :: "Device list \<Rightarrow> string \<Rightarrow> Device option" where
  "owner_of devices i = find (\<lambda>d. dev_device_id d = i) devices"

text \<open>A live incumbent that the candidate may not replace.\<close>

definition blocked :: "alive \<Rightarrow> Device \<Rightarrow> Device list \<Rightarrow> bool" where
  "blocked conns device devices \<longleftrightarrow>
     (case owner_of devices (dev_device_id device) of
        None \<Rightarrow> False
      | Some existing \<Rightarrow> weak_lock conns (dev_connection existing) = Some False \<and>
          (dev_preferred_connection existing \<or> \<not> dev_preferred_connection device))"

lemma owner_of_None: "owner_of devices i = None \<longleftrightarrow> i \<notin> dev_device_id ` set devices"
  by (force simp: owner_of_def find_None_iff)

lemma owner_of_Some: "owner_of devices i = Some d \<Longrightarrow> d \<in> set devices \<and> dev_device_id d = i"
  by (auto simp: owner_of_def find_Some_iff)

lemma publish_loop_blocked:
  "blocked conns device devices \<Longrightarrow> publish_loop conns device devices = (rejected, devices)"
  by (induction devices) (auto simp: blocked_def owner_of_def split: if_splits prod.split)

lemma publish_loop_accepts:
  assumes "\<not> blocked conns device devices" and "publish_loop conns device devices = (r, devices1)"
  shows "r = \<lparr>rr_accepted = True, rr_replaced_device = owner_of devices (dev_device_id device)\<rparr> \<and>
    owner_of devices1 = (owner_of devices)(dev_device_id device \<mapsto> device\<lparr>dev_state := READY\<rparr>) \<and>
    set devices1 \<subseteq> insert (device\<lparr>dev_state := READY\<rparr>) (set devices) \<and>
    map dev_device_id devices1 = map dev_device_id devices @
      (if owner_of devices (dev_device_id device) = None then [dev_device_id device] else [])"
  using assms
proof (induction devices arbitrary: r devices1)
  case (Cons existing devices)
  show ?case
  proof (cases "dev_device_id existing = dev_device_id device")
    case True
    with Cons.prems show ?thesis
      by (auto simp: blocked_def owner_of_def fun_eq_iff split: if_splits)
  next
    case False
    with Cons.prems(1) have nb: "\<not> blocked conns device devices" by (simp add: blocked_def owner_of_def)
    from False Cons.prems(2) obtain ds where ds: "publish_loop conns device devices = (r, ds)"
      "devices1 = existing # ds" by (auto split: prod.splits)
    from Cons.IH [OF nb ds(1)] False ds(2) show ?thesis
      by (auto simp: owner_of_def fun_eq_iff)
  qed
qed (auto simp: owner_of_def fun_eq_iff)

lemma publish_cases:
  assumes "publish_authenticated_device conns device a devices = (r, devices1)"
  obtains (rejected) "\<not> publishable conns device a \<or> blocked conns device devices"
      "r = rejected" "devices1 = devices"
  | (accepted) "publishable conns device a" "\<not> blocked conns device devices"
      "publish_loop conns device devices = (r, devices1)"
  using assms that publish_loop_blocked [of conns device devices]
  by (cases "blocked conns device devices") (auto simp: publish_authenticated_device_def split: if_splits)

lemma publish_wf:
  assumes "wf_registry devices" and "publish_authenticated_device conns device a devices = (r, devices1)"
  shows "wf_registry devices1"
  using assms(2)
proof (cases rule: publish_cases)
  case accepted
  note acc = publish_loop_accepts [OF accepted(2,3)]
  have "dev_connection device = Some (dev_session_id device)"
    using accepted(1) by (auto simp: publishable_def split: option.splits)
  moreover have "dev_device_id device \<notin> dev_device_id ` set devices" if "owner_of devices (dev_device_id device) = None"
    using that by (simp add: owner_of_None)
  ultimately show ?thesis
    using assms(1) acc by (auto simp: wf_registry_def)
qed (use assms(1) in simp)

lemma owner_of_remove:
  assumes "wf_registry devices"
  shows "owner_of (remove_device sid devices) i =
    (case owner_of devices i of None \<Rightarrow> None | Some d \<Rightarrow> if dev_session_id d = sid then None else Some d)"
  using assms
proof (induction devices)
  case (Cons d devices)
  then have "wf_registry devices" by (simp add: wf_registry_def)
  moreover have "dev_device_id d \<notin> dev_device_id ` set (remove_device sid devices)"
    using Cons.prems by (auto simp: wf_registry_def remove_device_def)
  then have "owner_of (remove_device sid devices) (dev_device_id d) = None"
    by (simp add: owner_of_None)
  ultimately show ?case
    using Cons.IH by (auto simp: owner_of_def remove_device_def)
qed (simp add: owner_of_def remove_device_def)

lemma remove_wf: "wf_registry devices \<Longrightarrow> wf_registry (remove_device sid devices)"
  by (auto simp: wf_registry_def remove_device_def distinct_map_filter)

lemma owner_published:
  assumes "publishable conns device a" and "\<not> blocked conns device devices"
  shows "owner_of (snd (publish_authenticated_device conns device a devices)) =
    (owner_of devices)(dev_device_id device \<mapsto> device\<lparr>dev_state := READY\<rparr>)"
  using publish_loop_accepts [OF assms(2) surjective_pairing] assms(1)
  by (simp add: publish_authenticated_device_def)

lemma owner_kept:
  assumes "blocked conns device devices"
  shows "snd (publish_authenticated_device conns device a devices) = devices"
  using publish_loop_blocked [OF assms] by (simp add: publish_authenticated_device_def)

text \<open>Publishing a preferred and a non-preferred live connection of one peer, in either order.\<close>

lemma preferred_wins:
  assumes "publishable conns x px" and "publishable conns y py"
    and "dev_device_id x = i" and "dev_device_id y = i"
    and "dev_preferred_connection x" and "\<not> dev_preferred_connection y" and "owner_of ds i = None"
  shows "owner_of (snd (publish_authenticated_device conns y py (snd (publish_authenticated_device conns x px ds)))) i =
      Some (x\<lparr>dev_state := READY\<rparr>)"
    and "owner_of (snd (publish_authenticated_device conns x px (snd (publish_authenticated_device conns y py ds)))) i =
      Some (x\<lparr>dev_state := READY\<rparr>)"
proof -
  have free: "\<not> blocked conns x ds" "\<not> blocked conns y ds"
    using assms by (simp_all add: blocked_def)
  have live: "weak_lock conns (dev_connection x) = Some False"
    using assms(1) by (auto simp: publishable_def weak_lock_def split: option.splits)
  let ?dx = "snd (publish_authenticated_device conns x px ds)"
  let ?dy = "snd (publish_authenticated_device conns y py ds)"
  have ox: "owner_of ?dx i = Some (x\<lparr>dev_state := READY\<rparr>)"
    using owner_published [OF assms(1) free(1)] assms(3) by simp
  have "blocked conns y ?dx" using ox live assms by (simp add: blocked_def)
  then show "owner_of (snd (publish_authenticated_device conns y py ?dx)) i = Some (x\<lparr>dev_state := READY\<rparr>)"
    using owner_kept ox by simp
  have oy: "owner_of ?dy i = Some (y\<lparr>dev_state := READY\<rparr>)"
    using owner_published [OF assms(2) free(2)] assms(4) by simp
  then have "\<not> blocked conns x ?dy" using assms by (simp add: blocked_def)
  then show "owner_of (snd (publish_authenticated_device conns x px ?dy)) i = Some (x\<lparr>dev_state := READY\<rparr>)"
    using owner_published [OF assms(1)] assms(3) by simp
qed

section \<open>Properties\<close>

text \<open>C28. Publication arbitrates exactly: a candidate is accepted if and only if its own connection
  is alive and not stopping, its record matches its authorization in every field, and no live
  incumbent blocks it; then it becomes the READY owner of its device id, the previous owner is
  returned, and every other device keeps its owner; a rejected candidate changes nothing.  The
  registry stays well formed: one READY entry per device id.\<close>

theorem publish_arbitrates:
  assumes "wf_registry devices" and "publish_authenticated_device conns device a devices = (r, devices1)"
  shows "wf_registry devices1 \<and> (rr_accepted r \<longleftrightarrow> publishable conns device a \<and> \<not> blocked conns device devices) \<and>
    (if rr_accepted r
     then rr_replaced_device r = owner_of devices (dev_device_id device) \<and>
       owner_of devices1 = (owner_of devices)(dev_device_id device \<mapsto> device\<lparr>dev_state := READY\<rparr>)
     else devices1 = devices)"
  using assms(2)
proof (cases rule: publish_cases)
  case accepted
  with publish_loop_accepts [OF accepted(2,3)] publish_wf [OF assms] show ?thesis by simp
next
  case rejected
  with assms(1) show ?thesis by (auto simp: rejected_def)
qed


text \<open>Cleaning up a replaced session cannot evict its successor: after a candidate has replaced
  an incumbent of another session, removing the incumbent's session leaves the candidate as the
  owner.\<close>

theorem replaced_cleanup_keeps_owner:
  assumes "wf_registry devices" and "publish_authenticated_device conns device a devices = (r, devices1)"
    and "rr_replaced_device r = Some old" and "dev_session_id old \<noteq> dev_session_id device"
  shows "owner_of (remove_device (dev_session_id old) devices1) (dev_device_id device) =
      Some (device\<lparr>dev_state := READY\<rparr>) \<and>
    is_already_connected (dev_device_id device) (remove_device (dev_session_id old) devices1)"
proof -
  have own: "owner_of devices1 (dev_device_id device) = Some (device\<lparr>dev_state := READY\<rparr>)"
    using assms(2)
  proof (cases rule: publish_cases)
    case accepted
    with publish_loop_accepts [OF accepted(2,3)] show ?thesis by simp
  qed (use assms(3) in \<open>simp add: rejected_def\<close>)
  then have "owner_of (remove_device (dev_session_id old) devices1) (dev_device_id device) =
      Some (device\<lparr>dev_state := READY\<rparr>)"
    using owner_of_remove [OF publish_wf [OF assms(1,2)]] assms(4) by simp
  moreover from this have "is_already_connected (dev_device_id device) (remove_device (dev_session_id old) devices1)"
    by (auto simp: is_already_connected_def list_ex_iff dest!: owner_of_Some)
  ultimately show ?thesis by simp
qed

section \<open>Witnesses\<close>

definition sample_dev :: "session_id \<Rightarrow> bool \<Rightarrow> Device" where
  "sample_dev sid preferred =
     \<lparr>dev_device_id = ''bb'', dev_device_name = ''peer'', dev_device_type = ''linux'', dev_socket_fd = 5,
      dev_session_id = sid, dev_connection = Some sid, dev_preferred_connection = preferred,
      dev_state = AUTHENTICATED, dev_public_key = sample_key, dev_trust_revision = 1, dev_permissions = []\<rparr>"

definition sample_dev_auth :: AuthorizedPeer where
  "sample_dev_auth = \<lparr>ap_uuid = sample_uuid, ap_public_key = sample_key, ap_device_id = ''bb'',
                      ap_revision = 1, ap_permissions = []\<rparr>"

definition sample_conns :: alive where
  "sample_conns = [1 \<mapsto> False, 2 \<mapsto> False]"

lemma sample_publishable: "publishable sample_conns (sample_dev 1 b) sample_dev_auth"
  "publishable sample_conns (sample_dev 2 b) sample_dev_auth"
  by (simp_all add: publishable_def sample_conns_def sample_dev_def sample_dev_auth_def)

theorem publish_arbitrates_witness:
  "rr_accepted (fst (publish_authenticated_device sample_conns (sample_dev 1 True) sample_dev_auth []))"
  using publish_arbitrates [of "[]" sample_conns "sample_dev 1 True" sample_dev_auth, OF _ surjective_pairing]
  by (simp add: wf_registry_def sample_publishable blocked_def owner_of_def)


theorem replaced_cleanup_keeps_owner_witness:
  "owner_of (remove_device 1 (snd (publish_authenticated_device sample_conns (sample_dev 2 True) sample_dev_auth
     [(sample_dev 1 False)\<lparr>dev_state := READY\<rparr>]))) ''bb'' = Some ((sample_dev 2 True)\<lparr>dev_state := READY\<rparr>)"
proof -
  let ?p = "publish_authenticated_device sample_conns (sample_dev 2 True) sample_dev_auth
     [(sample_dev 1 False)\<lparr>dev_state := READY\<rparr>]"
  have wf: "wf_registry [(sample_dev 1 False)\<lparr>dev_state := READY\<rparr>]"
    by (simp add: wf_registry_def sample_dev_def)
  have rep: "rr_replaced_device (fst ?p) = Some ((sample_dev 1 False)\<lparr>dev_state := READY\<rparr>)" by code_simp
  from replaced_cleanup_keeps_owner [OF wf surjective_pairing rep] show ?thesis
    by (simp add: sample_dev_def)
qed

end
