(* ===== verification/Transport.thy ===== *)
theory Transport
  imports Framing Packet
begin

text \<open>
  The byte transport of a session, the first part of \<open>src/core/networking/connection.cpp\<close>: waiting
  for a socket, sending a whole buffer under a deadline, and serializing a JSON value into a
  bounded buffer.  Time is an integer count of nanoseconds.  The operating system is a list of
  events, one per iteration of the loop it answers: what the clock, the stopping flag, \<open>send\<close>
  and \<open>poll\<close> say.  A list that ends means that the deadline has passed when the loop looks at the
  clock again.  \<open>send\<close> accepts at most what it is given; \<open>send_loop\<close> also returns the bytes that
  went out.
\<close>

section \<open>Deadlines\<close>

definition HANDSHAKE_TIMEOUT :: int where
  "HANDSHAKE_TIMEOUT = 10 * 1000000000"

definition WRITE_TIMEOUT :: int where
  "WRITE_TIMEOUT = 10 * 1000000000"

definition INT_MAX :: int where
  "INT_MAX = 2147483647"

record poll_event =
  pe_now :: int
  pe_result :: "errno + nat"

text \<open>
  The timeout handed to \<open>poll\<close> in milliseconds; \<open>None\<close> when the deadline has passed.  The
  deadline \<open>None\<close> is \<open>time_point::max()\<close>.
\<close>

definition poll_timeout :: "int option \<Rightarrow> int \<Rightarrow> int option" where
  "poll_timeout deadline now =
     (case deadline of
        None \<Rightarrow> Some (- 1)
      | Some d \<Rightarrow>
          (let remaining = d - now
           in if remaining \<le> 0 then None
              else Some (min (- ((- remaining) div 1000000)) INT_MAX)))"

fun wait_for_socket :: "int option \<Rightarrow> poll_event list \<Rightarrow> int option" where
  "wait_for_socket deadline [] = (case deadline of None \<Rightarrow> None | Some _ \<Rightarrow> Some 0)"
| "wait_for_socket deadline (e # es) =
     (case poll_timeout deadline (pe_now e) of
        None \<Rightarrow> Some 0
      | Some timeout \<Rightarrow>
          (case pe_result e of
             Inl EINTR \<Rightarrow> wait_for_socket deadline es
           | Inl _ \<Rightarrow> Some (- 1)
           | Inr ready \<Rightarrow> Some (int ready)))"

section \<open>Sending a buffer\<close>

record send_event =
  se_stopping :: bool
  se_now :: int
  se_result :: "errno + nat"
  se_polls :: "poll_event list"

fun send_loop :: "int \<Rightarrow> string \<Rightarrow> nat \<Rightarrow> send_event list \<Rightarrow> string \<times> int" where
  "send_loop deadline data total_sent [] =
     (if total_sent < length data then ([], - 1) else ([], int total_sent))"
| "send_loop deadline data total_sent (e # es) =
     (if total_sent < length data
      then if se_stopping e \<or> se_now e \<ge> deadline then ([], - 1)
           else (case se_result e of
                   Inl EINTR \<Rightarrow> send_loop deadline data total_sent es
                 | Inl EAGAIN \<Rightarrow>
                     if (case wait_for_socket (Some deadline) (se_polls e) of Some r \<Rightarrow> r > 0 | None \<Rightarrow> False)
                     then send_loop deadline data total_sent es
                     else ([], - 1)
                 | Inl EOTHER \<Rightarrow> ([], - 1)
                 | Inr sent \<Rightarrow>
                     if sent = 0 then ([], - 1)
                     else let n = min sent (length data - total_sent)
                          in case send_loop deadline data (total_sent + n) es of
                               (out, r) \<Rightarrow> (take n (drop total_sent data) @ out, r))
      else ([], int total_sent))"

definition send_all :: "bool \<Rightarrow> int \<Rightarrow> int \<Rightarrow> send_event list \<Rightarrow> string \<Rightarrow> string \<times> int" where
  "send_all ready handshake_deadline now es data =
     send_loop (if ready then now + WRITE_TIMEOUT else min (now + WRITE_TIMEOUT) handshake_deadline)
       data 0 es"

section \<open>Serializing into a bounded buffer\<close>

definition MAX_CONTROL_RECORD_SIZE :: nat where
  "MAX_CONTROL_RECORD_SIZE = 4096"

text \<open>\<open>limit_ - data_.size()\<close> cannot wrap: the buffer never exceeds its limit.\<close>

definition xsputn :: "nat \<Rightarrow> string \<Rightarrow> string \<Rightarrow> std_error + string" where
  "xsputn limit data chunk =
     (if length chunk > limit - length data then Inl (LengthError ''packet exceeds maximum frame size'')
      else Inr (data @ chunk))"

fun write_chunks :: "nat \<Rightarrow> string \<Rightarrow> string list \<Rightarrow> std_error + string" where
  "write_chunks limit data [] = Inr data"
| "write_chunks limit data (c # cs) = rbind (xsputn limit data c) (\<lambda>data1. write_chunks limit data1 cs)"

text \<open>\<open>output << packet\<close> on the bounded buffer; the serializer itself may throw after its chunks.\<close>

definition stream_packet :: "json_lib \<Rightarrow> nat \<Rightarrow> json \<Rightarrow> std_error + string" where
  "stream_packet J limit packet =
     (case json_stream J packet of (chunks, ok) \<Rightarrow>
        rbind (write_chunks limit [] chunks) (\<lambda>data. if ok then Inr data else Inl JsonTypeError))"

definition is_control_record :: "json \<Rightarrow> bool" where
  "is_control_record packet =
     (case json_find ''type'' packet of
        Some (JString t) \<Rightarrow> t = ''hello'' \<or> t = ''ping'' \<or> t = ''pong''
      | _ \<Rightarrow> False)"

definition is_control_packet :: "Packet \<Rightarrow> bool" where
  "is_control_packet pkt \<longleftrightarrow> pkt_type pkt = ''hello'' \<or> pkt_type pkt = ''ping'' \<or> pkt_type pkt = ''pong''"

text \<open>\<open>packet.value("type", "unknown")\<close>, computed for the log line; it may throw.\<close>

definition value_type :: "json \<Rightarrow> std_error + string" where
  "value_type packet =
     (if \<not> is_object packet then Inl JsonTypeError
      else case json_find ''type'' packet of None \<Rightarrow> Inr ''unknown'' | Some v \<Rightarrow> json_get_string v)"

section \<open>Lemmas\<close>

lemma send_loop_spec:
  assumes "send_loop deadline data done0 es = (out, r)" and "done0 \<le> length data"
  shows "\<exists>n. done0 + n \<le> length data \<and> out = take n (drop done0 data) \<and>
    (r = - 1 \<and> done0 + n < length data \<or> r = int (length data) \<and> done0 + n = length data)"
  using assms
proof (induction es arbitrary: done0 out r)
  case Nil
  then show ?case by (auto split: if_splits intro: exI [of _ 0])
next
  case (Cons e es)
  show ?case
  proof (cases "\<exists>sent. done0 < length data \<and> \<not> se_stopping e \<and> se_now e < deadline \<and>
      se_result e = Inr sent \<and> sent \<noteq> 0")
    case True
    then obtain sent where s: "done0 < length data" "\<not> se_stopping e" "se_now e < deadline"
      "se_result e = Inr sent" "sent \<noteq> 0" by blast
    let ?n = "min sent (length data - done0)"
    obtain out1 r1 where l: "send_loop deadline data (done0 + ?n) es = (out1, r1)" by fastforce
    with s Cons.prems(1) have eq: "out = take ?n (drop done0 data) @ out1" "r = r1"
      by (auto simp: Let_def not_le)
    have "done0 + ?n \<le> length data" using s(1) by simp
    from Cons.IH [OF l this] obtain m where m: "done0 + ?n + m \<le> length data"
      "out1 = take m (drop (done0 + ?n) data)"
      "r1 = - 1 \<and> done0 + ?n + m < length data \<or> r1 = int (length data) \<and> done0 + ?n + m = length data"
      by blast
    have "take ?n (drop done0 data) @ take m (drop (done0 + ?n) data) = take (?n + m) (drop done0 data)"
      by (simp only: take_add drop_drop add.commute [of ?n done0])
    with m eq show ?thesis by (intro exI [of _ "?n + m"]) (auto simp: add.assoc)
  next
    case False
    with Cons show ?thesis
      by (auto split: if_splits errno.splits sum.splits option.splits intro: exI [of _ 0])
  qed
qed

lemma write_chunks_spec:
  "length data \<le> limit \<Longrightarrow> write_chunks limit data chunks =
     (if length (data @ concat chunks) \<le> limit then Inr (data @ concat chunks)
      else Inl (LengthError ''packet exceeds maximum frame size''))"
  by (induction chunks arbitrary: data) (auto simp: xsputn_def)

text \<open>A peer that keeps taking bytes receives the whole buffer: every event before the deadline that
  accepts something shortens what is left.\<close>

definition accepting :: "int \<Rightarrow> send_event \<Rightarrow> bool" where
  "accepting deadline e \<longleftrightarrow> \<not> se_stopping e \<and> se_now e < deadline \<and> (\<exists>n. se_result e = Inr (Suc n))"

lemma send_loop_completes:
  assumes "\<forall>e \<in> set es. accepting deadline e" and "length data - total_sent \<le> length es"
    and "total_sent \<le> length data"
  shows "snd (send_loop deadline data total_sent es) = int (length data)"
  using assms
proof (induction es arbitrary: total_sent)
  case (Cons e es)
  from Cons.prems(1) obtain n where n: "\<not> se_stopping e" "se_now e < deadline" "se_result e = Inr (Suc n)"
    by (auto simp: accepting_def)
  let ?k = "min (Suc n) (length data - total_sent)"
  have "snd (send_loop deadline data (total_sent + ?k) es) = int (length data)" if "total_sent < length data"
    using Cons.prems that by (intro Cons.IH) auto
  with n Cons.prems(3) show ?case by (auto simp: Let_def split: prod.split)
qed simp

section \<open>Properties\<close>

text \<open>C30. Sending is all or nothing as far as its caller can tell: under every sequence of partial
  writes, interruptions, full buffers, stop requests and clock readings, send_all either
  reports the length of the buffer and exactly the buffer went out, or reports -1 and a proper
  prefix of the buffer went out; and it reports success whenever the peer takes at least one byte
  per attempt, the session is not stopped and the deadline does not pass before the buffer is
  out.\<close>

theorem send_all_exact:
  "(case send_all ready handshake_deadline now es data of
      (out, r) \<Rightarrow> r = int (length data) \<and> out = data \<or> r = - 1 \<and> strict_prefix out data) \<and>
   (length data \<le> length es \<and>
    (\<forall>e \<in> set es. accepting (if ready then now + WRITE_TIMEOUT
                              else min (now + WRITE_TIMEOUT) handshake_deadline) e) \<longrightarrow>
    send_all ready handshake_deadline now es data = (data, int (length data)))"
proof -
  let ?d = "if ready then now + WRITE_TIMEOUT else min (now + WRITE_TIMEOUT) handshake_deadline"
  obtain out r where l: "send_loop ?d data 0 es = (out, r)" by fastforce
  from send_loop_spec [OF l] obtain n where n: "n \<le> length data" "out = take n data"
    "r = - 1 \<and> n < length data \<or> r = int (length data) \<and> n = length data" by auto
  then have spec: "r = int (length data) \<and> out = data \<or> r = - 1 \<and> strict_prefix out data"
    by (auto simp: strict_prefix_def take_is_prefix)
  moreover have "r = int (length data)" if "length data \<le> length es" "\<forall>e \<in> set es. accepting ?d e"
    using send_loop_completes [of es ?d data 0] that l by simp
  ultimately show ?thesis using l by (auto simp: send_all_def)
qed

theorem send_all_exact_witness:
  "send_all True 0 5 [\<lparr>se_stopping = False, se_now = 6, se_result = Inr 1, se_polls = []\<rparr>,
     \<lparr>se_stopping = False, se_now = 7, se_result = Inr 9, se_polls = []\<rparr>] ''ab'' = (''ab'', 2)"
  using send_all_exact [where ready = True and handshake_deadline = 0 and now = 5 and data = "''ab''" and es =
    "[\<lparr>se_stopping = False, se_now = 6, se_result = Inr 1, se_polls = []\<rparr>,
      \<lparr>se_stopping = False, se_now = 7, se_result = Inr 9, se_polls = []\<rparr>]"]
  by (simp add: accepting_def WRITE_TIMEOUT_def numeral_eq_Suc)

text \<open>The bounded buffer is exact: however the JSON serializer cuts its output into chunks, a packet
  is serialized in full if its text fits the limit, and fails with a length error, with nothing
  to send, if it does not; the limit itself still fits.\<close>

theorem stream_packet_bounded:
  "stream_packet J limit packet =
     (let text = concat (fst (json_stream J packet))
      in if length text > limit then Inl (LengthError ''packet exceeds maximum frame size'')
         else if snd (json_stream J packet) then Inr text else Inl JsonTypeError)"
  by (auto simp: stream_packet_def write_chunks_spec Let_def split: prod.split)

text \<open>The timeout of a poll never wraps and never busy-waits: for a finite deadline that has not
  passed it is a positive int, it is the remaining time rounded up to a millisecond unless
  that does not fit, and it is absent exactly when the deadline has passed; without a deadline
  it is -1, which waits forever.\<close>

theorem poll_timeout_bounds:
  "poll_timeout None now = Some (- 1) \<and>
   (poll_timeout (Some deadline) now = None \<longleftrightarrow> deadline \<le> now) \<and>
   (\<forall>t. poll_timeout (Some deadline) now = Some t \<longrightarrow>
      0 < t \<and> t \<le> INT_MAX \<and> (t - 1) * 1000000 < deadline - now \<and>
      (t < INT_MAX \<longrightarrow> deadline - now \<le> t * 1000000))"
proof -
  have ceil: "0 < - ((- r) div 1000000) \<and> (- ((- r) div 1000000) - 1) * 1000000 < r \<and>
      r \<le> - ((- r) div 1000000) * 1000000" if "0 < r" for r :: int
  proof -
    define q m where "q = (- r) div 1000000" and "m = (- r) mod 1000000"
    have "q * 1000000 + m = - r" "0 \<le> m" "m < 1000000" by (simp_all add: q_def m_def)
    with that have "q < 0" "(- q - 1) * 1000000 < r" "r \<le> - q * 1000000"
      by (simp_all add: left_diff_distrib)
    then show ?thesis by (simp add: q_def)
  qed
  note ceil = ceil [of "deadline - now"]
  show ?thesis
  proof (cases "deadline - now \<le> 0")
    case True
    then show ?thesis by (simp add: poll_timeout_def)
  next
    case False
    then have t: "poll_timeout (Some deadline) now = Some (min (- ((- (deadline - now)) div 1000000)) INT_MAX)"
      by (simp add: poll_timeout_def)
    have "0 < INT_MAX" by (simp add: INT_MAX_def)
    with False ceil show ?thesis unfolding t by (auto simp: poll_timeout_def min_def)
  qed
qed

theorem poll_timeout_bounds_witness:
  "poll_timeout (Some 2500001) 1000000 = Some 2 \<and> 0 < (2::int) \<and> 2 \<le> INT_MAX \<and>
   (2 - 1) * 1000000 < (2500001 - 1000000 :: int) \<and> (2500001 - 1000000 :: int) \<le> 2 * 1000000"
proof -
  have t: "poll_timeout (Some 2500001) 1000000 = Some 2" by (simp add: poll_timeout_def INT_MAX_def)
  have i: "(2::int) < INT_MAX" by (simp add: INT_MAX_def)
  show ?thesis using poll_timeout_bounds [of 1000000 2500001] t i by blast
qed

end
