(* ===== verification/Connection.thy ===== *)
theory Connection
  imports Transport Device_Registry Event_Bus
begin

text \<open>
  Sessions: \<open>src/core/networking/connection.{hpp,cpp}\<close>, the connection manager, the packet router
  and its handlers.  The state of the daemon is a record \<open>world\<close>: the connection objects by session
  id, the device registry, the authentication service and its monitor thread, the trust store,
  the event bus and the connection manager's table (a table of weak pointers, so of session ids).  A method of a
  connection takes its session id.  \<open>host\<close> holds what does not change: the JSON library, the local
  device id, and an oracle for the outside world, from which each reading (of the clock, of a
  socket, of the database files) takes the next answer.  Every function runs to its end without
  another thread in between, except that a send can be cut short by a stop request; the locks of
  the source make the authentication commit and each socket write atomic, and a method that is
  not locked is one step here.  Ghost fields of a connection record the bytes it sent and how
  often it shut down and closed its socket.
\<close>

section \<open>State\<close>

datatype Role = Incoming | Outgoing

record Connection =
  c_socket_fd :: int
  c_role :: Role
  c_handshake_deadline :: int
  c_started :: bool
  c_stopping :: bool
  c_cleaned_up :: bool
  c_ready :: bool
  c_peer_preface_received :: bool
  c_local_preface_sent :: bool
  c_peer_hello_received :: bool
  c_authorized_peer :: "AuthorizedPeer option"
  c_record_parser :: parser
  c_wire :: string
  c_shutdowns :: nat
  c_closes :: nat

record io_env =
  io_now :: int
  io_sql :: sql_env
  io_sends :: "send_event list"
  io_polls :: "poll_event list"
  io_recv :: "errno + string"

record host =
  h_json :: json_lib
  h_my_device_id :: string
  h_io :: "nat \<Rightarrow> io_env"

record world =
  w_conns :: "session_id \<rightharpoonup> Connection"
  w_registry :: "Device list"
  w_auth :: SessionAuthentication
  w_store :: TrustStore
  w_monitor :: monitor
  w_events :: "MessageEvent list"
  w_manager :: "session_id list"
  w_next_session_id :: session_id
  w_tick :: nat

definition put_conn :: "session_id \<Rightarrow> Connection \<Rightarrow> world \<Rightarrow> world" where
  "put_conn sid c w = w\<lparr>w_conns := (w_conns w)(sid \<mapsto> c)\<rparr>"

definition alive_of :: "world \<Rightarrow> alive" where
  "alive_of w = (\<lambda>sid. map_option c_stopping (w_conns w sid))"

definition next_io :: "host \<Rightarrow> world \<Rightarrow> io_env \<times> world" where
  "next_io h w = (h_io h (w_tick w), w\<lparr>w_tick := Suc (w_tick w)\<rparr>)"

section \<open>Creation, manager and shutdown\<close>

definition register_connection :: "session_id \<Rightarrow> world \<Rightarrow> world" where
  "register_connection sid w = w\<lparr>w_manager := List.insert sid (w_manager w)\<rparr>"

definition unregister_connection :: "session_id \<Rightarrow> world \<Rightarrow> world" where
  "unregister_connection sid w = w\<lparr>w_manager := removeAll sid (w_manager w)\<rparr>"

text \<open>A lookup drops an entry whose connection object is gone.\<close>

definition find_connection :: "session_id \<Rightarrow> world \<Rightarrow> session_id option \<times> world" where
  "find_connection sid w =
     (if sid \<notin> set (w_manager w) then (None, w)
      else case w_conns w sid of
             Some _ \<Rightarrow> (Some sid, w)
           | None \<Rightarrow> (None, unregister_connection sid w))"

text \<open>The record parser's default limit is the protocol maximum, which its constructor accepts.\<close>

definition new_parser :: parser where
  "new_parser = projr (RecordParser MAX_RECORD_SIZE)"

definition create :: "host \<Rightarrow> int \<Rightarrow> Role \<Rightarrow> world \<Rightarrow> session_id \<times> world" where
  "create h fd role w =
     (case next_io h w of (io, w1) \<Rightarrow>
        let sid = w_next_session_id w1;
            c = \<lparr>c_socket_fd = fd, c_role = role, c_handshake_deadline = io_now io + HANDSHAKE_TIMEOUT,
                 c_started = False, c_stopping = False, c_cleaned_up = False, c_ready = False,
                 c_peer_preface_received = False, c_local_preface_sent = False,
                 c_peer_hello_received = False, c_authorized_peer = None, c_record_parser = new_parser,
                 c_wire = [], c_shutdowns = 0, c_closes = 0\<rparr>
        in (sid, register_connection sid
                   (put_conn sid c (w1\<lparr>w_next_session_id := w_next_session_id w1 + 1\<rparr>))))"

definition request_disconnect :: "session_id \<Rightarrow> world \<Rightarrow> world" where
  "request_disconnect sid w =
     (case w_conns w sid of
        None \<Rightarrow> w
      | Some c \<Rightarrow>
          if c_stopping c then w
          else put_conn sid (c\<lparr>c_stopping := True, c_shutdowns := c_shutdowns c + 1\<rparr>) w)"

definition finalize_disconnect :: "session_id \<Rightarrow> world \<Rightarrow> world" where
  "finalize_disconnect sid w =
     (let w1 = request_disconnect sid w
      in case w_conns w1 sid of
           None \<Rightarrow> w1
         | Some c \<Rightarrow>
             if c_cleaned_up c then w1
             else unregister_connection sid
               (put_conn sid (c\<lparr>c_cleaned_up := True, c_closes := c_closes c + 1\<rparr>)
                 (w1\<lparr>w_auth := unregister_live_session sid (w_auth w1),
                     w_registry := remove_device sid (w_registry w1)\<rparr>)))"

section \<open>Sending\<close>

definition conn_send_all :: "host \<Rightarrow> session_id \<Rightarrow> string \<Rightarrow> world \<Rightarrow> int \<times> world" where
  "conn_send_all h sid data w =
     (case w_conns w sid of
        None \<Rightarrow> (- 1, w)
      | Some c \<Rightarrow>
          (case next_io h w of (io, w1) \<Rightarrow>
             (case send_all (c_ready c) (c_handshake_deadline c) (io_now io)
                     (map (\<lambda>e. e\<lparr>se_stopping := se_stopping e \<or> c_stopping c\<rparr>) (io_sends io)) data of
                (out, r) \<Rightarrow> (r, put_conn sid (c\<lparr>c_wire := c_wire c @ out\<rparr>) w1))))"

definition send_packet_locked :: "host \<Rightarrow> session_id \<Rightarrow> json \<Rightarrow> world \<Rightarrow> (std_error + int) \<times> world" where
  "send_packet_locked h sid packet w =
     (let limit = (if is_control_record packet then MAX_CONTROL_RECORD_SIZE else MAX_RECORD_SIZE)
      in case stream_packet (h_json h) limit packet of
           Inl (LengthError _) \<Rightarrow> (Inr (- 1), w)
         | Inl e \<Rightarrow> (Inl e, w)
         | Inr data \<Rightarrow>
             (case encode_record data of
                Inl e \<Rightarrow> (Inl e, w)
              | Inr wire_record \<Rightarrow>
                  (case value_type packet of
                     Inl e \<Rightarrow> (Inl e, w)
                   | Inr _ \<Rightarrow>
                       (case conn_send_all h sid wire_record w of (r, w1) \<Rightarrow>
                          if r < 0 then (Inr r, request_disconnect sid w1) else (Inr r, w1)))))"

text \<open>\<open>Connection::send_packet\<close>, and the free function that first tests for a null connection.\<close>

definition send_packet :: "host \<Rightarrow> session_id \<Rightarrow> json \<Rightarrow> world \<Rightarrow> (std_error + int) \<times> world" where
  "send_packet h sid packet w =
     (case w_conns w sid of
        None \<Rightarrow> (Inr (- 1), w)
      | Some c \<Rightarrow>
          if c_stopping c \<or> \<not> c_ready c then (Inr (- 1), w)
          else (case c_authorized_peer c of
                  None \<Rightarrow> (Inr (- 1), w)
                | Some p \<Rightarrow>
                    if is_control_record packet then send_packet_locked h sid packet w
                    else (case next_io h w of (io, w1) \<Rightarrow>
                            if \<not> authorization_is_current (io_sql io) (w_store w1) p
                            then (Inr (- 1), request_disconnect sid w1)
                            else send_packet_locked h sid packet w1)))"

text \<open>The packet is built member by member on a JSON null, so its members end up in key order.\<close>

definition hello_packet :: "string \<Rightarrow> json" where
  "hello_packet my_id =
     JObject (object_insert ''payload''
       (JObject (object_insert ''device_type'' (JString ''linux'')
         (object_insert ''device_name'' (JString ''Gasoline'') [])))
       (object_insert ''device_id'' (JString my_id) (object_insert ''type'' (JString ''hello'') [])))"

definition send_initial_hello :: "host \<Rightarrow> session_id \<Rightarrow> world \<Rightarrow> (std_error + int) \<times> world" where
  "send_initial_hello h sid w =
     (case w_conns w sid of
        None \<Rightarrow> (Inr (- 1), w)
      | Some c \<Rightarrow>
          if c_stopping c \<or> \<not> c_local_preface_sent c then (Inr (- 1), w)
          else send_packet_locked h sid (hello_packet (h_my_device_id h)) w)"

definition send_preface :: "host \<Rightarrow> session_id \<Rightarrow> world \<Rightarrow> int \<times> world" where
  "send_preface h sid w =
     (case w_conns w sid of
        None \<Rightarrow> (- 1, w)
      | Some c \<Rightarrow>
          if c_stopping c then (- 1, w)
          else if c_local_preface_sent c then (0, w)
          else (case conn_send_all h sid preface_bytes w of (r, w1) \<Rightarrow>
                  if r < 0 then (- 1, request_disconnect sid w1)
                  else (case w_conns w1 sid of
                          None \<Rightarrow> (r, w1)
                        | Some c1 \<Rightarrow> (r, put_conn sid (c1\<lparr>c_local_preface_sent := True\<rparr>) w1))))"

definition is_stopping :: "session_id \<Rightarrow> world \<Rightarrow> bool" where
  "is_stopping sid w = (case w_conns w sid of None \<Rightarrow> True | Some c \<Rightarrow> c_stopping c)"

definition accept_peer_preface :: "host \<Rightarrow> session_id \<Rightarrow> world \<Rightarrow> (std_error + bool) \<times> world" where
  "accept_peer_preface h sid w =
     (case w_conns w sid of
        None \<Rightarrow> (Inr False, w)
      | Some c \<Rightarrow>
          if c_peer_preface_received c then (Inr (\<not> c_stopping c), w)
          else (case send_initial_hello h sid (put_conn sid (c\<lparr>c_peer_preface_received := True\<rparr>) w) of
                  (Inl e, w1) \<Rightarrow> (Inl e, w1)
                | (Inr r, w1) \<Rightarrow>
                    (let w2 = (if r < 0 then request_disconnect sid w1 else w1)
                     in (Inr (\<not> is_stopping sid w2), w2))))"

section \<open>Authentication\<close>

definition authorize_verified_identity ::
  "host \<Rightarrow> session_id \<Rightarrow> VerifiedPeerIdentity \<Rightarrow> world \<Rightarrow>
   (TrustStoreError + AuthorizedPeer option) \<times> world" where
  "authorize_verified_identity h sid identity w =
     (case w_conns w sid of
        None \<Rightarrow> (Inr None, w)
      | Some c \<Rightarrow>
          (case next_io h w of (io, w1) \<Rightarrow>
             if c_stopping c \<or> c_ready c \<or> io_now io \<ge> c_handshake_deadline c then (Inr None, w1)
             else (case authorize_verified_peer (io_sql io) (w_store w1) identity of
                     Inl e \<Rightarrow> (Inl e, w1)
                   | Inr None \<Rightarrow> (Inr None, w1)
                   | Inr (Some p) \<Rightarrow>
                       if ap_device_id p = h_my_device_id h then (Inr None, w1) else (Inr (Some p), w1))))"

definition session_device :: "host \<Rightarrow> session_id \<Rightarrow> Connection \<Rightarrow> AuthorizedPeer \<Rightarrow> string \<Rightarrow> string \<Rightarrow> Device" where
  "session_device h sid c p device_name device_type =
     \<lparr>dev_device_id = ap_device_id p, dev_device_name = device_name, dev_device_type = device_type,
      dev_socket_fd = c_socket_fd c, dev_session_id = sid, dev_connection = Some sid,
      dev_preferred_connection = preferred_direction (h_my_device_id h) (ap_device_id p) (c_role c = Outgoing),
      dev_state = AUTHENTICATED, dev_public_key = ap_public_key p, dev_trust_revision = ap_revision p,
      dev_permissions = ap_permissions p\<rparr>"

text \<open>\<open>Connection::activate_authorized_peer\<close>: the second clock reading is under the locks.\<close>

definition activate_authorized_peer ::
  "host \<Rightarrow> session_id \<Rightarrow> AuthorizedPeer \<Rightarrow> string \<Rightarrow> string \<Rightarrow> world \<Rightarrow> bool \<times> world" where
  "activate_authorized_peer h sid p device_name device_type w =
     (case w_conns w sid of
        None \<Rightarrow> (False, w)
      | Some c \<Rightarrow>
          (case next_io h w of (io, w1) \<Rightarrow>
             if c_stopping c \<or> c_ready c \<or> io_now io \<ge> c_handshake_deadline c then (False, w1)
             else (case next_io h w1 of (io2, w2) \<Rightarrow>
               if c_stopping c \<or> c_ready c \<or> io_now io2 \<ge> c_handshake_deadline c then (False, w2)
               else (case register_live_session (io_sql io2) (w_store w2) sid p (Some sid) (w_auth w2) of
                 (False, auth) \<Rightarrow> (False, w2\<lparr>w_auth := auth\<rparr>)
               | (True, auth) \<Rightarrow>
                   (case publish_authenticated_device (alive_of w2)
                           (session_device h sid c p device_name device_type) p (w_registry w2) of
                      (result, registry) \<Rightarrow>
                        if \<not> rr_accepted result
                        then (False, w2\<lparr>w_auth := unregister_live_session sid auth, w_registry := registry\<rparr>)
                        else let w3 = put_conn sid (c\<lparr>c_authorized_peer := Some p, c_ready := True\<rparr>)
                                        (w2\<lparr>w_auth := auth, w_registry := registry\<rparr>)
                             in (True, case rr_replaced_device result of
                                         None \<Rightarrow> w3
                                       | Some d \<Rightarrow> (case dev_connection d of
                                                      None \<Rightarrow> w3
                                                    | Some old \<Rightarrow> request_disconnect old w3)))))))"

definition complete_authentication_after_verified_identity ::
  "host \<Rightarrow> session_id \<Rightarrow> VerifiedPeerIdentity \<Rightarrow> string \<Rightarrow> string \<Rightarrow> world \<Rightarrow>
   (TrustStoreError + bool) \<times> world" where
  "complete_authentication_after_verified_identity h sid identity device_name device_type w =
     (case authorize_verified_identity h sid identity w of
        (Inl e, w1) \<Rightarrow> (Inl e, w1)
      | (Inr None, w1) \<Rightarrow> (Inr False, w1)
      | (Inr (Some p), w1) \<Rightarrow>
          (case activate_authorized_peer h sid p device_name device_type w1 of (b, w2) \<Rightarrow> (Inr b, w2)))"

section \<open>Handlers and router\<close>

datatype HelloAction = HelloContinue | HelloDisconnectCurrent | HelloDisconnectPeer

definition hello_handle :: "Packet \<Rightarrow> HelloAction" where
  "hello_handle pkt =
     (if pkt_type pkt \<noteq> ''hello'' \<or> \<not> is_object (pkt_payload pkt) then HelloDisconnectCurrent
      else case (json_find ''device_name'' (pkt_payload pkt), json_find ''device_type'' (pkt_payload pkt)) of
             (Some (JString _), Some (JString _)) \<Rightarrow>
               if pkt_device_id pkt = [] then HelloDisconnectCurrent else HelloContinue
           | _ \<Rightarrow> HelloDisconnectCurrent)"

definition pong_packet :: "string \<Rightarrow> json" where
  "pong_packet my_id =
     JObject (object_insert ''device_id'' (JString my_id) (object_insert ''type'' (JString ''pong'') []))"

definition ping_handle :: "host \<Rightarrow> session_id \<Rightarrow> world \<Rightarrow> (std_error + unit) \<times> world" where
  "ping_handle h sid w =
     (case send_packet h sid (pong_packet (h_my_device_id h)) w of
        (Inl e, w1) \<Rightarrow> (Inl e, w1)
      | (Inr _, w1) \<Rightarrow> (Inr (), w1))"

definition message_handle :: "Packet \<Rightarrow> AuthorizedPeer \<Rightarrow> world \<Rightarrow> (std_error + unit) \<times> world" where
  "message_handle pkt p w =
     (case json_find ''text'' (pkt_payload pkt) of
        None \<Rightarrow> (Inr (), w)
      | Some v \<Rightarrow>
          (case json_get_string v of
             Inl e \<Rightarrow> (Inl e, w)
           | Inr msg \<Rightarrow> (Inr (), w\<lparr>w_events := emit_message (ap_device_id p) msg (w_events w)\<rparr>)))"

datatype PacketRouteAction = RouteContinue | RouteDisconnect | RouteDisconnectPeer

definition route ::
  "host \<Rightarrow> Packet \<Rightarrow> session_id \<Rightarrow> AuthorizedPeer option \<Rightarrow> world \<Rightarrow>
   (std_error + PacketRouteAction) \<times> world" where
  "route h pkt sid authenticated_peer w =
     (if pkt_type pkt = ''hello'' then
        (case hello_handle pkt of
           HelloDisconnectCurrent \<Rightarrow> (Inr RouteDisconnect, w)
         | HelloDisconnectPeer \<Rightarrow> (Inr RouteDisconnectPeer, w)
         | HelloContinue \<Rightarrow> (Inr RouteContinue, w))
      else if pkt_type pkt = ''ping'' then
        (case ping_handle h sid w of
           (Inl e, w1) \<Rightarrow> (Inl e, w1)
         | (Inr _, w1) \<Rightarrow> (Inr RouteContinue, w1))
      else if pkt_type pkt = ''pong'' then (Inr RouteContinue, w)
      else if pkt_type pkt = ''message'' then
        (case authenticated_peer of
           None \<Rightarrow> (Inr RouteDisconnect, w)
         | Some p \<Rightarrow>
             (case message_handle pkt p w of
                (Inl e, w1) \<Rightarrow> (Inl e, w1)
              | (Inr _, w1) \<Rightarrow> (Inr RouteContinue, w1)))
      else (Inr RouteContinue, w))"

section \<open>Receiving\<close>

text \<open>
  The body of the \<open>try\<close> block: \<open>Inl\<close> is an exception, which the caller turns into a disconnect.
\<close>

definition process_packet ::
  "host \<Rightarrow> session_id \<Rightarrow> Connection \<Rightarrow> string \<Rightarrow> Packet \<Rightarrow> world \<Rightarrow> (std_error + bool) \<times> world" where
  "process_packet h sid c body pkt w =
     (if is_control_packet pkt \<and> length body > MAX_CONTROL_RECORD_SIZE
      then (Inr False, request_disconnect sid w)
      else if \<not> c_ready c then
        if pkt_type pkt \<noteq> ''hello'' \<or> c_peer_hello_received c then (Inr False, request_disconnect sid w)
        else (case route h pkt sid None w of
                (Inl e, w1) \<Rightarrow> (Inl e, w1)
              | (Inr RouteDisconnect, w1) \<Rightarrow> (Inr False, request_disconnect sid w1)
              | (Inr _, w1) \<Rightarrow>
                  (case w_conns w1 sid of
                     None \<Rightarrow> (Inr False, w1)
                   | Some c1 \<Rightarrow>
                       (Inr (\<not> c_stopping c1), put_conn sid (c1\<lparr>c_peer_hello_received := True\<rparr>) w1)))
      else case c_authorized_peer c of
        None \<Rightarrow> (Inr False, request_disconnect sid w)
      | Some p \<Rightarrow>
          if pkt_type pkt = ''hello'' then (Inr False, request_disconnect sid w)
          else (case next_io h w of (io, w1) \<Rightarrow>
            if \<not> is_control_packet pkt \<and> \<not> authorization_is_current (io_sql io) (w_store w1) p
            then (Inr False, request_disconnect sid w1)
            else (case route h pkt sid (Some p) w1 of
                    (Inl e, w2) \<Rightarrow> (Inl e, w2)
                  | (Inr RouteDisconnect, w2) \<Rightarrow> (Inr False, request_disconnect sid w2)
                  | (Inr _, w2) \<Rightarrow> (Inr (\<not> is_stopping sid w2), w2))))"

definition handle_record :: "host \<Rightarrow> session_id \<Rightarrow> string \<Rightarrow> world \<Rightarrow> bool \<times> world" where
  "handle_record h sid body w =
     (case w_conns w sid of
        None \<Rightarrow> (False, w)
      | Some c \<Rightarrow>
          if c_stopping c then (False, w)
          else (case next_io h w of (io, w1) \<Rightarrow>
            if \<not> c_ready c \<and> io_now io \<ge> c_handshake_deadline c then (False, request_disconnect sid w1)
            else if \<not> c_ready c \<and> \<not> c_peer_hello_received c \<and> length body > MAX_CONTROL_RECORD_SIZE
            then (False, request_disconnect sid w1)
            else (case parse_packet (h_json h) body of
                    Inl e \<Rightarrow> (False, request_disconnect sid w1)
                  | Inr pkt \<Rightarrow>
                      (case process_packet h sid c body pkt w1 of
                         (Inl e, w2) \<Rightarrow> (False, request_disconnect sid w2)
                       | (Inr b, w2) \<Rightarrow> (b, w2)))))"

text \<open>The callback given to the record parser.\<close>

definition record_handler :: "host \<Rightarrow> session_id \<Rightarrow> (world, std_error) RecordHandler" where
  "record_handler h sid w body =
     (case accept_peer_preface h sid w of
        (Inl e, w1) \<Rightarrow> (Inl e, w1)
      | (Inr ok, w1) \<Rightarrow>
          if ok then (case handle_record h sid body w1 of (b, w2) \<Rightarrow> (Inr b, w2)) else (Inr False, w1))"

datatype recv_outcome = RecvContinue | RecvBreak | RecvThrow std_error

text \<open>
  What one received chunk does: the parser runs with the callback above and is stored back.  The
  parser always returns (\<open>consume\<close> is total), so the last branch is never taken.
\<close>

definition receive_chunk :: "host \<Rightarrow> session_id \<Rightarrow> string \<Rightarrow> world \<Rightarrow> recv_outcome \<times> world" where
  "receive_chunk h sid bytes w =
     (case w_conns w sid of
        None \<Rightarrow> (RecvBreak, w)
      | Some c \<Rightarrow>
          (case consume (record_handler h sid) (c_record_parser c) w bytes of
             Some (res, p1, w1) \<Rightarrow>
               (let w2 = (case w_conns w1 sid of
                            None \<Rightarrow> w1 | Some c1 \<Rightarrow> put_conn sid (c1\<lparr>c_record_parser := p1\<rparr>) w1)
                in case res of
                     HandlerThrew e \<Rightarrow> (RecvThrow e, w2)
                   | Threw code \<Rightarrow> (RecvContinue, request_disconnect sid w2)
                   | Returned _ \<Rightarrow>
                       if preface_complete p1 \<and> \<not> is_stopping sid w2
                       then (case accept_peer_preface h sid w2 of
                               (Inl e, w3) \<Rightarrow> (RecvThrow e, w3)
                             | (Inr _, w3) \<Rightarrow> (RecvContinue, w3))
                       else (RecvContinue, w2))
           | None \<Rightarrow> (RecvContinue, w)))"

text \<open>End of stream: the parser decides only what is logged; either way the session stops.\<close>

definition receive_eof :: "session_id \<Rightarrow> world \<Rightarrow> recv_outcome \<times> world" where
  "receive_eof sid w =
     (case w_conns w sid of
        None \<Rightarrow> (RecvBreak, w)
      | Some c \<Rightarrow>
          (case finish (c_record_parser c) of (_, p1) \<Rightarrow>
             (RecvBreak, request_disconnect sid (put_conn sid (c\<lparr>c_record_parser := p1\<rparr>) w))))"

text \<open>One iteration of \<open>Connection::receive_loop\<close>; a poll that never returns leaves the state as it is.\<close>

definition receive_step :: "host \<Rightarrow> session_id \<Rightarrow> world \<Rightarrow> recv_outcome \<times> world" where
  "receive_step h sid w =
     (case w_conns w sid of
        None \<Rightarrow> (RecvBreak, w)
      | Some c \<Rightarrow>
          if c_stopping c then (RecvBreak, w)
          else (case next_io h w of (io, w1) \<Rightarrow>
            (case wait_for_socket (if c_ready c then None else Some (c_handshake_deadline c)) (io_polls io) of
               None \<Rightarrow> (RecvContinue, w1)
             | Some r \<Rightarrow>
                 if r \<le> 0 then (RecvBreak, request_disconnect sid w1)
                 else (case io_recv io of
                         Inl EOTHER \<Rightarrow> (RecvBreak, request_disconnect sid w1)
                       | Inl _ \<Rightarrow> (RecvContinue, w1)
                       | Inr [] \<Rightarrow> receive_eof sid w1
                       | Inr (b # bs) \<Rightarrow> receive_chunk h sid (take 4096 (b # bs)) w1))))"

text \<open>
  The loop takes a bound on its iterations and returns no result if that runs out while the
  session is still receiving.
\<close>

fun receive_loop :: "host \<Rightarrow> session_id \<Rightarrow> nat \<Rightarrow> world \<Rightarrow> (std_error + unit) option \<times> world" where
  "receive_loop h sid 0 w = (None, w)"
| "receive_loop h sid (Suc n) w =
     (case receive_step h sid w of
        (RecvContinue, w1) \<Rightarrow> receive_loop h sid n w1
      | (RecvBreak, w1) \<Rightarrow> (Some (Inr ()), w1)
      | (RecvThrow e, w1) \<Rightarrow> (Some (Inl e), w1))"

text \<open>The body of the worker thread: an exception of the loop is logged, then the session is cleaned up.\<close>

definition session_worker :: "host \<Rightarrow> session_id \<Rightarrow> nat \<Rightarrow> world \<Rightarrow> unit option \<times> world" where
  "session_worker h sid n w =
     (case send_preface h sid w of (r, w1) \<Rightarrow>
        if r \<ge> 0
        then (case receive_loop h sid n w1 of
                (None, w2) \<Rightarrow> (None, w2)
              | (Some _, w2) \<Rightarrow> (Some (), finalize_disconnect sid w2))
        else (Some (), finalize_disconnect sid w1))"

text \<open>
  \<open>Connection::start\<close>: \<open>thread_ok\<close> tells whether the worker thread could be created.  \<open>begin_start\<close> is
  what the caller does, and says whether a worker now runs; \<open>start\<close> runs the worker to its end.
\<close>

definition begin_start :: "session_id \<Rightarrow> bool \<Rightarrow> world \<Rightarrow> bool \<times> world" where
  "begin_start sid thread_ok w =
     (case w_conns w sid of
        None \<Rightarrow> (False, w)
      | Some c \<Rightarrow>
          if c_started c then (False, w)
          else let w1 = put_conn sid (c\<lparr>c_started := True\<rparr>) w
               in if thread_ok then (True, w1) else (False, finalize_disconnect sid w1))"

definition start :: "host \<Rightarrow> session_id \<Rightarrow> bool \<Rightarrow> nat \<Rightarrow> world \<Rightarrow> unit option \<times> world" where
  "start h sid thread_ok n w =
     (case begin_start sid thread_ok w of
        (True, w1) \<Rightarrow> session_worker h sid n w1
      | (False, w1) \<Rightarrow> (Some (), w1))"

section \<open>Message service\<close>

definition build_message_packet :: "string \<Rightarrow> string \<Rightarrow> json" where
  "build_message_packet my_id text =
     JObject (object_insert ''payload'' (JObject (object_insert ''text'' (JString text) []))
       (object_insert ''device_id'' (JString my_id) (object_insert ''type'' (JString ''message'') [])))"

fun send_to_first :: "host \<Rightarrow> string \<Rightarrow> json \<Rightarrow> Device list \<Rightarrow> world \<Rightarrow> (std_error + unit) \<times> world" where
  "send_to_first h device_id pkt [] w = (Inr (), w)"
| "send_to_first h device_id pkt (device # devices) w =
     (if dev_device_id device \<noteq> device_id then send_to_first h device_id pkt devices w
      else case dev_connection device of
             None \<Rightarrow> (Inr (), w)
           | Some sid \<Rightarrow>
               if w_conns w sid = None \<or> dev_state device \<noteq> READY then (Inr (), w)
               else (case send_packet h sid pkt w of
                       (Inl e, w1) \<Rightarrow> (Inl e, w1)
                     | (Inr _, w1) \<Rightarrow> (Inr (), w1)))"

definition send_to_device :: "host \<Rightarrow> string \<Rightarrow> string \<Rightarrow> world \<Rightarrow> (std_error + unit) \<times> world" where
  "send_to_device h device_id text w =
     (if text = [] then (Inr (), w)
      else send_to_first h device_id (build_message_packet (h_my_device_id h) text)
             (get_devices_copy (w_registry w)) w)"

fun send_to_each :: "host \<Rightarrow> json \<Rightarrow> Device list \<Rightarrow> world \<Rightarrow> (std_error + unit) \<times> world" where
  "send_to_each h pkt [] w = (Inr (), w)"
| "send_to_each h pkt (device # devices) w =
     (case dev_connection device of
        None \<Rightarrow> send_to_each h pkt devices w
      | Some sid \<Rightarrow>
          if w_conns w sid = None \<or> dev_state device \<noteq> READY \<or> dev_device_id device = h_my_device_id h
          then send_to_each h pkt devices w
          else (case send_packet h sid pkt w of
                  (Inl e, w1) \<Rightarrow> (Inl e, w1)
                | (Inr _, w1) \<Rightarrow> send_to_each h pkt devices w1))"

definition broadcast_message :: "host \<Rightarrow> string \<Rightarrow> world \<Rightarrow> (std_error + unit) \<times> world" where
  "broadcast_message h text w =
     (if text = [] then (Inr (), w)
      else send_to_each h (build_message_packet (h_my_device_id h) text) (get_devices_copy (w_registry w)) w)"

end
