(* ===== verification/Session_Safety.thy ===== *)
theory Session_Safety
  imports Connection
begin

text \<open>
  Safety of sessions.  \<open>conn_wf\<close> is the invariant of one connection: its parser is well formed, it
  is ready exactly when it holds an authorized peer, what it has sent is the preface and whole
  records (cut short only if it is stopping), and its socket is shut down and closed at most
  once.  \<open>quiet\<close> says that a step touched nothing but one connection, the clock and the event
  bus; sending and receiving are quiet, the latter through the parser's contract with its
  handler.  \<open>world_inv\<close> relates the registry and the live authorizations to the connections.
\<close>

section \<open>Invariant of a connection\<close>

text \<open>What may have been sent, given whether the preface is out and whether the session is stopping.\<close>

definition sent_ok :: "bool \<Rightarrow> bool \<Rightarrow> string \<Rightarrow> bool" where
  "sent_ok preface stopping bytes \<longleftrightarrow>
     (if preface
      then \<exists>rs tail. bytes = preface_bytes @ concat (map wire rs) @ tail \<and>
             (\<forall>r \<in> set rs. length r \<le> MAX_RECORD_SIZE) \<and>
             (tail \<noteq> [] \<longrightarrow> stopping \<and> (\<exists>r. length r \<le> MAX_RECORD_SIZE \<and> strict_prefix tail (wire r)))
      else bytes = [] \<or> stopping \<and> strict_prefix bytes preface_bytes)"

abbreviation wire_ok :: "Connection \<Rightarrow> bool" where
  "wire_ok c \<equiv> sent_ok (c_local_preface_sent c) (c_stopping c) (c_wire c)"

definition conn_wf :: "Connection \<Rightarrow> bool" where
  "conn_wf c \<longleftrightarrow>
     wf_parser (c_record_parser c) \<and> (c_ready c \<longleftrightarrow> c_authorized_peer c \<noteq> None) \<and>
     (c_ready c \<longrightarrow> c_local_preface_sent c) \<and> wire_ok c \<and>
     c_shutdowns c = (if c_stopping c then 1 else 0) \<and> c_closes c = (if c_cleaned_up c then 1 else 0) \<and>
     (c_cleaned_up c \<longrightarrow> c_stopping c)"

text \<open>What no send or receive changes about a connection.\<close>

definition stable :: "Connection \<Rightarrow> Connection \<Rightarrow> bool" where
  "stable c c1 \<longleftrightarrow> c_ready c1 = c_ready c \<and> c_authorized_peer c1 = c_authorized_peer c \<and>
     c_cleaned_up c1 = c_cleaned_up c \<and> c_handshake_deadline c1 = c_handshake_deadline c \<and>
     c_started c1 = c_started c \<and> (c_stopping c \<longrightarrow> c_stopping c1) \<and>
     (c_local_preface_sent c \<longrightarrow> c_local_preface_sent c1)"

definition quiet :: "session_id \<Rightarrow> world \<Rightarrow> world \<Rightarrow> bool" where
  "quiet sid w w1 \<longleftrightarrow>
     w_tick w \<le> w_tick w1 \<and> w_registry w1 = w_registry w \<and> w_auth w1 = w_auth w \<and> w_store w1 = w_store w \<and>
     w_monitor w1 = w_monitor w \<and> w_manager w1 = w_manager w \<and> w_next_session_id w1 = w_next_session_id w \<and>
     (\<forall>s. s \<noteq> sid \<longrightarrow> w_conns w1 s = w_conns w s) \<and>
     (case w_conns w sid of
        None \<Rightarrow> w_conns w1 sid = None
      | Some c \<Rightarrow> \<exists>c1. w_conns w1 sid = Some c1 \<and> stable c c1 \<and> (conn_wf c \<longrightarrow> conn_wf c1))"

lemma stable_refl [simp]: "stable c c"
  by (simp add: stable_def)

lemma stable_trans: "stable c c1 \<Longrightarrow> stable c1 c2 \<Longrightarrow> stable c c2"
  by (auto simp: stable_def)

lemma quiet_refl [simp]: "quiet sid w w"
  by (simp add: quiet_def split: option.split)

lemma quiet_trans: "quiet sid w w1 \<Longrightarrow> quiet sid w1 w2 \<Longrightarrow> quiet sid w w2"
  by (auto simp: quiet_def split: option.splits intro: stable_trans)

lemma quiet_tick [simp]: "quiet sid w (w\<lparr>w_tick := Suc (w_tick w)\<rparr>)" "quiet sid w (w\<lparr>w_events := es\<rparr>)"
  by (simp_all add: quiet_def split: option.split)

lemma quiet_put:
  "\<lbrakk>w_conns w sid = Some c; stable c c1; conn_wf c \<Longrightarrow> conn_wf c1\<rbrakk> \<Longrightarrow> quiet sid w (put_conn sid c1 w)"
  by (auto simp: quiet_def put_conn_def)

lemma put_conn_simps [simp]:
  "w_conns (put_conn sid c w) sid = Some c" "s \<noteq> sid \<Longrightarrow> w_conns (put_conn sid c w) s = w_conns w s"
  "w_tick (put_conn sid c w) = w_tick w" "w_store (put_conn sid c w) = w_store w"
  "w_registry (put_conn sid c w) = w_registry w" "w_monitor (put_conn sid c w) = w_monitor w" "w_auth (put_conn sid c w) = w_auth w"
  "w_events (put_conn sid c w) = w_events w" "w_manager (put_conn sid c w) = w_manager w"
  "put_conn sid c2 (put_conn sid c w) = put_conn sid c2 w"
  by (simp_all add: put_conn_def)

text \<open>Stopping a connection, whatever it had sent.\<close>

lemma sent_ok_stop: "sent_ok preface stopping bytes \<Longrightarrow> sent_ok preface True bytes"
  unfolding sent_ok_def by (auto split: if_splits)

lemma conn_wf_stop:
  assumes "conn_wf c" and "\<not> c_stopping c"
  shows "conn_wf (c\<lparr>c_stopping := True, c_shutdowns := Suc (c_shutdowns c)\<rparr>)"
  using assms sent_ok_stop by (auto simp: conn_wf_def)

lemma request_disconnect_quiet [simp]: "quiet sid w (request_disconnect sid w)"
  by (cases "w_conns w sid")
    (auto simp: request_disconnect_def stable_def intro!: quiet_put conn_wf_stop)

lemma quiet_disconnect: "quiet sid w w1 \<Longrightarrow> quiet sid w (request_disconnect sid w1)"
  by (rule quiet_trans [OF _ request_disconnect_quiet])

section \<open>Sending\<close>

lemma send_all_cases:
  assumes "send_all ready dl now es data = (out, r)"
  shows "r = int (length data) \<and> out = data \<or> r = - 1 \<and> strict_prefix out data"
proof -
  from assms obtain n where n: "n \<le> length data" "out = take n data"
    "r = - 1 \<and> n < length data \<or> r = int (length data) \<and> n = length data"
    using send_loop_spec [of _ data 0 es out r] by (auto simp: send_all_def)
  then show ?thesis
    by (auto simp: strict_prefix_def take_is_prefix)
qed

text \<open>One socket write: either all of the data went out, or a proper prefix and the result is -1.\<close>

lemma conn_send_all_cases:
  assumes "conn_send_all h sid data w = (r, w1)" and "w_conns w sid = Some c"
  shows "\<exists>out. w1 = put_conn sid (c\<lparr>c_wire := c_wire c @ out\<rparr>) (w\<lparr>w_tick := Suc (w_tick w)\<rparr>) \<and>
    (r \<ge> 0 \<and> out = data \<or> r < 0 \<and> strict_prefix out data)"
proof -
  obtain out r1 where s: "send_all (c_ready c) (c_handshake_deadline c) (io_now (h_io h (w_tick w)))
      (map (\<lambda>e. e\<lparr>se_stopping := se_stopping e \<or> c_stopping c\<rparr>) (io_sends (h_io h (w_tick w)))) data = (out, r1)"
    by fastforce
  with assms have "r = r1" "w1 = put_conn sid (c\<lparr>c_wire := c_wire c @ out\<rparr>) (w\<lparr>w_tick := Suc (w_tick w)\<rparr>)"
    by (auto simp: conn_send_all_def next_io_def)
  with send_all_cases [OF s] show ?thesis by auto
qed

lemma sent_ok_record:
  assumes "sent_ok True False bytes" and "length r \<le> MAX_RECORD_SIZE"
  shows "sent_ok True False (bytes @ wire r)"
    and "strict_prefix out (wire r) \<Longrightarrow> sent_ok True True (bytes @ out)"
proof -
  from assms(1) obtain rs where rs: "bytes = preface_bytes @ concat (map wire rs)"
    "\<forall>r \<in> set rs. length r \<le> MAX_RECORD_SIZE" by (auto simp: sent_ok_def)
  show "sent_ok True False (bytes @ wire r)"
    unfolding sent_ok_def using rs assms(2)
    by (simp, intro exI [of _ "rs @ [r]"] exI [of _ "[]"]) simp
  show "sent_ok True True (bytes @ out)" if "strict_prefix out (wire r)"
    unfolding sent_ok_def using rs assms(2) that
    by (simp, intro exI [of _ rs] exI [of _ out]) auto
qed

lemma encode_record_wire:
  assumes "encode_record data = Inr x" shows "length data \<le> MAX_RECORD_SIZE \<and> x = wire data"
proof (cases "length data \<le> MAX_RECORD_SIZE")
  case True
  with assms encode_record_eq [OF True] show ?thesis by (simp add: wire_def)
qed (use assms in \<open>simp add: encode_record_def\<close>)

text \<open>A record is sent whole, or the connection stops.\<close>

lemma write_record_quiet:
  assumes "w_conns w sid = Some c" and "\<not> c_stopping c" and "conn_wf c \<Longrightarrow> c_local_preface_sent c"
    and "encode_record data = Inr x" and "conn_send_all h sid x w = (r, w1)"
  shows "quiet sid w (if r < 0 then request_disconnect sid w1 else w1)"
proof -
  from conn_send_all_cases [OF assms(5,1)] obtain out where
    w1: "w1 = put_conn sid (c\<lparr>c_wire := c_wire c @ out\<rparr>) (w\<lparr>w_tick := Suc (w_tick w)\<rparr>)"
    and out: "r \<ge> 0 \<and> out = x \<or> r < 0 \<and> strict_prefix out x" by blast
  note len = encode_record_wire [OF assms(4)]
  let ?w = "w\<lparr>w_tick := Suc (w_tick w)\<rparr>"
  have c: "w_conns ?w sid = Some c" using assms(1) by simp
  have sent: "sent_ok True False (c_wire c)" if "conn_wf c"
    using that assms(2) assms(3) [OF that] by (simp add: conn_wf_def)
  have "quiet sid ?w (if r < 0 then request_disconnect sid w1 else w1)"
  proof (cases "r < 0")
    case True
    let ?c = "c\<lparr>c_wire := c_wire c @ out, c_stopping := True, c_shutdowns := Suc (c_shutdowns c)\<rparr>"
    have "conn_wf ?c" if "conn_wf c"
    proof -
      have sp: "strict_prefix out (wire data)" using out True len by auto
      have "sent_ok True True (c_wire c @ out)"
        by (rule sent_ok_record(2) [OF sent [OF that] conjunct1 [OF len] sp])
      with that assms(3) [OF that] show ?thesis using assms(2) by (auto simp: conn_wf_def)
    qed
    then have "quiet sid ?w (put_conn sid ?c ?w)"
      by (intro quiet_put [OF c]) (auto simp: stable_def)
    with True show ?thesis using assms(2) by (simp add: w1 request_disconnect_def)
  next
    case False
    have "conn_wf (c\<lparr>c_wire := c_wire c @ out\<rparr>)" if "conn_wf c"
    proof -
      have "out = wire data" using out False len by auto
      with sent_ok_record(1) [OF sent [OF that] conjunct1 [OF len]]
      have "sent_ok True False (c_wire c @ out)" by simp
      with that assms(3) [OF that] show ?thesis using assms(2) by (auto simp: conn_wf_def)
    qed
    then have "quiet sid ?w (put_conn sid (c\<lparr>c_wire := c_wire c @ out\<rparr>) ?w)"
      by (intro quiet_put [OF c]) (auto simp: stable_def)
    with False show ?thesis by (simp add: w1)
  qed
  then show ?thesis by (rule quiet_trans [OF quiet_tick(1)])
qed

lemma send_packet_locked_quiet:
  assumes "w_conns w sid = Some c" and "\<not> c_stopping c" and "conn_wf c \<Longrightarrow> c_local_preface_sent c"
  shows "quiet sid w (snd (send_packet_locked h sid packet w))"
proof (cases "stream_packet (h_json h) (if is_control_record packet then MAX_CONTROL_RECORD_SIZE else MAX_RECORD_SIZE) packet")
  case (Inl e)
  then show ?thesis by (cases e) (simp_all add: send_packet_locked_def)
next
  case data: (Inr data)
  show ?thesis
  proof (cases "encode_record data")
    case (Inl e)
    with data show ?thesis by (simp add: send_packet_locked_def)
  next
    case x: (Inr x)
    obtain r w1 where s: "conn_send_all h sid x w = (r, w1)" by fastforce
    show ?thesis
    proof (cases "value_type packet")
      case (Inl e)
      with data x show ?thesis by (simp add: send_packet_locked_def)
    next
      case (Inr t)
      with data x s write_record_quiet [OF assms x s] show ?thesis
        by (simp add: send_packet_locked_def split: if_splits)
    qed
  qed
qed

lemma send_packet_quiet: "quiet sid w (snd (send_packet h sid packet w))"
proof (cases "w_conns w sid")
  case (Some c)
  show ?thesis
  proof (cases "c_stopping c \<or> \<not> c_ready c \<or> c_authorized_peer c = None")
    case True
    with Some show ?thesis by (auto simp: send_packet_def split: option.split)
  next
    case False
    then obtain p where p: "c_authorized_peer c = Some p" "\<not> c_stopping c" "c_ready c" by auto
    let ?w = "w\<lparr>w_tick := Suc (w_tick w)\<rparr>"
    have "quiet sid w (snd (send_packet_locked h sid packet w))"
      by (rule send_packet_locked_quiet [OF Some]) (use p in \<open>auto simp: conn_wf_def\<close>)
    moreover have "quiet sid ?w (snd (send_packet_locked h sid packet ?w))"
      by (rule send_packet_locked_quiet [of _ _ c]) (use Some p in \<open>auto simp: conn_wf_def\<close>)
    then have "quiet sid w (snd (send_packet_locked h sid packet ?w))"
      by (rule quiet_trans [OF quiet_tick(1)])
    moreover have "quiet sid w (request_disconnect sid ?w)"
      by (rule quiet_disconnect [OF quiet_tick(1)])
    ultimately show ?thesis using Some p by (simp add: send_packet_def next_io_def)
  qed
qed (simp add: send_packet_def)

lemma send_initial_hello_quiet: "quiet sid w (snd (send_initial_hello h sid w))"
proof (cases "w_conns w sid")
  case (Some c)
  show ?thesis
  proof (cases "c_stopping c \<or> \<not> c_local_preface_sent c")
    case False
    then have "quiet sid w (snd (send_packet_locked h sid (hello_packet (h_my_device_id h)) w))"
      by (intro send_packet_locked_quiet [OF Some]) auto
    with Some False show ?thesis by (simp add: send_initial_hello_def)
  qed (use Some in \<open>auto simp: send_initial_hello_def\<close>)
qed (simp add: send_initial_hello_def)

lemma send_preface_quiet: "quiet sid w (snd (send_preface h sid w))"
proof (cases "w_conns w sid")
  case (Some c)
  show ?thesis
  proof (cases "c_stopping c \<or> c_local_preface_sent c")
    case False
    obtain r w1 where s: "conn_send_all h sid preface_bytes w = (r, w1)" by fastforce
    let ?w = "w\<lparr>w_tick := Suc (w_tick w)\<rparr>"
    from conn_send_all_cases [OF s Some] obtain out where
      w1: "w1 = put_conn sid (c\<lparr>c_wire := c_wire c @ out\<rparr>) ?w"
      and out: "r \<ge> 0 \<and> out = preface_bytes \<or> r < 0 \<and> strict_prefix out preface_bytes" by blast
    have c: "w_conns ?w sid = Some c" using Some by simp
    have empty: "c_wire c = []" if "conn_wf c" using that False by (auto simp: conn_wf_def sent_ok_def)
    have "quiet sid ?w (snd (send_preface h sid w))"
    proof (cases "r < 0")
      case True
      let ?c = "c\<lparr>c_wire := c_wire c @ out, c_stopping := True, c_shutdowns := Suc (c_shutdowns c)\<rparr>"
      have "conn_wf ?c" if "conn_wf c"
        using that empty [OF that] False True out by (auto simp: conn_wf_def sent_ok_def)
      then have "quiet sid ?w (put_conn sid ?c ?w)"
        by (intro quiet_put [OF c]) (auto simp: stable_def)
      with True s Some False show ?thesis by (simp add: send_preface_def w1 request_disconnect_def)
    next
      case ok: False
      let ?c = "c\<lparr>c_wire := c_wire c @ out, c_local_preface_sent := True\<rparr>"
      have "sent_ok True False preface_bytes"
        by (auto simp: sent_ok_def intro!: exI [of _ "[]"])
      then have "conn_wf ?c" if "conn_wf c"
        using that empty [OF that] False ok out by (auto simp: conn_wf_def)
      then have "quiet sid ?w (put_conn sid ?c ?w)"
        by (intro quiet_put [OF c]) (auto simp: stable_def)
      with ok s Some False show ?thesis by (simp add: send_preface_def w1)
    qed
    then show ?thesis by (rule quiet_trans [OF quiet_tick(1)])
  qed (use Some in \<open>auto simp: send_preface_def\<close>)
qed (simp add: send_preface_def)

lemma accept_peer_preface_quiet: "quiet sid w (snd (accept_peer_preface h sid w))"
proof (cases "w_conns w sid")
  case (Some c)
  let ?w = "put_conn sid (c\<lparr>c_peer_preface_received := True\<rparr>) w"
  have "quiet sid w ?w" by (rule quiet_put [OF Some]) (auto simp: stable_def conn_wf_def)
  then have q: "quiet sid w (snd (send_initial_hello h sid ?w))"
    by (rule quiet_trans [OF _ send_initial_hello_quiet])
  then show ?thesis
    using Some quiet_disconnect [OF q]
    by (auto simp: accept_peer_preface_def Let_def split: prod.split sum.split)
qed (simp add: accept_peer_preface_def)

section \<open>Receiving\<close>

lemma ping_handle_quiet: "quiet sid w (snd (ping_handle h sid w))"
  using send_packet_quiet [of sid w h "pong_packet (h_my_device_id h)"]
  by (auto simp: ping_handle_def split: prod.split sum.split)

lemma message_handle_quiet: "quiet sid w (snd (message_handle pkt p w))"
  by (simp add: message_handle_def split: option.split sum.split)

lemma route_quiet: "quiet sid w (snd (route h pkt sid peer w))"
proof -
  have p: "quiet sid w w1" if "ping_handle h sid w = (x, w1)" for x w1
    using ping_handle_quiet [of sid w h] that by simp
  have m: "quiet sid w w1" if "message_handle pkt q w = (x, w1)" for q x w1
    using message_handle_quiet [of sid w pkt q] that by simp
  show ?thesis
    by (auto simp: route_def dest: p m split: prod.split sum.split option.split HelloAction.split)
qed

lemma process_packet_quiet: "quiet sid w (snd (process_packet h sid c body pkt w))"
proof -
  let ?w = "w\<lparr>w_tick := Suc (w_tick w)\<rparr>"
  have r0: "quiet sid w w1" if "route h pkt sid None w = (x, w1)" for x w1
    using route_quiet [of sid w h pkt None] that by simp
  have r1: "quiet sid w w1" if "route h pkt sid (Some p) ?w = (x, w1)" for x w1 p
    using quiet_trans [OF quiet_tick(1) route_quiet [of sid ?w h pkt "Some p"]] that by simp
  have hello: "quiet sid w (put_conn sid (c1\<lparr>c_peer_hello_received := True\<rparr>) w1)"
    if "quiet sid w w1" "w_conns w1 sid = Some c1" for w1 c1
    using that(1) by (rule quiet_trans) (rule quiet_put [OF that(2)], auto simp: stable_def conn_wf_def)
  show ?thesis
    by (auto simp: process_packet_def next_io_def dest: r0 r1 intro!: hello quiet_disconnect
        split: prod.split sum.split option.split PacketRouteAction.split)
qed

lemma handle_record_quiet: "quiet sid w (snd (handle_record h sid body w))"
proof -
  let ?w = "w\<lparr>w_tick := Suc (w_tick w)\<rparr>"
  have q: "quiet sid w w1" if "process_packet h sid c body pkt ?w = (x, w1)" for c pkt x w1
    using quiet_trans [OF quiet_tick(1) process_packet_quiet [of sid ?w h c body pkt]] that by simp
  show ?thesis
    by (auto simp: handle_record_def next_io_def dest: q intro!: quiet_disconnect
        split: prod.split sum.split option.split)
qed

lemma record_handler_quiet: "quiet sid w (snd (record_handler h sid w body))"
proof -
  have a: "quiet sid w w1" if "accept_peer_preface h sid w = (x, w1)" for x w1
    using accept_peer_preface_quiet [of sid w h] that by simp
  have "quiet sid w w2" if "accept_peer_preface h sid w = (x, w1)" "handle_record h sid body w1 = (b, w2)"
    for x w1 b w2
    using quiet_trans [OF a [OF that(1)] handle_record_quiet [of sid w1 h body]] that(2) by simp
  with a show ?thesis
    by (auto simp: record_handler_def split: prod.split sum.split)
qed

text \<open>The session's callback is a client of the record parser: it keeps \<open>quiet\<close>.\<close>

interpretation session_records: record_client "record_handler h sid" "quiet sid w0" limit
  for h sid w0 limit
  by unfold_locales (rule quiet_trans [OF _ record_handler_quiet])

lemma receive_chunk_quiet:
  assumes "\<And>c. w_conns w sid = Some c \<Longrightarrow> wf_parser (c_record_parser c)"
  shows "quiet sid w (snd (receive_chunk h sid bytes w))"
proof (cases "w_conns w sid")
  case (Some c)
  note wfp = assms [OF Some]
  show ?thesis
  proof (cases "consume (record_handler h sid) (c_record_parser c) w bytes")
    case None
    with Some show ?thesis by (simp add: receive_chunk_def)
  next
    case (Some x)
    obtain res p1 w1 where x: "x = (res, p1, w1)" by (metis prod_cases3)
    note run = Some [unfolded x]
    have q1: "quiet sid w w1"
      by (rule session_records.consume_inv [OF wfp order_refl quiet_refl run])
    have wf1: "wf_parser p1" by (rule consume_wf [OF wfp run])
    define w2 where "w2 = (case w_conns w1 sid of
        None \<Rightarrow> w1 | Some c1 \<Rightarrow> put_conn sid (c1\<lparr>c_record_parser := p1\<rparr>) w1)"
    have q2: "quiet sid w w2"
    proof (cases "w_conns w1 sid")
      case (Some c1)
      have "quiet sid w1 (put_conn sid (c1\<lparr>c_record_parser := p1\<rparr>) w1)"
        by (rule quiet_put [OF Some]) (use wf1 in \<open>auto simp: stable_def conn_wf_def\<close>)
      with Some quiet_trans [OF q1] show ?thesis by (simp add: w2_def)
    qed (use q1 in \<open>simp add: w2_def\<close>)
    have q3: "quiet sid w w3" if "accept_peer_preface h sid w2 = (y, w3)" for y w3
      using quiet_trans [OF q2 accept_peer_preface_quiet [of sid w2 h]] that by simp
    have "receive_chunk h sid bytes w =
      (case res of HandlerThrew e \<Rightarrow> (RecvThrow e, w2) | Threw code \<Rightarrow> (RecvContinue, request_disconnect sid w2)
       | Returned _ \<Rightarrow>
           if preface_complete p1 \<and> \<not> is_stopping sid w2
           then (case accept_peer_preface h sid w2 of
                   (Inl e, w3) \<Rightarrow> (RecvThrow e, w3) | (Inr _, w3) \<Rightarrow> (RecvContinue, w3))
           else (RecvContinue, w2))"
      using \<open>w_conns w sid = Some c\<close> run
      by (simp only: receive_chunk_def Let_def option.case prod.case w2_def [symmetric])
    then show ?thesis
      using q2 quiet_disconnect [OF q2]
      by (auto dest: q3 split: consume_result.split prod.split sum.split)
  qed
qed (simp add: receive_chunk_def)

lemma finish_wf: "wf_parser p \<Longrightarrow> wf_parser (snd (finish p))"
  by (simp add: finish_def)

lemma receive_step_quiet:
  assumes "\<And>c. w_conns w sid = Some c \<Longrightarrow> wf_parser (c_record_parser c)"
  shows "quiet sid w (snd (receive_step h sid w))"
proof -
  let ?w = "w\<lparr>w_tick := Suc (w_tick w)\<rparr>"
  have ch: "quiet sid w (snd (receive_chunk h sid bytes ?w))" for bytes
    by (rule quiet_trans [OF quiet_tick(1) receive_chunk_quiet]) (use assms in simp)
  have eof: "quiet sid w (snd (receive_eof sid ?w))"
  proof (cases "w_conns w sid")
    case (Some c)
    have "quiet sid ?w (put_conn sid (c\<lparr>c_record_parser := snd (finish (c_record_parser c))\<rparr>) ?w)"
      by (rule quiet_put [of _ _ c])
        (use Some finish_wf [OF assms [OF Some]] in \<open>auto simp: stable_def conn_wf_def\<close>)
    from quiet_disconnect [OF quiet_trans [OF quiet_tick(1) this]] Some show ?thesis
      by (simp add: receive_eof_def case_prod_beta)
  qed (simp add: receive_eof_def)
  show ?thesis
    by (auto simp: receive_step_def next_io_def ch eof intro!: quiet_disconnect
        split: option.split sum.split errno.split list.split simp del: take_Suc_Cons take_Cons_numeral)
qed

section \<open>Invariant of the daemon\<close>

text \<open>The destructor: clean up, then the object is gone.\<close>

definition release :: "session_id \<Rightarrow> world \<Rightarrow> world" where
  "release sid w = (let w1 = finalize_disconnect sid w in w1\<lparr>w_conns := (w_conns w1)(sid := None)\<rparr>)"

text \<open>A step of the monitor in the daemon; invalidated sessions are asked to disconnect.\<close>

definition world_monitor :: "host \<Rightarrow> world \<Rightarrow> world" where
  "world_monitor h w =
     (case next_io h w of (io, w1) \<Rightarrow>
        (case monitor_step (io_sql io) (w_store w1) (w_auth w1) (w_monitor w1) of
           None \<Rightarrow> w1
         | Some (sa, m, out) \<Rightarrow> fold request_disconnect out (w1\<lparr>w_auth := sa, w_monitor := m\<rparr>)))"

definition owned_by :: "world \<Rightarrow> session_id \<Rightarrow> (AuthorizedPeer \<Rightarrow> bool) \<Rightarrow> bool" where
  "owned_by w sid P \<longleftrightarrow>
     (case w_conns w sid of
        None \<Rightarrow> False
      | Some c \<Rightarrow> \<not> c_cleaned_up c \<and> (case c_authorized_peer c of None \<Rightarrow> False | Some p \<Rightarrow> P p))"

definition device_matches :: "Device \<Rightarrow> AuthorizedPeer \<Rightarrow> bool" where
  "device_matches d p \<longleftrightarrow> dev_device_id d = ap_device_id p \<and> dev_public_key d = ap_public_key p \<and>
     dev_trust_revision d = ap_revision p \<and> dev_permissions d = ap_permissions p"

definition live_matches :: "session_id \<Rightarrow> LiveAuthorization \<Rightarrow> AuthorizedPeer \<Rightarrow> bool" where
  "live_matches sid la p \<longleftrightarrow>
     la = \<lparr>la_uuid = ap_uuid p, la_public_key = ap_public_key p, la_revision = ap_revision p,
           la_permissions = ap_permissions p, la_invalidate = Some sid\<rparr>"

text \<open>A ready session that nobody has asked to stop is in the live table, or the monitor is about
  to disconnect it.\<close>

definition watched :: "world \<Rightarrow> session_id \<Rightarrow> bool" where
  "watched w sid \<longleftrightarrow>
     sid \<in> fst ` set (sa_live (w_auth w)) \<or> (\<exists>es. mon_pc (w_monitor w) = MonInvalidate (Some sid) es)"

definition world_inv :: "world \<Rightarrow> bool" where
  "world_inv w \<longleftrightarrow>
     (\<forall>sid c. w_conns w sid = Some c \<longrightarrow> conn_wf c \<and> (c_ready c \<and> \<not> c_stopping c \<longrightarrow> watched w sid)) \<and>
     wf_registry (w_registry w) \<and>
     (\<forall>d \<in> set (w_registry w). owned_by w (dev_session_id d) (device_matches d)) \<and>
     distinct (map fst (sa_live (w_auth w))) \<and>
     (\<forall>(sid, la) \<in> set (sa_live (w_auth w)). owned_by w sid (live_matches sid la))"

lemma owned_by_quiet:
  assumes "quiet s w w1" shows "owned_by w1 sid P = owned_by w sid P"
  using assms by (cases "sid = s") (auto simp: owned_by_def quiet_def stable_def split: option.splits)

lemma world_inv_quiet:
  assumes inv: "world_inv w" and q: "quiet s w w1"
  shows "world_inv w1"
proof -
  have same: "w_registry w1 = w_registry w" "w_auth w1 = w_auth w" "w_monitor w1 = w_monitor w"
    using q by (simp_all add: quiet_def)
  have "conn_wf c1 \<and> (c_ready c1 \<and> \<not> c_stopping c1 \<longrightarrow> watched w1 sid)"
    if c1: "w_conns w1 sid = Some c1" for sid c1
  proof -
    have "\<exists>c. w_conns w sid = Some c \<and> stable c c1 \<and> (conn_wf c \<longrightarrow> conn_wf c1)"
      using q c1 by (cases "sid = s") (auto simp: quiet_def split: option.splits)
    with inv show ?thesis by (auto simp: world_inv_def watched_def same stable_def)
  qed
  with inv show ?thesis by (simp add: world_inv_def same owned_by_quiet [OF q])
qed

lemma world_inv_tick: "world_inv (w\<lparr>w_tick := t\<rparr>) \<longleftrightarrow> world_inv w"
  by (simp add: world_inv_def owned_by_def watched_def)

lemma world_inv_parser: "world_inv w \<Longrightarrow> w_conns w sid = Some c \<Longrightarrow> wf_parser (c_record_parser c)"
  by (auto simp: world_inv_def conn_wf_def)

lemma world_inv_disconnects: "world_inv w \<Longrightarrow> world_inv (fold request_disconnect out w)"
  by (induction out arbitrary: w) (auto intro: world_inv_quiet [OF _ request_disconnect_quiet])

text \<open>A connection that has stopped owes nothing to the live table.\<close>

lemma world_inv_create:
  assumes inv: "world_inv w" and fresh: "w_conns w (w_next_session_id w) = None"
  shows "world_inv (snd (create h fd role w))"
proof -
  have wfp: "wf_parser new_parser"
    by (simp add: new_parser_def RecordParser_def wf_parser_def)
  have other: "owned_by (snd (create h fd role w)) sid P = owned_by w sid P" if "owned_by w sid P" for sid P
    using that fresh
    by (auto simp: owned_by_def create_def next_io_def Let_def register_connection_def put_conn_def split: option.splits)
  have "conn_wf c \<and> (c_ready c \<and> \<not> c_stopping c \<longrightarrow> watched (snd (create h fd role w)) sid)"
    if c: "w_conns (snd (create h fd role w)) sid = Some c" for sid c
  proof (cases "sid = w_next_session_id w")
    case True
    with c wfp show ?thesis
      by (auto simp: create_def next_io_def Let_def register_connection_def put_conn_def conn_wf_def sent_ok_def)
  next
    case False
    with c have "w_conns w sid = Some c"
      by (simp add: create_def next_io_def Let_def register_connection_def put_conn_def)
    with inv show ?thesis
      by (auto simp: world_inv_def watched_def create_def next_io_def Let_def register_connection_def put_conn_def)
  qed
  moreover have "w_registry (snd (create h fd role w)) = w_registry w"
    "w_auth (snd (create h fd role w)) = w_auth w"
    by (simp_all add: create_def next_io_def Let_def register_connection_def put_conn_def)
  ultimately show ?thesis using inv other by (auto simp: world_inv_def)
qed

lemma finalize_cases:
  obtains (gone) "w_conns w sid = None" "finalize_disconnect sid w = w"
  | (again) c where "w_conns w sid = Some c" "c_cleaned_up c"
      "finalize_disconnect sid w = request_disconnect sid w"
  | (first) c where "w_conns (request_disconnect sid w) sid = Some c" "\<not> c_cleaned_up c" "c_stopping c"
      "finalize_disconnect sid w = unregister_connection sid
         (put_conn sid (c\<lparr>c_cleaned_up := True, c_closes := Suc (c_closes c)\<rparr>)
           ((request_disconnect sid w)\<lparr>w_auth := unregister_live_session sid (w_auth w),
              w_registry := remove_device sid (w_registry w)\<rparr>))"
proof (cases "w_conns w sid")
  case None
  then show thesis using gone by (simp add: finalize_disconnect_def request_disconnect_def)
next
  case (Some c)
  then show thesis
    using again [of c] first [of "if c_stopping c then c else c\<lparr>c_stopping := True, c_shutdowns := c_shutdowns c + 1\<rparr>"]
    by (cases "c_cleaned_up c"; cases "c_stopping c")
      (auto simp: finalize_disconnect_def request_disconnect_def Let_def)
qed

lemma world_inv_finalize:
  assumes inv: "world_inv w"
  shows "world_inv (finalize_disconnect sid w) \<and>
    (\<forall>d \<in> set (w_registry (finalize_disconnect sid w)). dev_session_id d \<noteq> sid) \<and>
    sid \<notin> fst ` set (sa_live (w_auth (finalize_disconnect sid w)))"
proof (cases rule: finalize_cases [of w sid])
  case gone
  with inv show ?thesis by (fastforce simp: world_inv_def owned_by_def split: option.splits)
next
  case (again c)
  have "world_inv (request_disconnect sid w)" by (rule world_inv_quiet [OF inv request_disconnect_quiet])
  moreover have "w_registry (request_disconnect sid w) = w_registry w" "w_auth (request_disconnect sid w) = w_auth w"
    using request_disconnect_quiet [of sid w] by (simp_all add: quiet_def)
  ultimately show ?thesis
    using again inv by (fastforce simp: world_inv_def owned_by_def split: option.splits)
next
  case (first c)
  let ?w0 = "request_disconnect sid w" and ?w1 = "finalize_disconnect sid w"
  have inv0: "world_inv ?w0" by (rule world_inv_quiet [OF inv request_disconnect_quiet])
  have same: "w_registry ?w0 = w_registry w" "w_auth ?w0 = w_auth w" "w_monitor ?w0 = w_monitor w"
    using request_disconnect_quiet [of sid w] by (simp_all add: quiet_def)
  have conns: "w_conns ?w1 = (w_conns ?w0)(sid \<mapsto> c\<lparr>c_cleaned_up := True, c_closes := Suc (c_closes c)\<rparr>)"
    "w_registry ?w1 = remove_device sid (w_registry ?w0)" "w_monitor ?w1 = w_monitor ?w0"
    "w_auth ?w1 = unregister_live_session sid (w_auth ?w0)"
    by (simp_all add: first(4) unregister_connection_def put_conn_def same)
  have live: "set (sa_live (w_auth ?w1)) = {e \<in> set (sa_live (w_auth ?w0)). fst e \<noteq> sid}"
    by (auto simp: conns unregister_live_session_def)
  have own: "owned_by ?w1 s P = owned_by ?w0 s P" if "s \<noteq> sid" for s P
    using that by (simp add: owned_by_def conns)
  have "conn_wf c" using inv0 first(1) by (simp add: world_inv_def)
  then have "conn_wf (c\<lparr>c_cleaned_up := True, c_closes := Suc (c_closes c)\<rparr>)"
    using first(2,3) by (simp add: conn_wf_def)
  moreover have "watched ?w1 s" if "watched ?w0 s" "s \<noteq> sid" for s
    using that by (force simp: watched_def live conns(3))
  ultimately have "world_inv ?w1"
    using inv0 first(3) own remove_wf [of "w_registry ?w0" sid]
    by (auto simp: world_inv_def conns live unregister_live_session_def distinct_map_filter remove_device_def
        split: if_splits)
  then show ?thesis by (auto simp: conns(2) live remove_device_def)
qed

section \<open>Authentication\<close>

definition replaced_session :: "RegistrationResult \<Rightarrow> session_id option" where
  "replaced_session result = Option.bind (rr_replaced_device result) dev_connection"

lemma alive_of_tick [simp]: "alive_of (w\<lparr>w_tick := t\<rparr>) = alive_of w"
  by (simp add: alive_of_def)

lemma activate_cases:
  assumes "activate_authorized_peer h sid p name type w = (b, w1)" and "w_conns w sid = Some c"
  obtains (refused) t where "\<not> b" "w1 = w\<lparr>w_tick := t\<rparr>"
  | (rejected) t where "\<not> b" "map_of (sa_live (w_auth w)) sid = None"
      "w1 = w\<lparr>w_tick := t, w_auth :=
         unregister_live_session sid (snd (publish_live_session sid p (Some sid) (w_auth w)))\<rparr>"
  | (activated) t auth result registry where "b" "\<not> c_stopping c" "\<not> c_ready c"
      "\<exists>env. authorization_is_current env (w_store w) p" "map_of (sa_live (w_auth w)) sid = None"
      "publish_live_session sid p (Some sid) (w_auth w) = (True, auth)"
      "publish_authenticated_device (alive_of w) (session_device h sid c p name type) p (w_registry w) =
         (result, registry)" "rr_accepted result"
      "w1 = (case replaced_session result of None \<Rightarrow> id | Some old \<Rightarrow> request_disconnect old)
         (put_conn sid (c\<lparr>c_authorized_peer := Some p, c_ready := True\<rparr>)
           (w\<lparr>w_tick := t, w_auth := auth, w_registry := registry\<rparr>))"
proof -
  let ?w1 = "w\<lparr>w_tick := Suc (w_tick w)\<rparr>" and ?w2 = "w\<lparr>w_tick := Suc (Suc (w_tick w))\<rparr>"
  let ?io1 = "h_io h (w_tick w)" and ?io2 = "h_io h (Suc (w_tick w))"
  let ?busy = "\<lambda>io. c_stopping c \<or> c_ready c \<or> io_now io \<ge> c_handshake_deadline c"
  let ?dev = "session_device h sid c p name type"
  obtain ok auth where reg: "register_live_session (io_sql ?io2) (w_store w) sid p (Some sid) (w_auth w) = (ok, auth)"
    by fastforce
  obtain result registry where pub: "publish_authenticated_device (alive_of w) ?dev p (w_registry w) = (result, registry)"
    by fastforce
  show thesis
  proof (cases "?busy ?io1 \<or> ?busy ?io2 \<or> \<not> ok")
    case True
    moreover have "auth = w_auth w" if "\<not> ok"
      using that reg by (auto simp: register_live_session_def publish_live_session_def split: if_splits)
    ultimately show thesis
      using assms reg refused [of "Suc (w_tick w)"] refused [of "Suc (Suc (w_tick w))"]
      by (auto simp: activate_authorized_peer_def next_io_def split: if_splits)
  next
    case False
    then have cur: "authorization_is_current (io_sql ?io2) (w_store w) p"
      and auth: "publish_live_session sid p (Some sid) (w_auth w) = (True, auth)"
      using reg by (auto simp: register_live_session_def split: if_splits)
    then have new: "map_of (sa_live (w_auth w)) sid = None"
      by (auto simp: publish_live_session_def split: if_splits)
    show thesis
    proof (cases "rr_accepted result")
      case True
      have "b \<and> w1 = (case replaced_session result of None \<Rightarrow> id | Some old \<Rightarrow> request_disconnect old)
         (put_conn sid (c\<lparr>c_authorized_peer := Some p, c_ready := True\<rparr>)
           (w\<lparr>w_tick := Suc (Suc (w_tick w)), w_auth := auth, w_registry := registry\<rparr>))"
        using assms False reg pub True
        by (auto simp: activate_authorized_peer_def next_io_def Let_def replaced_session_def split: option.splits)
      with False cur new auth pub True show thesis by (intro activated) auto
    next
      case no: False
      from pub have "registry = w_registry w"
        by (cases rule: publish_cases) (use no in \<open>auto dest!: publish_loop_accepts\<close>)
      with assms False reg pub no auth have "\<not> b \<and> w1 = w\<lparr>w_tick := Suc (Suc (w_tick w)),
          w_auth := unregister_live_session sid (snd (publish_live_session sid p (Some sid) (w_auth w)))\<rparr>"
        by (auto simp: activate_authorized_peer_def next_io_def)
      with new show thesis by (intro rejected) auto
    qed
  qed
qed

lemma live_after_reject:
  assumes "map_of (sa_live sa) sid = None"
  shows "sa_live (unregister_live_session sid (snd (publish_live_session sid p x sa))) = sa_live sa"
proof -
  have absent: "filter (\<lambda>(k, v). k \<noteq> sid) xs = xs" if "sid \<notin> fst ` set xs"
    for xs :: "(session_id \<times> LiveAuthorization) list"
    using that by (intro filter_True) force
  have "filter (\<lambda>(k, v). k \<noteq> sid) (insort_key fst (sid, v) xs) = filter (\<lambda>(k, v). k \<noteq> sid) xs"
    for v and xs :: "(session_id \<times> LiveAuthorization) list"
    by (induction xs) auto
  with absent assms show ?thesis
    by (auto simp: unregister_live_session_def publish_live_session_def map_of_eq_None_iff)
qed

lemma world_inv_same_live:
  assumes "world_inv w" and "sa_live sa = sa_live (w_auth w)"
  shows "world_inv (w\<lparr>w_tick := t, w_auth := sa\<rparr>)"
  using assms by (simp add: world_inv_def watched_def owned_by_def)

lemma world_inv_activate:
  assumes inv: "world_inv w" and c: "w_conns w sid = Some c" and pre: "c_local_preface_sent c"
    and run: "activate_authorized_peer h sid p name type w = (b, w1)"
  shows "world_inv w1"
  using run c
proof (cases rule: activate_cases)
  case (refused t)
  then show ?thesis using inv by (simp add: world_inv_tick)
next
  case (rejected t)
  then show ?thesis using world_inv_same_live [OF inv live_after_reject] by simp
next
  case (activated t auth result registry)
  let ?c = "c\<lparr>c_authorized_peer := Some p, c_ready := True\<rparr>"
  let ?d = "session_device h sid c p name type"
  let ?w = "put_conn sid ?c (w\<lparr>w_tick := t, w_auth := auth, w_registry := registry\<rparr>)"
  have wfc: "conn_wf c" using inv c by (simp add: world_inv_def)
  then have wf1: "conn_wf ?c" using pre by (simp add: conn_wf_def)
  have clean: "\<not> c_cleaned_up c" using wfc activated(2) by (auto simp: conn_wf_def)
  have none: "c_authorized_peer c = None" using wfc activated(3) by (simp add: conn_wf_def)
  have live: "set (sa_live auth) = insert (sid, \<lparr>la_uuid = ap_uuid p, la_public_key = ap_public_key p,
       la_revision = ap_revision p, la_permissions = ap_permissions p, la_invalidate = Some sid\<rparr>)
       (set (sa_live (w_auth w)))"
    and dist: "distinct (map fst (sa_live auth))"
    using activated(5,6) inv
    by (auto simp: publish_live_session_def world_inv_def set_insort_key distinct_insort_key
        map_of_eq_None_iff split: if_splits)
  have reg: "set registry \<subseteq> insert (?d\<lparr>dev_state := READY\<rparr>) (set (w_registry w))"
    using activated(7)
    by (cases rule: publish_cases) (use activated(8) in \<open>auto simp: rejected_def dest!: publish_loop_accepts\<close>)
  have own: "owned_by ?w s P" if "owned_by w s P" for s P
    using that none c by (cases "s = sid") (auto simp: owned_by_def split: option.splits)
  have self: "owned_by ?w sid P = P p" for P
    using clean by (simp add: owned_by_def)
  have "world_inv ?w"
    unfolding world_inv_def
  proof (intro conjI allI impI ballI)
    show "conn_wf c1" if "w_conns ?w s = Some c1" for s c1
      using that wf1 inv by (cases "s = sid") (auto simp: world_inv_def)
    show "watched ?w s" if "w_conns ?w s = Some c1" "c_ready c1 \<and> \<not> c_stopping c1" for s c1
      using that inv by (cases "s = sid") (auto simp: world_inv_def watched_def live)
    show "wf_registry (w_registry ?w)"
      using publish_wf [OF _ activated(7)] inv by (simp add: world_inv_def)
    show "owned_by ?w (dev_session_id d) (device_matches d)" if "d \<in> set (w_registry ?w)" for d
    proof (cases "d = ?d\<lparr>dev_state := READY\<rparr>")
      case True
      then show ?thesis by (simp add: self device_matches_def session_device_def)
    next
      case False
      with that reg inv show ?thesis by (auto simp: world_inv_def intro: own)
    qed
    show "distinct (map fst (sa_live (w_auth ?w)))" using dist by simp
    show "case e of (s, la) \<Rightarrow> owned_by ?w s (live_matches s la)" if "e \<in> set (sa_live (w_auth ?w))" for e
      using that inv by (auto simp: live self live_matches_def world_inv_def intro: own)
  qed
  then show ?thesis
    using activated(9) world_inv_quiet [OF _ request_disconnect_quiet]
    by (auto split: option.splits)
qed

section \<open>The monitor\<close>

lemma world_inv_set_monitor:
  assumes inv: "world_inv w" and live: "set (sa_live sa) \<subseteq> set (sa_live (w_auth w))"
    and dist: "distinct (map fst (sa_live sa))"
    and watch: "\<And>sid c. \<lbrakk>w_conns w sid = Some c; c_ready c; \<not> c_stopping c; watched w sid\<rbrakk> \<Longrightarrow>
      watched (w\<lparr>w_auth := sa, w_monitor := m\<rparr>) sid"
  shows "world_inv (w\<lparr>w_auth := sa, w_monitor := m\<rparr>)"
proof -
  have own: "owned_by (w\<lparr>w_auth := sa, w_monitor := m\<rparr>) s P = owned_by w s P" for s P
    by (simp add: owned_by_def)
  show ?thesis
    using inv live dist watch by (auto simp: world_inv_def own)
qed

lemma request_disconnect_frame:
  "request_disconnect s (w\<lparr>w_auth := sa, w_monitor := m\<rparr>) = (request_disconnect s w)\<lparr>w_auth := sa, w_monitor := m\<rparr>"
  by (simp add: request_disconnect_def put_conn_def split: option.split)

lemma request_disconnect_stops: "w_conns (request_disconnect s w) s = Some c \<Longrightarrow> c_stopping c"
  by (auto simp: request_disconnect_def split: option.splits if_splits)

lemma world_inv_monitor_step:
  assumes inv: "world_inv w" and step: "monitor_step env (w_store w) (w_auth w) (w_monitor w) = Some (sa, m, out)"
  shows "world_inv (fold request_disconnect out (w\<lparr>w_auth := sa, w_monitor := m\<rparr>))"
proof -
  have dist: "distinct (map fst (sa_live (w_auth w)))" using inv by (simp add: world_inv_def)
  show ?thesis
  proof (cases "mon_pc (w_monitor w)")
    case (MonInvalidate x es)
    then have s: "sa = w_auth w" "m = (w_monitor w)\<lparr>mon_pc := MonScan es\<rparr>"
      "out = (case x of None \<Rightarrow> [] | Some c \<Rightarrow> [c])"
      using step by (auto simp: monitor_step.simps)
    show ?thesis
    proof (cases x)
      case None
      have "world_inv (w\<lparr>w_auth := sa, w_monitor := m\<rparr>)"
        by (rule world_inv_set_monitor [OF inv]) (use s dist None MonInvalidate in \<open>auto simp: watched_def\<close>)
      with s None show ?thesis by simp
    next
      case (Some i)
      let ?w = "request_disconnect i w"
      have same: "w_auth ?w = w_auth w" "w_monitor ?w = w_monitor w"
        using request_disconnect_quiet [of i w] by (simp_all add: quiet_def)
      have "world_inv (?w\<lparr>w_auth := sa, w_monitor := m\<rparr>)"
      proof (rule world_inv_set_monitor [OF world_inv_quiet [OF inv request_disconnect_quiet]])
        fix sid c
        assume c: "w_conns ?w sid = Some c" "\<not> c_stopping c" and "watched ?w sid"
        have "sid \<noteq> i" using c request_disconnect_stops [of i w c] by auto
        with \<open>watched ?w sid\<close> show "watched (?w\<lparr>w_auth := sa, w_monitor := m\<rparr>) sid"
          using MonInvalidate Some by (auto simp: watched_def same s)
      qed (use s dist same in auto)
      moreover have "out = [i]" using s(3) Some by simp
      ultimately show ?thesis by (simp only: fold_simps request_disconnect_frame)
    qed
  next
    case (MonDrop d es)
    obtain sid la where d: "d = (sid, la)" by (cases d)
    show ?thesis
    proof (cases "\<exists>live. map_of (sa_live (w_auth w)) sid = Some live \<and> same_authorization live la")
      case True
      then obtain live where live: "map_of (sa_live (w_auth w)) sid = Some live" "same_authorization live la" by blast
      with step MonDrop d have s: "sa = unregister_live_session sid (w_auth w)" "out = []"
        "m = (w_monitor w)\<lparr>mon_pc := MonInvalidate (la_invalidate live) es\<rparr>"
        by (auto simp: monitor_step.simps)
      have "owned_by w sid (live_matches sid live)"
        using inv map_of_SomeD [OF live(1)] by (auto simp: world_inv_def)
      then have "la_invalidate live = Some sid"
        by (auto simp: owned_by_def live_matches_def split: option.splits)
      moreover have "world_inv (w\<lparr>w_auth := sa, w_monitor := m\<rparr>)"
        by (rule world_inv_set_monitor [OF inv])
          (use s dist MonDrop calculation in
            \<open>auto simp: watched_def unregister_live_session_def distinct_map_filter image_iff\<close>)
      ultimately show ?thesis using s by simp
    next
      case False
      with step MonDrop d have s: "sa = w_auth w" "out = []" "m = (w_monitor w)\<lparr>mon_pc := MonScan es\<rparr>"
        by (auto simp: monitor_step.simps split: option.splits)
      have "world_inv (w\<lparr>w_auth := sa, w_monitor := m\<rparr>)"
        by (rule world_inv_set_monitor [OF inv]) (use s dist MonDrop in \<open>auto simp: watched_def\<close>)
      with s show ?thesis by simp
    qed
  next
    case (MonScan es)
    then have s: "sa = w_auth w" "out = []"
      using step by (auto simp: monitor_step.simps split: list.splits if_splits)
    have "world_inv (w\<lparr>w_auth := sa, w_monitor := m\<rparr>)"
      by (rule world_inv_set_monitor [OF inv]) (use s dist MonScan in \<open>auto simp: watched_def\<close>)
    with s show ?thesis by simp
  next
    case (MonToken force)
    then have s: "sa = w_auth w" "out = []"
      using step by (auto simp: monitor_step.simps split: sum.splits)
    have "world_inv (w\<lparr>w_auth := sa, w_monitor := m\<rparr>)"
      by (rule world_inv_set_monitor [OF inv]) (use s dist MonToken in \<open>auto simp: watched_def\<close>)
    with s show ?thesis by simp
  next
    case MonWait
    then have s: "sa_live sa = sa_live (w_auth w)" "out = []"
      using step by (auto simp: monitor_step.simps split: if_splits)
    have "world_inv (w\<lparr>w_auth := sa, w_monitor := m\<rparr>)"
      by (rule world_inv_set_monitor [OF inv]) (use s dist MonWait in \<open>auto simp: watched_def\<close>)
    with s show ?thesis by simp
  next
    case MonSnapshot
    then have s: "sa = w_auth w" "out = []" using step by (auto simp: monitor_step.simps)
    have "world_inv (w\<lparr>w_auth := sa, w_monitor := m\<rparr>)"
      by (rule world_inv_set_monitor [OF inv]) (use s dist MonSnapshot in \<open>auto simp: watched_def\<close>)
    with s show ?thesis by simp
  qed (use step in \<open>simp add: monitor_step.simps\<close>)
qed

lemma world_inv_monitor:
  assumes "world_inv w" shows "world_inv (world_monitor h w)"
proof -
  let ?w = "w\<lparr>w_tick := Suc (w_tick w)\<rparr>"
  have inv: "world_inv ?w" by (rule world_inv_quiet [OF assms quiet_tick(1)])
  show ?thesis
    using inv world_inv_monitor_step [OF inv]
    by (auto simp: world_monitor_def next_io_def split: option.split)
qed

lemma world_inv_release:
  assumes "world_inv w" shows "world_inv (release sid w)"
proof -
  let ?w = "finalize_disconnect sid w"
  from world_inv_finalize [OF assms, of sid] have inv: "world_inv ?w"
    and reg: "\<forall>d \<in> set (w_registry ?w). dev_session_id d \<noteq> sid"
    and live: "sid \<notin> fst ` set (sa_live (w_auth ?w))" by auto
  have own: "owned_by (release sid w) s P = owned_by ?w s P" if "s \<noteq> sid" for s P
    using that by (simp add: release_def Let_def owned_by_def)
  have fields: "w_registry (release sid w) = w_registry ?w" "w_auth (release sid w) = w_auth ?w"
    "w_monitor (release sid w) = w_monitor ?w"
    by (simp_all add: release_def Let_def)
  have conns: "w_conns ?w s = Some c" if "w_conns (release sid w) s = Some c" for s c
    using that by (auto simp: release_def Let_def split: if_splits)
  have "\<forall>(s, la) \<in> set (sa_live (w_auth ?w)). owned_by (release sid w) s (live_matches s la)"
    using inv live own by (fastforce simp: world_inv_def)
  moreover have "conn_wf c \<and> (c_ready c \<and> \<not> c_stopping c \<longrightarrow> watched (release sid w) s)"
    if "w_conns (release sid w) s = Some c" for s c
    using inv conns [OF that] by (auto simp: world_inv_def watched_def fields)
  ultimately show ?thesis
    using inv reg own unfolding world_inv_def fields by auto
qed

section \<open>Runs of the daemon\<close>

text \<open>
  Any interleaving of what the daemon's threads do, with the number of writes to the trust store
  so far.  An identity is verified over a session that has sent its preface, and a new session
  id is not in use (session ids are 64 bits wide and never reused).
\<close>

inductive world_run :: "host \<Rightarrow> sql_env \<Rightarrow> nat \<Rightarrow> world \<Rightarrow> bool" for h env0 where
  world_start:
  "\<lbrakk>wf_db env0 (ts_db st); ts_local_generation st = 0\<rbrakk> \<Longrightarrow>
   world_run h env0 0 \<lparr>w_conns = Map.empty, w_registry = [], w_auth = new_auth, w_store = st,
     w_monitor = new_monitor, w_events = [], w_manager = [], w_next_session_id = 1, w_tick = 0\<rparr>"
| world_create:
  "\<lbrakk>world_run h env0 n w; w_conns w (w_next_session_id w) = None\<rbrakk> \<Longrightarrow>
   world_run h env0 n (snd (create h fd role w))"
| world_preface: "world_run h env0 n w \<Longrightarrow> world_run h env0 n (snd (send_preface h sid w))"
| world_receive: "world_run h env0 n w \<Longrightarrow> world_run h env0 n (snd (receive_step h sid w))"
| world_authenticate:
  "\<lbrakk>world_run h env0 n w; w_conns w sid = Some c; c_local_preface_sent c\<rbrakk> \<Longrightarrow>
   world_run h env0 n (snd (complete_authentication_after_verified_identity h sid identity name type w))"
| world_send: "world_run h env0 n w \<Longrightarrow> world_run h env0 n (snd (send_packet h sid packet w))"
| world_disconnect: "world_run h env0 n w \<Longrightarrow> world_run h env0 n (request_disconnect sid w)"
| world_finalize: "world_run h env0 n w \<Longrightarrow> world_run h env0 n (finalize_disconnect sid w)"
| world_release: "world_run h env0 n w \<Longrightarrow> world_run h env0 n (release sid w)"
| world_write:
  "\<lbrakk>world_run h env0 n w; text_length env = text_length env0\<rbrakk> \<Longrightarrow>
   world_run h env0 (Suc n) (w\<lparr>w_store := store_write (env, opn) (w_store w)\<rparr>)"
| world_scan: "world_run h env0 n w \<Longrightarrow> world_run h env0 n (world_monitor h w)"
| world_events: "world_run h env0 n w \<Longrightarrow> world_run h env0 n (w\<lparr>w_events := snd (consume_events (w_events w))\<rparr>)"

lemma complete_cases:
  assumes "w_conns w sid = Some c"
  obtains t where "snd (complete_authentication_after_verified_identity h sid identity name type w) = w\<lparr>w_tick := t\<rparr>"
  | t p b w1 where "activate_authorized_peer h sid p name type (w\<lparr>w_tick := t\<rparr>) = (b, w1)"
      "snd (complete_authentication_after_verified_identity h sid identity name type w) = w1"
proof -
  let ?r = "authorize_verified_identity h sid identity w"
  have w1: "snd ?r = w\<lparr>w_tick := Suc (w_tick w)\<rparr>"
    using assms by (auto simp: authorize_verified_identity_def next_io_def split: sum.split option.split)
  show thesis
  proof (cases "\<exists>p. fst ?r = Inr (Some p)")
    case True
    then obtain p where p: "?r = (Inr (Some p), w\<lparr>w_tick := Suc (w_tick w)\<rparr>)" using w1 by (metis prod.collapse)
    obtain b w2 where "activate_authorized_peer h sid p name type (w\<lparr>w_tick := Suc (w_tick w)\<rparr>) = (b, w2)" by fastforce
    with p show thesis
      using that(2) by (simp add: complete_authentication_after_verified_identity_def)
  next
    case False
    with w1 have "snd (complete_authentication_after_verified_identity h sid identity name type w) =
        w\<lparr>w_tick := Suc (w_tick w)\<rparr>"
      by (cases ?r) (auto simp: complete_authentication_after_verified_identity_def split: sum.split option.split)
    then show thesis using that(1) by blast
  qed
qed

lemma world_run_inv: "world_run h env0 n w \<Longrightarrow> world_inv w"
proof (induction rule: world_run.induct)
  case (world_start st)
  then show ?case by (simp add: world_inv_def wf_registry_def new_auth_def)
next
  case (world_create n w fd role)
  then show ?case by (blast intro: world_inv_create)
next
  case (world_receive n w sid)
  then show ?case
    using world_inv_parser [of w sid] by (intro world_inv_quiet [OF _ receive_step_quiet])
next
  case (world_authenticate n w sid c identity name type)
  show ?case
  proof (cases rule: complete_cases [OF world_authenticate.hyps(2), of h identity name type])
    case (1 t)
    then show ?thesis using world_authenticate.IH by (simp add: world_inv_tick)
  next
    case (2 t p b w1)
    have "w_conns (w\<lparr>w_tick := t\<rparr>) sid = Some c" using world_authenticate.hyps(2) by simp
    from world_inv_activate [OF world_authenticate.IH [THEN world_inv_tick [THEN iffD2]] this
        world_authenticate.hyps(3) 2(1)] 2(2)
    show ?thesis by simp
  qed
next
  case (world_write n w env opn)
  then show ?case by (simp add: world_inv_def watched_def owned_by_def)
next
  case (world_finalize n w sid)
  then show ?case using world_inv_finalize by blast
qed (auto intro: world_inv_quiet [OF _ send_preface_quiet] world_inv_quiet [OF _ send_packet_quiet]
      world_inv_quiet [OF _ request_disconnect_quiet] world_inv_release world_inv_monitor
      world_inv_quiet [OF _ quiet_tick(2)])

section \<open>The daemon runs the authentication service\<close>

lemma auth_run_fold:
  "w_auth (fold request_disconnect out w) = w_auth w" "w_monitor (fold request_disconnect out w) = w_monitor w"
  "w_store (fold request_disconnect out w) = w_store w" "w_tick (fold request_disconnect out w) = w_tick w"
  by (induction out arbitrary: w) (auto simp: request_disconnect_def split: option.split)

abbreviation auth_view :: "world \<Rightarrow> session_id list \<Rightarrow> auth_system" where
  "auth_view w ds \<equiv> \<lparr>as_store = w_store w, as_auth = w_auth w, as_monitor = w_monitor w, as_disconnects = ds\<rparr>"

lemma quiet_auth_view: "quiet sid w w1 \<Longrightarrow> auth_view w1 ds = auth_view w ds"
  by (simp add: quiet_def)

lemma activate_auth:
  assumes "auth_run env0 n (auth_view w ds)" and "w_conns w sid = Some c"
    and "activate_authorized_peer h sid p name type w = (b, w1)"
  shows "auth_run env0 n (auth_view w1 ds)"
  using assms(3,2)
proof (cases rule: activate_cases)
  case (refused t)
  with assms(1) show ?thesis by simp
next
  case (rejected t)
  with run_unregister [OF run_publish [OF assms(1), of sid p "Some sid"], of sid] show ?thesis by simp
next
  case (activated t auth result registry)
  let ?w = "put_conn sid (c\<lparr>c_authorized_peer := Some p, c_ready := True\<rparr>)
    (w\<lparr>w_tick := t, w_auth := auth, w_registry := registry\<rparr>)"
  from run_publish [OF assms(1), of sid p "Some sid"] activated(6)
  have "auth_run env0 n (auth_view ?w ds)" by simp
  moreover have "auth_view w1 ds = auth_view ?w ds"
    using activated(9) quiet_auth_view [OF request_disconnect_quiet] by (auto split: option.splits)
  ultimately show ?thesis by simp
qed

lemma finalize_auth:
  assumes "auth_run env0 n (auth_view w ds)"
  shows "auth_run env0 n (auth_view (finalize_disconnect sid w) ds)"
proof (cases rule: finalize_cases [of w sid])
  case (first c)
  have "auth_view (finalize_disconnect sid w) ds =
      (auth_view w ds)\<lparr>as_auth := unregister_live_session sid (w_auth w)\<rparr>"
    using first(4) request_disconnect_quiet [of sid w]
    by (simp add: unregister_connection_def put_conn_def quiet_def)
  with run_unregister [OF assms, of sid] show ?thesis by simp
qed (use assms quiet_auth_view [OF request_disconnect_quiet [of sid w]] in simp_all)

lemma world_run_auth: "world_run h env0 n w \<Longrightarrow> \<exists>ds. auth_run env0 n (auth_view w ds)"
proof (induction rule: world_run.induct)
  case (world_start st)
  then show ?case using run_start [of env0 st] by auto
next
  case (world_create n w fd role)
  then show ?case by (simp add: create_def next_io_def Let_def register_connection_def put_conn_def)
next
  case (world_receive n w sid)
  have "quiet sid w (snd (receive_step h sid w))"
    by (rule receive_step_quiet) (rule world_inv_parser [OF world_run_inv [OF world_receive.hyps]])
  with world_receive.IH quiet_auth_view show ?case by metis
next
  case (world_authenticate n w sid c identity name type)
  then obtain ds where ds: "auth_run env0 n (auth_view w ds)" by blast
  show ?case
  proof (cases rule: complete_cases [OF world_authenticate.hyps(2), of h identity name type])
    case (1 t)
    with ds show ?thesis by auto
  next
    case (2 t p b w1)
    have "auth_run env0 n (auth_view (w\<lparr>w_tick := t\<rparr>) ds)" using ds by simp
    from activate_auth [OF this _ 2(1)] world_authenticate.hyps(2) 2(2) show ?thesis by auto
  qed
next
  case (world_finalize n w sid)
  then show ?case using finalize_auth by blast
next
  case (world_release n w sid)
  then obtain ds where "auth_run env0 n (auth_view w ds)" by blast
  from finalize_auth [OF this, of sid] show ?case by (auto simp: release_def Let_def)
next
  case (world_write n w env opn)
  then show ?case using run_write [of env0 n _ env opn] by fastforce
next
  case (world_scan n w)
  then obtain ds where ds: "auth_run env0 n (auth_view w ds)" by blast
  show ?case
  proof (cases "monitor_step (io_sql (h_io h (w_tick w))) (w_store w) (w_auth w) (w_monitor w)")
    case None
    with ds show ?thesis by (auto simp: world_monitor_def next_io_def)
  next
    case (Some x)
    obtain sa m out where x: "x = (sa, m, out)" by (metis prod_cases3)
    from run_monitor [OF ds, of "io_sql (h_io h (w_tick w))" sa m out] Some x
    have "auth_run env0 n (auth_view (world_monitor h w) (ds @ out))"
      by (simp add: world_monitor_def next_io_def auth_run_fold)
    then show ?thesis by blast
  qed
qed (auto simp: quiet_auth_view [OF send_preface_quiet] quiet_auth_view [OF send_packet_quiet]
      quiet_auth_view [OF request_disconnect_quiet])

section \<open>What a record may do\<close>

lemma next_io_events [simp]: "w_events (snd (next_io h w)) = w_events w"
  by (simp add: next_io_def)

lemma request_disconnect_events [simp]: "w_events (request_disconnect sid w) = w_events w"
  by (simp add: request_disconnect_def split: option.split)

lemma send_packet_locked_events: "w_events (snd (send_packet_locked h sid packet w)) = w_events w"
proof -
  have "w_events w1 = w_events w" if "conn_send_all h sid x w = (r, w1)" for x r w1
    using that by (auto simp: conn_send_all_def next_io_def split: option.splits prod.splits)
  then show ?thesis
    by (auto simp: send_packet_locked_def Let_def split: sum.split std_error.split prod.split)
qed

lemma send_packet_events: "w_events (snd (send_packet h sid packet w)) = w_events w"
  using send_packet_locked_events [of h sid packet w]
    send_packet_locked_events [of h sid packet "w\<lparr>w_tick := Suc (w_tick w)\<rparr>"]
  by (auto simp: send_packet_def next_io_def split: option.split)

lemma route_events:
  assumes "route h pkt sid peer w = (x, w1)"
  shows "w_events w1 = w_events w \<or>
    (\<exists>p msg. peer = Some p \<and> pkt_type pkt = ''message'' \<and>
       json_find ''text'' (pkt_payload pkt) = Some (JString msg) \<and>
       w_events w1 = emit_message (ap_device_id p) msg (w_events w))"
proof -
  have ping: "w_events w1 = w_events w" if "ping_handle h sid w = (y, w1)" for y w1
    using that send_packet_events [of h sid "pong_packet (h_my_device_id h)" w]
    by (auto simp: ping_handle_def split: prod.splits sum.splits)
  show ?thesis
    using assms
    by (auto simp: route_def message_handle_def json_get_string_def dest: ping
        split: if_splits prod.splits sum.splits option.splits HelloAction.splits json.splits)
qed

lemma process_packet_events:
  assumes "process_packet h sid c body pkt w = (x, w1)"
  shows "w_events w1 = w_events w \<or>
    (\<exists>p msg env. c_ready c \<and> c_authorized_peer c = Some p \<and> authorization_is_current env (w_store w) p \<and>
       pkt_type pkt = ''message'' \<and> json_find ''text'' (pkt_payload pkt) = Some (JString msg) \<and>
       w_events w1 = emit_message (ap_device_id p) msg (w_events w))"
proof (cases "\<exists>p. c_ready c \<and> c_authorized_peer c = Some p \<and> pkt_type pkt = ''message'' \<and>
    authorization_is_current (io_sql (h_io h (w_tick w))) (w_store w) p")
  case True
  then obtain p where p: "c_ready c" "c_authorized_peer c = Some p" "pkt_type pkt = ''message''"
    "authorization_is_current (io_sql (h_io h (w_tick w))) (w_store w) p" by blast
  let ?w = "w\<lparr>w_tick := Suc (w_tick w)\<rparr>"
  obtain y w2 where r: "route h pkt sid (Some p) ?w = (y, w2)" by fastforce
  have "w_events w1 = w_events w2"
    using assms p r
    by (auto simp: process_packet_def next_io_def is_control_packet_def split: sum.splits PacketRouteAction.splits)
  with route_events [OF r] p show ?thesis by auto
next
  case False
  have r0: "w_events w2 = w_events w" if "route h pkt sid None w = (y, w2)" for y w2
    using route_events [OF that] by auto
  have r1: "w_events w2 = w_events w"
    if "route h pkt sid (Some p) (w\<lparr>w_tick := Suc (w_tick w)\<rparr>) = (y, w2)" "pkt_type pkt \<noteq> ''message''" for p y w2
    using route_events [OF that(1)] that(2) by auto
  have "w_events w1 = w_events w"
    using assms False
    by (auto simp: process_packet_def next_io_def is_control_packet_def dest: r0 r1
        split: if_splits prod.splits sum.splits option.splits PacketRouteAction.splits)
  then show ?thesis ..
qed

section \<open>Properties\<close>

text \<open>C14. Every device in the registry is backed by an authenticated session: in every reachable
  state there is one READY entry per device id, and the session it names is alive, not cleaned
  up, ready, and holds an authorization with exactly the entry's device id, key, revision and
  permissions.\<close>

theorem registry_is_authenticated:
  assumes "world_run h env0 n w" and "d \<in> set (w_registry w)"
  shows "dev_state d = READY \<and> owner_of (w_registry w) (dev_device_id d) = Some d \<and>
    (\<exists>c p. w_conns w (dev_session_id d) = Some c \<and> c_ready c \<and> \<not> c_cleaned_up c \<and>
       c_authorized_peer c = Some p \<and> dev_device_id d = ap_device_id p \<and>
       dev_public_key d = ap_public_key p \<and> dev_trust_revision d = ap_revision p \<and>
       dev_permissions d = ap_permissions p)"
proof -
  have inv: "world_inv w" by (rule world_run_inv [OF assms(1)])
  then have reg: "wf_registry (w_registry w)" and own: "owned_by w (dev_session_id d) (device_matches d)"
    using assms(2) by (auto simp: world_inv_def)
  from own obtain c p where c: "w_conns w (dev_session_id d) = Some c" "\<not> c_cleaned_up c"
    "c_authorized_peer c = Some p" "device_matches d p" by (auto simp: owned_by_def split: option.splits)
  moreover have "c_ready c" using inv c by (auto simp: world_inv_def conn_wf_def)
  moreover have "owner_of (w_registry w) (dev_device_id d) = Some d"
    using reg assms(2) find_key [of dev_device_id "w_registry w" d] by (simp add: owner_of_def wf_registry_def)
  ultimately show ?thesis using reg assms(2) by (auto simp: device_matches_def wf_registry_def)
qed


text \<open>C17. A socket is shut down and closed at most once: in every reachable state a connection has
  shut its socket down exactly when it is stopping, closed it exactly when it was cleaned up,
  never closed it before stopping, and a cleaned-up session is neither registered as a device
  nor live.\<close>

theorem socket_closed_once:
  assumes "world_run h env0 n w" and "w_conns w sid = Some c"
  shows "c_shutdowns c = (if c_stopping c then 1 else 0) \<and> c_closes c = (if c_cleaned_up c then 1 else 0) \<and>
    (c_cleaned_up c \<longrightarrow> c_stopping c \<and> (\<forall>d \<in> set (w_registry w). dev_session_id d \<noteq> sid) \<and>
       sid \<notin> fst ` set (sa_live (w_auth w)))"
  using world_run_inv [OF assms(1)] assms(2)
  by (fastforce simp: world_inv_def conn_wf_def owned_by_def)

text \<open>C15. Messages come only from authorized peers: when a record changes the event bus, the session
  was ready and not stopping, the store held an active trust record for its peer with the
  session's key and revision when the record was handled, the record was a message packet with a
  text, and the event names the authenticated device id, whatever the packet claims.\<close>

theorem events_only_from_authorized_peers:
  assumes "wf_db env0 (ts_db (w_store w))" and "handle_record h sid body w = (b, w1)"
    and "w_events w1 \<noteq> w_events w"
  shows "\<exists>c p pkt msg t. w_conns w sid = Some c \<and> c_ready c \<and> \<not> c_stopping c \<and> c_authorized_peer c = Some p \<and>
    parse_packet (h_json h) body = Inr pkt \<and> pkt_type pkt = ''message'' \<and>
    json_find ''text'' (pkt_payload pkt) = Some (JString msg) \<and>
    trust_view (ts_db (w_store w)) (ap_uuid p) = Some t \<and> t_active t \<and> t_key t = ap_public_key p \<and>
    t_revision t = ap_revision p \<and>
    w_events w1 = emit_message (ap_device_id p) msg (w_events w)"
proof -
  let ?w = "w\<lparr>w_tick := Suc (w_tick w)\<rparr>"
  from assms(2,3) obtain c pkt x w2 where c: "w_conns w sid = Some c" "\<not> c_stopping c"
    and pkt: "parse_packet (h_json h) body = Inr pkt"
    and run: "process_packet h sid c body pkt ?w = (x, w2)" and ev: "w_events w1 = w_events w2"
    by (auto simp: handle_record_def next_io_def split: option.splits if_splits sum.splits prod.splits)
  from process_packet_events [OF run] assms(3) ev obtain p msg env where p: "c_ready c"
    "c_authorized_peer c = Some p" "authorization_is_current env (w_store w) p" "pkt_type pkt = ''message''"
    "json_find ''text'' (pkt_payload pkt) = Some (JString msg)"
    "w_events w1 = emit_message (ap_device_id p) msg (w_events w)" by auto
  from gate_sound [OF assms(1) p(3)] obtain t where "trust_view (ts_db (w_store w)) (ap_uuid p) = Some t"
    "t_active t" "t_key t = ap_public_key p" "t_revision t = ap_revision p"
    by (auto simp: authorization_spec_def split: option.splits if_splits)
  with c pkt p show ?thesis by blast
qed

section \<open>Witnesses\<close>

text \<open>A daemon with one trusted device: the device connects, the preface goes out, and the session is
  authenticated.\<close>

definition sample_message :: json where
  "sample_message = JObject [(''device_id'', JString ''fake''),
     (''payload'', JObject [(''text'', JString ''hi'')]), (''type'', JString ''message'')]"

definition sample_json_lib :: json_lib where
  "sample_json_lib = \<lparr>json_parse = (\<lambda>s. if s = ''m'' then Some sample_message else None),
     json_stream = (\<lambda>j. ([''x''], True))\<rparr>"

definition sample_host :: host where
  "sample_host =
     \<lparr>h_json = sample_json_lib, h_my_device_id = ''local'',
      h_io = (\<lambda>_. \<lparr>io_now = 0, io_sql = sample_env,
        io_sends = [\<lparr>se_stopping = False, se_now = 0, se_result = Inr 100, se_polls = []\<rparr>],
        io_polls = [\<lparr>pe_now = 0, pe_result = Inr 1\<rparr>], io_recv = Inr []\<rparr>)\<rparr>"

definition sample_trusting :: world where
  "sample_trusting = \<lparr>w_conns = Map.empty, w_registry = [], w_auth = new_auth, w_store = sample_imported,
     w_monitor = new_monitor, w_events = [], w_manager = [], w_next_session_id = 1, w_tick = 0\<rparr>"

definition sample_conn :: Connection where
  "sample_conn = \<lparr>c_socket_fd = 5, c_role = Outgoing, c_handshake_deadline = HANDSHAKE_TIMEOUT,
     c_started = False, c_stopping = False, c_cleaned_up = False, c_ready = False, c_peer_preface_received = False,
     c_local_preface_sent = True, c_peer_hello_received = False, c_authorized_peer = None,
     c_record_parser = new_parser, c_wire = preface_bytes, c_shutdowns = 0, c_closes = 0\<rparr>"

definition sample_prefaced :: world where
  "sample_prefaced = sample_trusting\<lparr>w_conns := [1 \<mapsto> sample_conn], w_manager := [1],
     w_next_session_id := 2, w_tick := 2\<rparr>"

definition sample_entry :: Device where
  "sample_entry = \<lparr>dev_device_id = ap_device_id sample_peer, dev_device_name = ''peer'',
     dev_device_type = ''linux'', dev_socket_fd = 5, dev_session_id = 1, dev_connection = Some 1,
     dev_preferred_connection = preferred_direction ''local'' (ap_device_id sample_peer) True,
     dev_state = READY, dev_public_key = sample_key, dev_trust_revision = 1,
     dev_permissions = [''message'', ''ping'']\<rparr>"

definition sample_authenticated :: world where
  "sample_authenticated = sample_prefaced\<lparr>
     w_conns := [1 \<mapsto> sample_conn\<lparr>c_authorized_peer := Some sample_peer, c_ready := True\<rparr>],
     w_auth := sample_auth, w_registry := [sample_entry], w_tick := 5\<rparr>"

lemma sample_trusting_run: "world_run sample_host sample_env 1 sample_trusting"
proof -
  let ?w = "\<lparr>w_conns = Map.empty, w_registry = [], w_auth = new_auth, w_store = sample_store,
    w_monitor = new_monitor, w_events = [], w_manager = [], w_next_session_id = 1, w_tick = 0\<rparr>"
  have g: "ts_local_generation sample_store = 0" by (simp add: sample_store_def)
  have "store_write (sample_env, OpImport sample_device) sample_store = sample_imported"
    by (simp only: store_write_def fst_conv snd_conv sample_runs)
  moreover have "world_run sample_host sample_env (Suc 0)
      (?w\<lparr>w_store := store_write (sample_env, OpImport sample_device) (w_store ?w)\<rparr>)"
    by (intro world_write world_start sample_wf_store g refl)
  ultimately show ?thesis by (simp add: sample_trusting_def)
qed

lemma sample_preface_sent:
  "send_preface sample_host 1 (snd (create sample_host 5 Outgoing sample_trusting)) =
     (int (length preface_bytes), sample_prefaced)"
  by (simp add: sample_prefaced_def sample_trusting_def sample_conn_def send_preface_def create_def
      next_io_def sample_host_def Let_def register_connection_def put_conn_def conn_send_all_def
      send_all_def WRITE_TIMEOUT_def HANDSHAKE_TIMEOUT_def preface_bytes_def PREFACE_SIZE_def WIRE_VERSION_def)

lemma sample_prefaced_run: "world_run sample_host sample_env 1 sample_prefaced"
proof -
  have "world_run sample_host sample_env 1
      (snd (send_preface sample_host 1 (snd (create sample_host 5 Outgoing sample_trusting))))"
    by (intro world_preface world_create sample_trusting_run) (simp add: sample_trusting_def)
  then show ?thesis by (simp add: sample_preface_sent)
qed

lemma sample_prefaced_conn: "w_conns sample_prefaced 1 = Some sample_conn"
  by (simp add: sample_prefaced_def)

lemma sample_gate:
  "authorize_verified_peer sample_env sample_imported \<lparr>vpi_uuid = sample_uuid, vpi_public_key = sample_key\<rparr> =
     Inr (Some sample_peer)"
  "authorization_is_current sample_env sample_imported sample_peer"
  "register_live_session sample_env sample_imported 1 sample_peer (Some 1) new_auth = (True, sample_auth)"
  "ap_device_id sample_peer \<noteq> ''local''" "ap_device_id sample_peer \<noteq> []"
  by code_simp+

lemma sample_completed:
  "complete_authentication_after_verified_identity sample_host 1
     \<lparr>vpi_uuid = sample_uuid, vpi_public_key = sample_key\<rparr> ''peer'' ''linux'' sample_prefaced =
     (Inr True, sample_authenticated)"
proof -
  have p: "ap_public_key sample_peer = sample_key" "ap_revision sample_peer = 1"
    "ap_permissions sample_peer = [''message'', ''ping'']" by (simp_all add: sample_peer_def)
  let ?d = "session_device sample_host 1 sample_conn sample_peer ''peer'' ''linux''"
  have pub: "publish_authenticated_device [1 \<mapsto> False] ?d sample_peer [] =
      (\<lparr>rr_accepted = True, rr_replaced_device = None\<rparr>, [sample_entry])"
    using sample_gate(5)
    by (simp add: publish_authenticated_device_def publishable_def session_device_def sample_conn_def
        sample_host_def sample_entry_def p)
  have al: "alive_of sample_prefaced = [1 \<mapsto> False]"
    by (auto simp: alive_of_def sample_prefaced_def sample_conn_def)
  have c: "\<not> c_stopping sample_conn" "\<not> c_ready sample_conn" "0 < c_handshake_deadline sample_conn"
    by (simp_all add: sample_conn_def HANDSHAKE_TIMEOUT_def)
  have io: "io_now (h_io sample_host t) = 0" "io_sql (h_io sample_host t) = sample_env" "h_my_device_id sample_host = ''local''" for t
    by (simp_all add: sample_host_def)
  have w: "w_store sample_prefaced = sample_imported" "w_auth sample_prefaced = new_auth"
    "w_registry sample_prefaced = []" "w_tick sample_prefaced = 2"
    by (simp_all add: sample_prefaced_def sample_trusting_def)
  have auth: "authorize_verified_identity sample_host 1 \<lparr>vpi_uuid = sample_uuid, vpi_public_key = sample_key\<rparr>
      sample_prefaced = (Inr (Some sample_peer), sample_prefaced\<lparr>w_tick := 3\<rparr>)"
    using c by (simp add: authorize_verified_identity_def next_io_def sample_prefaced_conn sample_gate io w)
  have tick: "next_io sample_host (sample_prefaced\<lparr>w_tick := t\<rparr>) =
      (h_io sample_host t, sample_prefaced\<lparr>w_tick := Suc t\<rparr>)" for t by (simp add: next_io_def)
  have "activate_authorized_peer sample_host 1 sample_peer ''peer'' ''linux'' (sample_prefaced\<lparr>w_tick := 3\<rparr>) =
      (True, put_conn 1 (sample_conn\<lparr>c_authorized_peer := Some sample_peer, c_ready := True\<rparr>)
         (sample_prefaced\<lparr>w_tick := 5, w_auth := sample_auth, w_registry := [sample_entry]\<rparr>))"
    using c by (simp add: activate_authorized_peer_def tick sample_prefaced_conn sample_gate io w al pub not_le)
  with auth show ?thesis
    by (simp add: complete_authentication_after_verified_identity_def put_conn_def sample_authenticated_def
        sample_prefaced_def)
qed

lemma sample_authenticated_run: "world_run sample_host sample_env 1 sample_authenticated"
proof -
  have "c_local_preface_sent sample_conn" by (simp add: sample_conn_def)
  from world_authenticate [OF sample_prefaced_run sample_prefaced_conn this]
  show ?thesis using sample_completed by (metis snd_conv)
qed

theorem registry_is_authenticated_witness:
  "\<exists>c p. w_conns sample_authenticated 1 = Some c \<and> c_ready c \<and> c_authorized_peer c = Some p \<and>
     dev_device_id sample_entry = ap_device_id p"
proof -
  have d: "sample_entry \<in> set (w_registry sample_authenticated)" "dev_session_id sample_entry = 1"
    by (simp_all add: sample_authenticated_def sample_entry_def)
  from registry_is_authenticated [OF sample_authenticated_run d(1)] show ?thesis unfolding d(2) by blast
qed


theorem socket_closed_once_witness:
  "\<exists>c. w_conns (finalize_disconnect 1 (finalize_disconnect 1 sample_prefaced)) 1 = Some c \<and>
     c_cleaned_up c \<and> c_closes c = 1 \<and> c_shutdowns c = 1"
proof -
  have "\<exists>c. w_conns (finalize_disconnect 1 (finalize_disconnect 1 sample_prefaced)) 1 = Some c \<and> c_cleaned_up c"
    by (simp add: finalize_disconnect_def request_disconnect_def Let_def sample_prefaced_conn
        unregister_connection_def put_conn_def)
  then obtain c where c: "w_conns (finalize_disconnect 1 (finalize_disconnect 1 sample_prefaced)) 1 = Some c"
    "c_cleaned_up c" by blast
  with socket_closed_once [OF world_finalize [OF world_finalize [OF sample_prefaced_run]] c(1)]
  show ?thesis by auto
qed

theorem events_only_from_authorized_peers_witness:
  "w_events (snd (handle_record sample_host 1 ''m'' sample_authenticated)) =
     emit_message (ap_device_id sample_peer) ''hi'' [] \<and>
   (\<exists>t. trust_view (ts_db sample_imported) (ap_uuid sample_peer) = Some t \<and> t_active t)"
proof -
  let ?pkt = "\<lparr>pkt_type = ''message'', pkt_device_id = ''fake'',
      pkt_payload = JObject [(''text'', JString ''hi'')]\<rparr>"
  have pkt: "parse_packet (h_json sample_host) ''m'' = Inr ?pkt"
    by (simp add: sample_host_def sample_json_lib_def sample_message_def parse_packet_def json_find_def
        json_get_string_def)
  have io: "io_sql (h_io sample_host t) = sample_env" for t by (simp add: sample_host_def)
  have w: "w_store sample_authenticated = sample_imported" "w_events sample_authenticated = []"
    "w_conns sample_authenticated 1 = Some (sample_conn\<lparr>c_authorized_peer := Some sample_peer, c_ready := True\<rparr>)"
    by (simp_all add: sample_authenticated_def sample_prefaced_def sample_trusting_def)
  have "w_events (snd (handle_record sample_host 1 ''m'' sample_authenticated)) =
      emit_message (ap_device_id sample_peer) ''hi'' []"
    by (simp add: handle_record_def process_packet_def next_io_def w pkt io sample_gate route_def
        message_handle_def is_control_packet_def json_find_def json_get_string_def) (simp add: sample_conn_def w)
  then have ev: "w_events (snd (handle_record sample_host 1 ''m'' sample_authenticated)) \<noteq> w_events sample_authenticated"
    by (simp add: w emit_message_def MAX_STORED_EVENTS_def)
  have "wf_db sample_env (ts_db (w_store sample_authenticated))" using sample_wf(1) w by simp
  from events_only_from_authorized_peers [OF this surjective_pairing ev] w pkt show ?thesis
    by (auto simp: json_find_def)
qed

end
