(* ===== verification/Delivery.thy ===== *)
theory Delivery
  imports Session_Safety
begin

text \<open>
  Two daemons joined by a connection: the composition of the sending path (\<open>send_packet\<close> of a session, the
  bounded serializer, the record encoder, partial socket writes) with the receiving path of the peer (the
  receive loop, the record parser, the packet parser, the router, the message handler, the event
  bus).  A \<open>link\<close> has the states of both daemons, the bytes that the network still holds and the texts
  whose sending was reported as successful.  The network delivers the bytes in order, in pieces of any size.
\<close>

section \<open>Following a parser\<close>

text \<open>What a handler does with a sequence of records, when it never stops the parser.\<close>

fun handle_all :: "('s, 'x) RecordHandler \<Rightarrow> 's \<Rightarrow> string list \<Rightarrow> 's option" where
  "handle_all h s [] = Some s"
| "handle_all h s (r # rs) =
     (case h s r of
        (Inr True, s1) \<Rightarrow> handle_all h s1 rs
      | _ \<Rightarrow> None)"

lemma handle_all_Cons:
  "handle_all h s (r # rs) = Some s2 \<Longrightarrow> \<exists>s1. h s r = (Inr True, s1) \<and> handle_all h s1 rs = Some s2"
  by (auto split: prod.splits sum.splits bool.splits)

interpretation collected_prefix: record_client collect "prefix rs0" limit
  for rs0 limit
  by unfold_locales (auto simp: collect_def prefix_def)

lemma feed_collect_extends:
  assumes "wf_parser p" and "feed collect p rs xs = (res, q, rs1)"
  obtains new where "rs1 = rs @ new"
  using collected_prefix.feed_inv [OF assms(1) order.refl prefix_order.refl assms(2)] by (auto simp: prefix_def)

text \<open>A byte either completes no record, or exactly the one that it hands over.\<close>

lemma feed_byte_follow:
  assumes "feed_byte collect p rs c = (Returned True, q, rs1)"
  shows "rs1 = rs \<and> (\<forall>s. feed_byte h p s c = (Returned True, q, s)) \<or>
    (\<exists>r q0. rs1 = rs @ [r] \<and> q = q0\<lparr>payload := []\<rparr> \<and> (\<forall>s. feed_byte h p s c = emit h q0 s r))"
proof -
  let ?hdr = "(header p)[1 := byte_of_char c]"
  consider (empty) "phase p = Header" "header_offset p \<noteq> 0" "header_length ?hdr = 0"
    | (full) "phase p = Payload" "Suc (length (payload p)) = expected_payload_size p"
    | (other) "\<not> (phase p = Header \<and> header_offset p \<noteq> 0 \<and> header_length ?hdr = 0)"
      "\<not> (phase p = Payload \<and> Suc (length (payload p)) = expected_payload_size p)" by argo
  then show ?thesis
  proof cases
    case empty
    with assms show ?thesis
      by (intro disjI2 exI [of _ "[]"]
          exI [of _ "p\<lparr>header := ?hdr, expected_payload_size := 0, header_offset := 0, payload := []\<rparr>"])
        (auto simp: feed_byte_def Let_def emit_collect)
  next
    case full
    with assms show ?thesis
      by (intro disjI2 exI [of _ "payload p @ [c]"]
          exI [of _ "p\<lparr>payload := payload p @ [c], phase := Header, expected_payload_size := 0\<rparr>"])
        (auto simp: feed_byte_def Let_def emit_collect)
  next
    case other
    with assms show ?thesis
      by (cases "phase p") (auto simp: feed_byte_def Let_def split: if_splits)
  qed
qed

lemma feed_follow:
  assumes "wf_parser p" and "feed collect p rs xs = (Returned True, q, rs @ new)"
    and "handle_all h s new = Some s1"
  shows "feed h p s xs = (Returned True, q, s1)"
  using assms
proof (induction xs arbitrary: p rs s new)
  case (Cons c xs)
  obtain r p1 rs1 where fb: "feed_byte collect p rs c = (r, p1, rs1)" by (metis prod_cases3)
  with Cons.prems(2) have r: "r = Returned True" and rest: "feed collect p1 rs1 xs = (Returned True, q, rs @ new)"
    by (auto split: consume_result.splits bool.splits)
  have wf: "wf_parser p1" using wf_feed_byte [OF Cons.prems(1) fb] .
  obtain new1 where new1: "rs @ new = rs1 @ new1" using feed_collect_extends [OF wf rest] by blast
  from feed_byte_follow [OF fb [unfolded r], of h] show ?case
  proof (elim disjE conjE exE)
    assume "rs1 = rs" and "\<forall>s. feed_byte h p s c = (Returned True, p1, s)"
    with Cons.IH [OF wf] rest Cons.prems(3) show ?thesis by simp
  next
    fix rec q0
    assume rs1: "rs1 = rs @ [rec]" and p1: "p1 = q0\<lparr>payload := []\<rparr>" and e: "\<forall>s. feed_byte h p s c = emit h q0 s rec"
    with new1 have new: "new = rec # new1" by simp
    with Cons.prems(3) obtain s2 where s2: "h s rec = (Inr True, s2)" "handle_all h s2 new1 = Some s1"
      using handle_all_Cons by metis
    have "feed h p1 s2 xs = (Returned True, q, s1)"
      using Cons.IH [OF wf, of rs1 new1 s2] rest s2(2) new1 by simp
    then show ?thesis using e s2(1) p1 by (simp add: emit_def)
  qed
qed simp

section \<open>The sending daemon\<close>

abbreviation message_packet :: "host \<Rightarrow> string \<Rightarrow> json" where
  "message_packet h msg \<equiv> build_message_packet (h_my_device_id h) msg"

definition message_body :: "host \<Rightarrow> string \<Rightarrow> string" where
  "message_body h msg = concat (fst (json_stream (h_json h) (message_packet h msg)))"

text \<open>The text can be serialized and fits a record.\<close>

definition sendable :: "host \<Rightarrow> string \<Rightarrow> bool" where
  "sendable h msg \<longleftrightarrow> json_dump (h_json h) (message_packet h msg) = Inr (message_body h msg) \<and>
     length (message_body h msg) \<le> MAX_RECORD_SIZE"

lemma message_packet_object:
  "message_packet h msg = JObject [(''device_id'', JString (h_my_device_id h)),
     (''payload'', JObject [(''text'', JString msg)]), (''type'', JString ''message'')]"
  by (simp add: build_message_packet_def less_list_code less_char_def)

lemma text_not_control: "\<not> is_control_record (message_packet h msg)"
  by (simp add: is_control_record_def message_packet_object)

lemma stream_message:
  assumes "stream_packet (h_json h) MAX_RECORD_SIZE (message_packet h msg) = Inr data"
  shows "data = message_body h msg \<and> sendable h msg"
  using assms
  by (auto simp: stream_packet_def write_chunks_spec message_body_def sendable_def json_dump_def
      split: prod.splits if_splits)

definition sent_fine :: "std_error + int \<Rightarrow> bool" where
  "sent_fine r \<longleftrightarrow> (\<exists>n \<ge> 0. r = Inr n)"

text \<open>What a send adds to the bytes of the session: the whole record when it reports success; otherwise nothing,
  or a part of it, and then the session is stopping.\<close>

definition send_outcome :: "host \<Rightarrow> string \<Rightarrow> std_error + int \<Rightarrow> Connection \<Rightarrow> Connection \<Rightarrow> bool" where
  "send_outcome h msg r c c1 \<longleftrightarrow>
     (\<exists>out. c_wire c1 = c_wire c @ out \<and> (c_stopping c \<longrightarrow> c_stopping c1 \<and> out = []) \<and>
        (if sent_fine r then sendable h msg \<and> out = wire (message_body h msg) \<and> \<not> c_stopping c
         else out = [] \<or> c_stopping c1 \<and> sendable h msg \<and> strict_prefix out (wire (message_body h msg))))"

lemma send_outcome_none: "\<not> sent_fine r \<Longrightarrow> c_wire c1 = c_wire c \<Longrightarrow> (c_stopping c \<Longrightarrow> c_stopping c1) \<Longrightarrow> send_outcome h msg r c c1"
  by (simp add: send_outcome_def)

lemma not_sent_fine [simp]: "\<not> sent_fine (Inl e)" "\<not> sent_fine (Inr (- 1))"
  by (simp_all add: sent_fine_def)

lemma send_locked_outcome:
  assumes "w_conns w sid = Some c" and "\<not> c_stopping c"
    and "send_packet_locked h sid (message_packet h msg) w = (r, w1)"
  shows "\<exists>c1. w_conns w1 sid = Some c1 \<and> send_outcome h msg r c c1"
proof (cases "stream_packet (h_json h) MAX_RECORD_SIZE (message_packet h msg)")
  case (Inl e)
  with assms show ?thesis
    by (cases e) (auto simp: send_packet_locked_def text_not_control intro!: send_outcome_none)
next
  case (Inr data)
  then have data: "data = message_body h msg" "sendable h msg" using stream_message by blast+
  then have enc: "encode_record data = Inr (wire data)"
    using encode_record_eq [of data] by (simp add: sendable_def wire_def)
  have type: "value_type (message_packet h msg) = Inr ''message''"
    by (simp add: value_type_def message_packet_object json_get_string_def)
  obtain n w2 where send: "conn_send_all h sid (wire data) w = (n, w2)" by fastforce
  from conn_send_all_cases [OF send assms(1)] obtain out where
    w2: "w2 = put_conn sid (c\<lparr>c_wire := c_wire c @ out\<rparr>) (w\<lparr>w_tick := Suc (w_tick w)\<rparr>)"
    and out: "n \<ge> 0 \<and> out = wire data \<or> n < 0 \<and> strict_prefix out (wire data)" by blast
  have r: "r = Inr n" "w1 = (if n < 0 then request_disconnect sid w2 else w2)"
    using assms(3) Inr enc type send by (auto simp: send_packet_locked_def text_not_control split: if_splits)
  show ?thesis
  proof (cases "n < 0")
    case True
    then show ?thesis using r w2 out assms(2) data
      by (auto simp: request_disconnect_def send_outcome_def sent_fine_def)
  next
    case False
    then show ?thesis using r w2 out assms(2) data by (auto simp: send_outcome_def sent_fine_def)
  qed
qed

lemma send_message_outcome:
  assumes "w_conns w sid = Some c" and "send_packet h sid (message_packet h msg) w = (r, w1)"
  shows "\<exists>c1. w_conns w1 sid = Some c1 \<and> send_outcome h msg r c c1"
proof (cases "c_stopping c \<or> \<not> c_ready c \<or> c_authorized_peer c = None")
  case True
  with assms show ?thesis by (auto simp: send_packet_def intro!: send_outcome_none split: if_splits)
next
  case False
  then obtain p where p: "c_authorized_peer c = Some p" "\<not> c_stopping c" "c_ready c" by auto
  let ?w = "w\<lparr>w_tick := Suc (w_tick w)\<rparr>"
  show ?thesis
  proof (cases "authorization_is_current (io_sql (h_io h (w_tick w))) (w_store w) p")
    case True
    then have "send_packet_locked h sid (message_packet h msg) ?w = (r, w1)"
      using assms p by (simp add: send_packet_def text_not_control next_io_def)
    then show ?thesis using send_locked_outcome [of ?w] assms(1) p(2) by simp
  next
    case False
    then have "r = Inr (- 1)" "w1 = request_disconnect sid ?w"
      using assms p by (simp_all add: send_packet_def text_not_control next_io_def)
    then show ?thesis using assms(1) p(2)
      by (auto simp: request_disconnect_def intro!: send_outcome_none)
  qed
qed

section \<open>The receiving daemon\<close>

text \<open>A session that is authenticated, and whose peer the trust store confirms whenever it is asked.\<close>

definition trusting :: "host \<Rightarrow> session_id \<Rightarrow> AuthorizedPeer \<Rightarrow> world \<Rightarrow> bool" where
  "trusting h sid q w \<longleftrightarrow>
     (\<exists>c. w_conns w sid = Some c \<and> c_ready c \<and> \<not> c_stopping c \<and> c_peer_preface_received c \<and>
        c_authorized_peer c = Some q) \<and>
     (\<forall>t. authorization_is_current (io_sql (h_io h t)) (w_store w) q)"

definition receive_messages :: "AuthorizedPeer \<Rightarrow> string list \<Rightarrow> world \<Rightarrow> world" where
  "receive_messages q msgs w =
     w\<lparr>w_tick := w_tick w + 2 * length msgs,
       w_events := foldl (\<lambda>es msg. emit_message (ap_device_id q) msg es) (w_events w) msgs\<rparr>"

lemma trusting_receive [simp]: "trusting h sid q (receive_messages q msgs w) = trusting h sid q w"
  by (simp add: trusting_def receive_messages_def)

lemma message_parsed:
  assumes "json_parse J body = Some (message_packet h msg)"
  shows "parse_packet J body = Inr \<lparr>pkt_type = ''message'', pkt_device_id = h_my_device_id h,
    pkt_payload = JObject [(''text'', JString msg)]\<rparr>"
  using assms by (simp add: parse_packet_def message_packet_object)

lemma message_record:
  assumes "trusting h sid q w" and "json_parse (h_json h) body = Some (message_packet ha msg)"
  shows "record_handler h sid w body = (Inr True, receive_messages q [msg] w)"
proof -
  from assms(1) obtain c where c: "w_conns w sid = Some c" "c_ready c" "\<not> c_stopping c" "c_peer_preface_received c"
    "c_authorized_peer c = Some q" and gate: "\<And>t. authorization_is_current (io_sql (h_io h t)) (w_store w) q"
    by (auto simp: trusting_def)
  show ?thesis
    by (simp add: record_handler_def accept_peer_preface_def handle_record_def next_io_def c message_parsed [OF assms(2)]
        process_packet_def is_control_packet_def gate route_def message_handle_def json_get_string_def is_stopping_def
        receive_messages_def)
qed

lemma receive_messages_Cons: "receive_messages q msgs (receive_messages q [msg] w) = receive_messages q (msg # msgs) w"
  by (simp add: receive_messages_def)

lemma message_records:
  assumes "trusting h sid q w" and "\<forall>msg \<in> set msgs. json_parse (h_json h) (body msg) = Some (message_packet ha msg)"
  shows "handle_all (record_handler h sid) w (map body msgs) = Some (receive_messages q msgs w)"
  using assms
proof (induction msgs arbitrary: w)
  case (Cons msg msgs)
  then show ?case
    using message_record [of h sid q w "body msg" ha msg] by (simp add: receive_messages_Cons)
qed (simp add: receive_messages_def)

lemma receive_chunk_messages:
  assumes "trusting h sid q w" and "w_conns w sid = Some c" and "Framing.accepting (c_record_parser c)"
    and "feed collect (c_record_parser c) rs bytes = (Returned True, p1, rs @ map body msgs)"
    and "\<forall>msg \<in> set msgs. json_parse (h_json h) (body msg) = Some (message_packet ha msg)"
  shows "receive_chunk h sid bytes w =
    (RecvContinue, put_conn sid (c\<lparr>c_record_parser := p1\<rparr>) (receive_messages q msgs w))"
proof -
  have wf: "wf_parser (c_record_parser c)" using assms(3) by (simp add: Framing.accepting_def)
  have f: "feed (record_handler h sid) (c_record_parser c) w bytes = (Returned True, p1, receive_messages q msgs w)"
    by (rule feed_follow [OF wf assms(4) message_records [OF assms(1,5)]])
  have c: "w_conns (receive_messages q msgs w) sid = Some c" using assms(2) by (simp add: receive_messages_def)
  have c1: "c_peer_preface_received c" "\<not> c_stopping c" using assms(1,2) by (auto simp: trusting_def)
  show ?thesis
    by (simp add: receive_chunk_def assms(2) consume_eq_feed [OF assms(3)] f c is_stopping_def accept_peer_preface_def c1 Let_def)
qed

section \<open>A stream of messages\<close>

lemma feed_phase:
  assumes "phase p \<noteq> Preface" and "feed h p s xs = (res, q, s1)"
  shows "phase q \<noteq> Preface"
  using assms
proof (induction xs arbitrary: p s)
  case (Cons c xs)
  obtain r p1 t where fb: "feed_byte h p s c = (r, p1, t)" by (metis prod_cases3)
  with Cons.prems(1) have "phase p1 \<noteq> Preface"
    by (cases "phase p") (auto simp: feed_byte_def emit_def Let_def split: if_splits prod.splits sum.splits)
  with Cons fb show ?case by (auto split: consume_result.splits bool.splits)
qed simp

abbreviation message_stream :: "host \<Rightarrow> string list \<Rightarrow> string" where
  "message_stream h msgs \<equiv> concat (map wire (map (message_body h) msgs))"

text \<open>What may follow the whole records: nothing, or a part of one more.\<close>

definition cut_record :: "host \<Rightarrow> string \<Rightarrow> bool" where
  "cut_record h tail \<longleftrightarrow> tail = [] \<or> (\<exists>m. sendable h m \<and> strict_prefix tail (wire (message_body h m)))"

lemma feed_messages:
  assumes "at_boundary p" and "maximum_record_size p = MAX_RECORD_SIZE" and "\<forall>m \<in> set msgs. sendable h m"
  shows "\<exists>q. feed collect p [] (message_stream h msgs) = (Returned True, q, map (message_body h) msgs) \<and> at_boundary q"
  using feed_wires [OF assms(1), of "map (message_body h) msgs" "[]"] assms(2,3) by (auto simp: sendable_def)

lemma feed_split:
  assumes "feed h p s (xs @ ys) = (Returned True, q, s2)"
  obtains p1 s1 where "feed h p s xs = (Returned True, p1, s1)" "feed h p1 s1 ys = (Returned True, q, s2)"
  using assms by (auto simp: feed_append split: prod.splits consume_result.splits bool.splits)

lemma prefix_map: "prefix xs (map f ys) \<Longrightarrow> \<exists>zs. xs = map f zs \<and> prefix zs ys"
  by (metis prefix_def map_eq_append_conv)

text \<open>Feeding any beginning of such a stream succeeds and hands over the first messages; feeding all of it
  hands over all of them.\<close>

lemma feed_beginning:
  assumes "at_boundary p" and "maximum_record_size p = MAX_RECORD_SIZE" and "\<forall>m \<in> set msgs. sendable h m"
    and "cut_record h tail" and "seen @ rest = message_stream h msgs @ tail"
  shows "\<exists>p1 got. feed collect p [] seen = (Returned True, p1, map (message_body h) got) \<and> prefix got msgs \<and>
    (rest = [] \<longrightarrow> got = msgs)"
proof -
  have wf: "wf_parser p" and header: "phase p \<noteq> Preface" and start: "consumed p [] = preface_bytes"
    using assms(1) by (auto simp: at_boundary_def Framing.accepting_def consumed_def Framing.pending_def)
  obtain more where more: "tail = [] \<and> more = [] \<or>
      (\<exists>m. more = [m] \<and> sendable h m \<and> strict_prefix tail (wire (message_body h m)))"
    using assms(4) by (auto simp: cut_record_def)
  then have "prefix tail (message_stream h more)" by (auto simp: strict_prefix_def)
  then obtain z where z: "message_stream h more = tail @ z" by (auto simp: prefix_def)
  have joined: "message_stream h (msgs @ more) = seen @ rest @ z"
    unfolding map_append concat_append z append_assoc [symmetric] assms(5) by simp
  obtain q where "feed collect p [] (message_stream h (msgs @ more)) = (Returned True, q, map (message_body h) (msgs @ more))"
    using feed_messages [OF assms(1,2), of "msgs @ more" h] assms(3) more by auto
  then have full: "feed collect p [] (seen @ rest @ z) = (Returned True, q, map (message_body h) (msgs @ more))"
    by (simp only: joined)
  from feed_split [OF this] obtain p1 rs where p1: "feed collect p [] seen = (Returned True, p1, rs)"
    "feed collect p1 rs (rest @ z) = (Returned True, q, map (message_body h) (msgs @ more))" by blast
  have wf1: "wf_parser p1" by (rule wf_feed [OF wf p1(1)])
  obtain new where "map (message_body h) (msgs @ more) = rs @ new" using feed_collect_extends [OF wf1 p1(2)] .
  then obtain got where got: "rs = map (message_body h) got" "prefix got (msgs @ more)"
    using prefix_map [of rs "message_body h" "msgs @ more"] by (auto simp: prefix_def)
  have "consumed p1 rs = preface_bytes @ seen"
    using consumed_feed [OF wf _ p1(1)] header start by simp
  then have seen: "seen = message_stream h got @ Framing.pending p1"
    using feed_phase [OF header p1(1)] got(1) by (simp add: consumed_def)
  have pre: "prefix got msgs"
  proof (rule ccontr)
    assume "\<not> prefix got msgs"
    with got(2) more obtain m where m: "got = msgs @ [m]" "strict_prefix tail (wire (message_body h m))"
      by (auto simp: prefix_Cons prefix_append)
    then have "length tail < length (wire (message_body h m))" by (simp add: prefix_length_less)
    moreover have "length (seen @ rest) = length (message_stream h msgs @ tail)" using assms(5) by (rule arg_cong)
    moreover have "length seen \<ge> length (message_stream h msgs) + length (wire (message_body h m))"
      using seen m(1) by simp
    ultimately show False by simp
  qed
  have "got = msgs" if "rest = []"
  proof -
    from p1(1) that have "feed collect p [] (message_stream h msgs @ tail) = (Returned True, p1, rs)"
      using assms(5) by simp
    from feed_split [OF this] obtain p2 rs2 where
      p2: "feed collect p [] (message_stream h msgs) = (Returned True, p2, rs2)" "feed collect p2 rs2 tail = (Returned True, p1, rs)"
      by blast
    have "rs2 = map (message_body h) msgs" using feed_messages [OF assms(1-3)] p2(1) by auto
    moreover obtain new where "rs = rs2 @ new" using feed_collect_extends [OF wf_feed [OF wf p2(1)] p2(2)] .
    ultimately have "length msgs \<le> length got" using got(1) by (metis length_append length_map le_add1)
    then show ?thesis using pre by (auto simp: prefix_def)
  qed
  then show ?thesis using p1(1) got(1) pre by blast
qed

section \<open>The link\<close>

text \<open>
  \<open>lk_sent\<close> are the texts whose sending was reported as successful and \<open>lk_read\<close> the events that the
  receiving side has taken from its bus, both oldest first.
\<close>

record link =
  lk_sender :: world
  lk_receiver :: world
  lk_flight :: string
  lk_sent :: "string list"
  lk_read :: "MessageEvent list"

text \<open>
  Sends may fail; an iteration of the receive loop takes what the socket gives it, up to its buffer size;
  events are read at any time.  Between these steps the other threads of both daemons may do anything that
  leaves this session and, at the receiver, the events and the trust in the peer as they are.
\<close>

inductive link_run ::
  "host \<Rightarrow> session_id \<Rightarrow> host \<Rightarrow> session_id \<Rightarrow> AuthorizedPeer \<Rightarrow> world \<Rightarrow> world \<Rightarrow> link \<Rightarrow> bool"
  for ha sa hb sb q wa wb where
  link_start:
  "link_run ha sa hb sb q wa wb \<lparr>lk_sender = wa, lk_receiver = wb, lk_flight = [], lk_sent = [], lk_read = []\<rparr>"
| link_send:
  "\<lbrakk>link_run ha sa hb sb q wa wb l; w_conns (lk_sender l) sa = Some c;
    send_packet ha sa (message_packet ha msg) (lk_sender l) = (r, w1); w_conns w1 sa = Some c1\<rbrakk> \<Longrightarrow>
   link_run ha sa hb sb q wa wb
     (l\<lparr>lk_sender := w1, lk_flight := lk_flight l @ drop (length (c_wire c)) (c_wire c1),
        lk_sent := lk_sent l @ (if sent_fine r then [msg] else [])\<rparr>)"
| link_receive:
  "\<lbrakk>link_run ha sa hb sb q wa wb l; io = h_io hb (w_tick (lk_receiver l));
    wait_for_socket None (io_polls io) = Some n; n > 0; io_recv io = Inr bytes; bytes \<noteq> [];
    lk_flight l = take 4096 bytes @ rest; receive_step hb sb (lk_receiver l) = (res, w1)\<rbrakk> \<Longrightarrow>
   link_run ha sa hb sb q wa wb (l\<lparr>lk_receiver := w1, lk_flight := rest\<rparr>)"
| link_read:
  "\<lbrakk>link_run ha sa hb sb q wa wb l; consume_events (w_events (lk_receiver l)) = (events, left)\<rbrakk> \<Longrightarrow>
   link_run ha sa hb sb q wa wb
     (l\<lparr>lk_receiver := (lk_receiver l)\<lparr>w_events := left\<rparr>, lk_read := lk_read l @ events\<rparr>)"
| link_sender_other:
  "\<lbrakk>link_run ha sa hb sb q wa wb l; w_conns w1 sa = w_conns (lk_sender l) sa\<rbrakk> \<Longrightarrow>
   link_run ha sa hb sb q wa wb (l\<lparr>lk_sender := w1\<rparr>)"
| link_receiver_other:
  "\<lbrakk>link_run ha sa hb sb q wa wb l; w_conns w1 sb = w_conns (lk_receiver l) sb;
    w_events w1 = w_events (lk_receiver l); trusting hb sb q w1\<rbrakk> \<Longrightarrow>
   link_run ha sa hb sb q wa wb (l\<lparr>lk_receiver := w1\<rparr>)"

abbreviation message_event :: "AuthorizedPeer \<Rightarrow> string \<Rightarrow> MessageEvent" where
  "message_event q msg \<equiv> \<lparr>ev_device_id = ap_device_id q, ev_text = msg\<rparr>"

text \<open>What was read and what is on the bus, given the messages received so far: the bus drops the
  oldest events when it is full, and nothing else is lost.\<close>

definition events_of :: "AuthorizedPeer \<Rightarrow> string list \<Rightarrow> MessageEvent list \<Rightarrow> MessageEvent list \<Rightarrow> bool" where
  "events_of q got read events \<longleftrightarrow>
     (\<exists>taken kept. got = taken @ kept \<and> events = last_n MAX_STORED_EVENTS (map (message_event q) kept) \<and>
        subseq read (map (message_event q) taken) \<and>
        (length taken \<le> MAX_STORED_EVENTS \<longrightarrow> read = map (message_event q) taken))"

lemma emit_messages:
  "foldl (\<lambda>es msg. emit_message d msg es) (last_n MAX_STORED_EVENTS es) msgs =
     last_n MAX_STORED_EVENTS (es @ map (\<lambda>msg. \<lparr>ev_device_id = d, ev_text = msg\<rparr>) msgs)"
  by (induction msgs arbitrary: es) (simp_all add: emit_last_n)

lemma events_of_receive:
  assumes "events_of q got read (w_events w)"
  shows "events_of q (got @ msgs) read (w_events (receive_messages q msgs w))"
proof -
  from assms obtain taken kept where "got = taken @ kept" "subseq read (map (message_event q) taken)"
    "w_events w = last_n MAX_STORED_EVENTS (map (message_event q) kept)"
    "length taken \<le> MAX_STORED_EVENTS \<longrightarrow> read = map (message_event q) taken" by (auto simp: events_of_def)
  then show ?thesis unfolding events_of_def
    by (intro exI [of _ taken] exI [of _ "kept @ msgs"]) (simp add: receive_messages_def emit_messages)
qed

lemma subseq_last_n: "subseq (last_n n xs) xs"
  unfolding last_n_def by (metis append_take_drop_id list_emb_append2 subseq_order.refl)

lemma last_n_all: "length xs \<le> n \<Longrightarrow> last_n n xs = xs"
  by (simp add: last_n_def)

lemma events_of_result:
  assumes "events_of q got read events"
  shows "subseq (read @ events) (map (message_event q) got) \<and>
    (length got \<le> MAX_STORED_EVENTS \<longrightarrow> read @ events = map (message_event q) got)"
  using assms by (auto simp: events_of_def last_n_all intro!: list_emb_append_mono subseq_last_n)

lemma events_of_read:
  assumes "events_of q got read events"
  shows "events_of q got (read @ events) []"
  unfolding events_of_def using events_of_result [OF assms]
  by (intro exI [of _ got] exI [of _ "[]"]) (simp add: last_n_def)

definition link_inv :: "host \<Rightarrow> session_id \<Rightarrow> host \<Rightarrow> session_id \<Rightarrow> AuthorizedPeer \<Rightarrow> parser \<Rightarrow> link \<Rightarrow> bool" where
  "link_inv ha sa hb sb q p l \<longleftrightarrow>
     (\<exists>ca cb tail seen got.
        w_conns (lk_sender l) sa = Some ca \<and> w_conns (lk_receiver l) sb = Some cb \<and>
        trusting hb sb q (lk_receiver l) \<and> (\<forall>m \<in> set (lk_sent l). sendable ha m) \<and>
        cut_record ha tail \<and> (tail \<noteq> [] \<longrightarrow> c_stopping ca) \<and>
        seen @ lk_flight l = message_stream ha (lk_sent l) @ tail \<and>
        feed collect p [] seen = (Returned True, c_record_parser cb, map (message_body ha) got) \<and>
        prefix got (lk_sent l) \<and> events_of q got (lk_read l) (w_events (lk_receiver l)))"

lemma link_invE:
  assumes "link_inv ha sa hb sb q p l"
  obtains ca cb tail seen got where "w_conns (lk_sender l) sa = Some ca" "w_conns (lk_receiver l) sb = Some cb"
    "trusting hb sb q (lk_receiver l)" "\<forall>m \<in> set (lk_sent l). sendable ha m"
    "cut_record ha tail" "tail \<noteq> [] \<longrightarrow> c_stopping ca" "seen @ lk_flight l = message_stream ha (lk_sent l) @ tail"
    "feed collect p [] seen = (Returned True, c_record_parser cb, map (message_body ha) got)"
    "prefix got (lk_sent l)" "events_of q got (lk_read l) (w_events (lk_receiver l))"
  using assms unfolding link_inv_def by blast

lemma link_inv_send:
  assumes "link_inv ha sa hb sb q p l" and "w_conns (lk_sender l) sa = Some c"
    and "send_packet ha sa (message_packet ha msg) (lk_sender l) = (r, w1)" and "w_conns w1 sa = Some c1"
  shows "link_inv ha sa hb sb q p
    (l\<lparr>lk_sender := w1, lk_flight := lk_flight l @ drop (length (c_wire c)) (c_wire c1),
       lk_sent := lk_sent l @ (if sent_fine r then [msg] else [])\<rparr>)"
proof -
  from assms(1) obtain ca cb tail seen got where inv: "w_conns (lk_sender l) sa = Some ca" "w_conns (lk_receiver l) sb = Some cb"
    "trusting hb sb q (lk_receiver l)" "\<forall>m \<in> set (lk_sent l). sendable ha m"
    "cut_record ha tail" "tail \<noteq> [] \<longrightarrow> c_stopping ca" "seen @ lk_flight l = message_stream ha (lk_sent l) @ tail"
    "feed collect p [] seen = (Returned True, c_record_parser cb, map (message_body ha) got)"
    "prefix got (lk_sent l)" "events_of q got (lk_read l) (w_events (lk_receiver l))"
    by (rule link_invE)
  have ca: "ca = c" using inv(1) assms(2) by simp
  from send_message_outcome [OF assms(2,3)] assms(4) have "send_outcome ha msg r c c1" by simp
  then obtain out where out: "c_wire c1 = c_wire c @ out" "c_stopping c \<longrightarrow> c_stopping c1 \<and> out = []"
    "if sent_fine r then sendable ha msg \<and> out = wire (message_body ha msg) \<and> \<not> c_stopping c
     else out = [] \<or> c_stopping c1 \<and> sendable ha msg \<and> strict_prefix out (wire (message_body ha msg))"
    by (auto simp: send_outcome_def)
  define tail1 where "tail1 = (if sent_fine r then [] else tail @ out)"
  have "message_stream ha (lk_sent l) @ tail @ out =
      message_stream ha (lk_sent l @ (if sent_fine r then [msg] else [])) @ tail1"
    using out(3) inv(6) ca by (auto simp: tail1_def)
  moreover have "cut_record ha tail1 \<and> (tail1 \<noteq> [] \<longrightarrow> c_stopping c1)"
    using inv(5,6) ca out(2,3) by (cases "tail = []") (auto simp: tail1_def cut_record_def split: if_splits)
  moreover have "\<forall>m \<in> set (lk_sent l @ (if sent_fine r then [msg] else [])). sendable ha m"
    using inv(4) out(3) by (auto split: if_splits)
  ultimately show ?thesis
    unfolding link_inv_def using inv assms(4) out(1)
    by (intro exI [of _ c1] exI [of _ cb] exI [of _ tail1] exI [of _ seen] exI [of _ got])
      (simp add: append_assoc [symmetric] del: append_assoc)
qed

text \<open>One iteration of the receive loop on a piece of the stream.\<close>

lemma receive_step_piece:
  assumes "trusting h sid q w" and "io = h_io h (w_tick w)" and "wait_for_socket None (io_polls io) = Some n" and "n > 0"
    and "io_recv io = Inr bytes" and "bytes \<noteq> []"
  shows "receive_step h sid w = receive_chunk h sid (take 4096 bytes) (w\<lparr>w_tick := Suc (w_tick w)\<rparr>)"
  using assms by (cases bytes) (auto simp: trusting_def receive_step_def next_io_def)

lemma link_inv_receive:
  assumes "link_inv ha sa hb sb q p l" and "at_boundary p" and "maximum_record_size p = MAX_RECORD_SIZE"
    and contract: "\<And>m. sendable ha m \<Longrightarrow> json_parse (h_json hb) (message_body ha m) = Some (message_packet ha m)"
    and "lk_flight l = piece @ rest"
    and "receive_chunk hb sb piece ((lk_receiver l)\<lparr>w_tick := Suc (w_tick (lk_receiver l))\<rparr>) = (res, w1)"
  shows "link_inv ha sa hb sb q p (l\<lparr>lk_receiver := w1, lk_flight := rest\<rparr>)"
proof -
  let ?w = "(lk_receiver l)\<lparr>w_tick := Suc (w_tick (lk_receiver l))\<rparr>"
  from assms(1) obtain ca cb tail seen got where inv: "w_conns (lk_sender l) sa = Some ca" "w_conns (lk_receiver l) sb = Some cb"
    "trusting hb sb q (lk_receiver l)" "\<forall>m \<in> set (lk_sent l). sendable ha m"
    "cut_record ha tail" "tail \<noteq> [] \<longrightarrow> c_stopping ca" "seen @ lk_flight l = message_stream ha (lk_sent l) @ tail"
    "feed collect p [] seen = (Returned True, c_record_parser cb, map (message_body ha) got)"
    "prefix got (lk_sent l)" "events_of q got (lk_read l) (w_events (lk_receiver l))"
    by (rule link_invE)
  have stream: "(seen @ piece) @ rest = message_stream ha (lk_sent l) @ tail" using inv(7) assms(5) by simp
  from feed_beginning [OF assms(2,3) inv(4,5) stream] obtain p1 got1 where
    p1: "feed collect p [] (seen @ piece) = (Returned True, p1, map (message_body ha) got1)" and got1: "prefix got1 (lk_sent l)"
    by blast
  have wf: "wf_parser p" "Framing.accepting p" using assms(2) by (simp_all add: at_boundary_def Framing.accepting_def)
  have acc: "Framing.accepting (c_record_parser cb)" by (rule feed_accepting [OF wf(2) inv(8)])
  have step: "feed collect (c_record_parser cb) (map (message_body ha) got) piece = (Returned True, p1, map (message_body ha) got1)"
    using p1 inv(8) by (simp add: feed_append)
  have "wf_parser (c_record_parser cb)" using acc by (simp add: Framing.accepting_def)
  then obtain ext where "map (message_body ha) got1 = map (message_body ha) got @ ext" using feed_collect_extends [OF _ step] by blast
  then have "length got \<le> length got1" by (metis length_append length_map le_add1)
  then obtain new where new: "got1 = got @ new"
    using got1 inv(9) by (metis prefix_length_prefix prefix_def)
  have parse: "\<forall>m \<in> set new. json_parse (h_json hb) (message_body ha m) = Some (message_packet ha m)"
    using got1 inv(4) contract by (auto simp: new prefix_def)
  have t: "trusting hb sb q ?w" "w_conns ?w sb = Some cb" using inv(2,3) by (simp_all add: trusting_def)
  have "receive_chunk hb sb piece ?w =
      (RecvContinue, put_conn sb (cb\<lparr>c_record_parser := p1\<rparr>) (receive_messages q new ?w))"
    using receive_chunk_messages [OF t acc _ parse, of "map (message_body ha) got" piece p1] step new by simp
  then have w1: "w1 = put_conn sb (cb\<lparr>c_record_parser := p1\<rparr>) (receive_messages q new ?w)" using assms(6) by simp
  have "trusting hb sb q w1" using t by (auto simp: w1 trusting_def receive_messages_def)
  moreover have "events_of q got1 (lk_read l) (w_events w1)"
    using events_of_receive [of q got "lk_read l" ?w new] inv(10) by (simp add: w1 new)
  moreover have "w_conns w1 sb = Some (cb\<lparr>c_record_parser := p1\<rparr>)" by (simp add: w1)
  ultimately show ?thesis
    unfolding link_inv_def using inv(1,4-6) stream p1 got1
    by (intro exI [of _ ca] exI [of _ "cb\<lparr>c_record_parser := p1\<rparr>"] exI [of _ tail] exI [of _ "seen @ piece"] exI [of _ got1]) simp
qed

lemma link_run_inv:
  assumes "link_run ha sa hb sb q wa wb l" and "w_conns wa sa = Some ca" and "w_conns wb sb = Some cb"
    and "trusting hb sb q wb" and "w_events wb = []"
    and "at_boundary (c_record_parser cb)" and "maximum_record_size (c_record_parser cb) = MAX_RECORD_SIZE"
    and contract: "\<And>m. sendable ha m \<Longrightarrow> json_parse (h_json hb) (message_body ha m) = Some (message_packet ha m)"
  shows "link_inv ha sa hb sb q (c_record_parser cb) l"
  using assms(1)
proof (induction rule: link_run.induct)
  case link_start
  show ?case unfolding link_inv_def using assms(2-5)
    by (intro exI [of _ ca] exI [of _ cb] exI [of _ "[]"]) (simp add: cut_record_def events_of_def last_n_def)
next
  case (link_send l c msg r w1 c1)
  then show ?case by (intro link_inv_send)
next
  case (link_receive l io n bytes rest res w1)
  then have "trusting hb sb q (lk_receiver l)" by (auto simp: link_inv_def)
  from receive_step_piece [OF this] link_receive link_inv_receive [OF link_receive.IH assms(6,7) contract]
  show ?case by metis
next
  case (link_read l events left)
  then have "events = w_events (lk_receiver l)" "left = []" by (simp_all add: consume_events_def)
  moreover obtain ca cb' tail seen got where inv: "w_conns (lk_sender l) sa = Some ca" "w_conns (lk_receiver l) sb = Some cb'"
    "trusting hb sb q (lk_receiver l)" "\<forall>m \<in> set (lk_sent l). sendable ha m"
    "cut_record ha tail" "tail \<noteq> [] \<longrightarrow> c_stopping ca" "seen @ lk_flight l = message_stream ha (lk_sent l) @ tail"
    "feed collect (c_record_parser cb) [] seen = (Returned True, c_record_parser cb', map (message_body ha) got)"
    "prefix got (lk_sent l)" "events_of q got (lk_read l) (w_events (lk_receiver l))"
    using link_read.IH by (rule link_invE)
  moreover have "trusting hb sb q ((lk_receiver l)\<lparr>w_events := []\<rparr>)" using inv(3) by (simp add: trusting_def)
  ultimately show ?case
    unfolding link_inv_def using events_of_read
    by (intro exI [of _ ca] exI [of _ cb'] exI [of _ tail] exI [of _ seen] exI [of _ got]) simp
next
  case (link_sender_other l w1)
  then show ?case by (simp add: link_inv_def)
next
  case (link_receiver_other l w1)
  then show ?case unfolding link_inv_def by simp blast
qed

section \<open>Properties\<close>


section \<open>Witness\<close>

definition delivery_lib :: json_lib where
  "delivery_lib = \<lparr>json_parse = (\<lambda>s. if s = ''m'' then Some (build_message_packet ''local'' ''hi'') else None),
     json_stream = (\<lambda>j. if j = build_message_packet ''local'' ''hi'' then ([''m''], True) else ([], False))\<rparr>"

definition delivery_host :: host where
  "delivery_host = \<lparr>h_json = delivery_lib, h_my_device_id = ''local'',
     h_io = (\<lambda>t. (h_io sample_host t)\<lparr>io_recv := Inr (wire ''m'')\<rparr>)\<rparr>"

definition receiving_conn :: Connection where
  "receiving_conn = sample_conn\<lparr>c_authorized_peer := Some sample_peer, c_ready := True, c_peer_preface_received := True,
     c_record_parser := new_parser\<lparr>preface_offset := 10, phase := Header\<rparr>\<rparr>"

definition receiving_world :: world where
  "receiving_world = sample_authenticated\<lparr>w_conns := [1 \<mapsto> receiving_conn]\<rparr>"

definition sending_conn :: Connection where
  "sending_conn = sample_conn\<lparr>c_authorized_peer := Some sample_peer, c_ready := True\<rparr>"

definition sent_world :: world where
  "sent_world = sample_authenticated\<lparr>w_conns := [1 \<mapsto> sending_conn\<lparr>c_wire := preface_bytes @ wire ''m''\<rparr>], w_tick := 7\<rparr>"

lemma sending_conn_fields: "w_conns sample_authenticated = [1 \<mapsto> sending_conn]" "w_store sample_authenticated = sample_imported"
  "w_tick sample_authenticated = 5" "c_ready sending_conn" "\<not> c_stopping sending_conn" "c_wire sending_conn = preface_bytes"
  "c_authorized_peer sending_conn = Some sample_peer" "w_events sample_authenticated = []"
  by (simp_all add: sending_conn_def sample_authenticated_def sample_prefaced_def sample_trusting_def sample_conn_def)

lemma wire_m: "wire ''m'' = [CHR 0x00, CHR 0x01, CHR ''m'']"
  by (simp add: wire_def record_header_def) code_simp

lemma delivery_sent:
  "send_packet delivery_host 1 (message_packet delivery_host ''hi'') sample_authenticated = (Inr 3, sent_world)"
proof -
  have enc: "encode_record ''m'' = Inr (wire ''m'')"
    using encode_record_eq [of "''m''"] by (simp add: wire_def MAX_RECORD_SIZE_def)
  have stream: "stream_packet delivery_lib MAX_RECORD_SIZE (message_packet delivery_host ''hi'') = Inr ''m''"
    by (simp add: stream_packet_def delivery_lib_def delivery_host_def xsputn_def MAX_RECORD_SIZE_def)
  have type: "value_type (message_packet delivery_host ''hi'') = Inr ''message''"
    by (simp add: value_type_def message_packet_object json_get_string_def)
  have json: "h_json delivery_host = delivery_lib" by (simp add: delivery_host_def)
  have io: "io_sql (h_io delivery_host t) = sample_env" "io_now (h_io delivery_host t) = 0"
    "io_sends (h_io delivery_host t) = [\<lparr>se_stopping = False, se_now = 0, se_result = Inr 100, se_polls = []\<rparr>]" for t
    by (simp_all add: delivery_host_def sample_host_def)
  show ?thesis
    by (simp add: send_packet_def next_io_def sending_conn_fields io sample_gate text_not_control send_packet_locked_def
        json stream enc type conn_send_all_def send_all_def WRITE_TIMEOUT_def wire_m put_conn_def sent_world_def)
qed

lemma receiving_trusts: "trusting delivery_host 1 sample_peer receiving_world"
  using sample_gate(2)
  by (simp add: trusting_def receiving_world_def receiving_conn_def sample_conn_def sending_conn_fields delivery_host_def sample_host_def)


end
