(* ===== verification/Handshake.thy ===== *)
theory Handshake
  imports Delivery
begin

text \<open>
  The exchange that opens a session, between two daemons: each sends the preface, answers the peer's preface with a
  hello and accepts the peer's hello.  What one sends is what the other one expects, however the
  network cuts it.
\<close>

section \<open>The hello\<close>

abbreviation own_hello :: "host \<Rightarrow> json" where
  "own_hello h \<equiv> hello_packet (h_my_device_id h)"

definition hello_body :: "host \<Rightarrow> string" where
  "hello_body h = concat (fst (json_stream (h_json h) (own_hello h)))"

text \<open>The hello can be serialized and fits a control record; the device has an id.\<close>

definition greets :: "host \<Rightarrow> bool" where
  "greets h \<longleftrightarrow> json_dump (h_json h) (own_hello h) = Inr (hello_body h) \<and>
     length (hello_body h) \<le> MAX_CONTROL_RECORD_SIZE \<and> h_my_device_id h \<noteq> []"

definition setup_stream :: "host \<Rightarrow> string" where
  "setup_stream h = preface_bytes @ wire (hello_body h)"

lemma hello_object:
  "own_hello h = JObject [(''device_id'', JString (h_my_device_id h)),
     (''payload'', JObject [(''device_name'', JString ''Gasoline''), (''device_type'', JString ''linux'')]),
     (''type'', JString ''hello'')]"
  by (simp add: hello_packet_def less_list_code less_char_def)

lemma hello_control: "is_control_record (own_hello h)"
  by (simp add: is_control_record_def hello_object)

lemma hello_parsed:
  "json_parse J body = Some (own_hello h) \<Longrightarrow>
   parse_packet J body = Inr \<lparr>pkt_type = ''hello'', pkt_device_id = h_my_device_id h,
     pkt_payload = JObject [(''device_name'', JString ''Gasoline''), (''device_type'', JString ''linux'')]\<rparr>"
  by (simp add: parse_packet_def hello_object)

section \<open>One end\<close>

text \<open>The clock has not reached the deadline, and the peer takes what is sent.\<close>

definition in_time :: "host \<Rightarrow> int \<Rightarrow> bool" where
  "in_time h deadline \<longleftrightarrow> (\<forall>t. io_now (h_io h t) < deadline \<and>
     send_all False deadline (io_now (h_io h t)) (io_sends (h_io h t)) (wire (hello_body h)) =
       (wire (hello_body h), int (length (wire (hello_body h)))))"

definition waiting :: "host \<Rightarrow> session_id \<Rightarrow> Connection \<Rightarrow> world \<Rightarrow> bool" where
  "waiting h sid c w \<longleftrightarrow> w_conns w sid = Some c \<and> \<not> c_stopping c \<and> \<not> c_ready c \<and> c_local_preface_sent c \<and>
     in_time h (c_handshake_deadline c)"

lemma waiting_tick: "waiting h sid c w \<Longrightarrow> waiting h sid c (w\<lparr>w_tick := t\<rparr>)"
  by (simp add: waiting_def)

lemma stream_hello: "greets h \<Longrightarrow> stream_packet (h_json h) MAX_CONTROL_RECORD_SIZE (own_hello h) = Inr (hello_body h)"
  by (auto simp: greets_def stream_packet_def write_chunks_spec json_dump_def hello_body_def split: prod.splits if_splits)

text \<open>Answering the peer's preface.\<close>

lemma hello_answered:
  assumes "greets h" and "waiting h sid c w" and "\<not> c_peer_preface_received c"
    and "c1 = c\<lparr>c_peer_preface_received := True, c_wire := c_wire c @ wire (hello_body h)\<rparr>"
  shows "\<exists>t. accept_peer_preface h sid w = (Inr True, put_conn sid c1 (w\<lparr>w_tick := t\<rparr>))"
proof -
  have small: "length (hello_body h) \<le> MAX_RECORD_SIZE"
    using assms(1) by (simp add: greets_def MAX_CONTROL_RECORD_SIZE_def MAX_RECORD_SIZE_def)
  have enc: "encode_record (hello_body h) = Inr (wire (hello_body h))"
    using encode_record_eq [OF small] by (simp add: wire_def)
  have type: "value_type (own_hello h) = Inr ''hello''" by (simp add: value_type_def hello_object json_get_string_def)
  have c: "w_conns w sid = Some c" "\<not> c_stopping c" "\<not> c_ready c" "c_local_preface_sent c"
    and send: "\<And>t. send_all False (c_handshake_deadline c) (io_now (h_io h t)) (io_sends (h_io h t)) (wire (hello_body h)) =
       (wire (hello_body h), int (length (wire (hello_body h))))"
    using assms(2) by (auto simp: waiting_def in_time_def)
  have id: "map (\<lambda>e. e\<lparr>se_stopping := se_stopping e\<rparr>) es = es" for es :: "send_event list" by (simp add: map_idI)
  show ?thesis
    using stream_hello [OF assms(1)] c assms(3)
    by (intro exI [of _ "Suc (w_tick w)"])
      (simp add: accept_peer_preface_def send_initial_hello_def send_packet_locked_def hello_control enc type
        conn_send_all_def next_io_def id send is_stopping_def Let_def assms(4), simp add: put_conn_def)
qed

text \<open>Accepting the peer's hello.\<close>

lemma hello_accepted:
  assumes "waiting h sid c w" and "\<not> c_peer_hello_received c" and "c_peer_preface_received c"
    and "json_parse (h_json h) (hello_body ha) = Some (own_hello ha)" and "greets ha"
  shows "\<exists>t. record_handler h sid w (hello_body ha) =
    (Inr True, put_conn sid (c\<lparr>c_peer_hello_received := True\<rparr>) (w\<lparr>w_tick := t\<rparr>))"
proof -
  have c: "w_conns w sid = Some c" "\<not> c_stopping c" "\<not> c_ready c" "\<And>t. io_now (h_io h t) < c_handshake_deadline c"
    using assms(1) by (auto simp: waiting_def in_time_def)
  have len: "length (hello_body ha) \<le> MAX_CONTROL_RECORD_SIZE" "h_my_device_id ha \<noteq> []"
    using assms(5) by (simp_all add: greets_def)
  show ?thesis
    using c len assms(2,3)
    by (intro exI [of _ "Suc (w_tick w)"])
      (simp add: record_handler_def accept_peer_preface_def handle_record_def next_io_def not_le [symmetric]
        hello_parsed [OF assms(4)] process_packet_def route_def hello_handle_def)
qed

text \<open>A parser that has handed over a record is past the preface.\<close>

lemma feed_preface_silent:
  assumes "feed collect p rs xs = (Returned True, q, rs1)" and "phase q = Preface"
  shows "rs1 = rs"
  using assms
proof (induction xs arbitrary: p rs)
  case (Cons c xs)
  obtain r p1 rs2 where fb: "feed_byte collect p rs c = (r, p1, rs2)" by (metis prod_cases3)
  with Cons.prems(1) have rest: "feed collect p1 rs2 xs = (Returned True, q, rs1)"
    by (auto split: consume_result.splits bool.splits)
  have "phase p = Preface" using feed_phase [OF _ Cons.prems(1)] Cons.prems(2) by blast
  then have "rs2 = rs" using fb by (auto simp: feed_byte_def Let_def split: if_splits)
  with Cons.IH [OF rest Cons.prems(2)] show ?case by simp
qed simp

text \<open>The session, when the parser has reached \<open>p\<close> and has handed over \<open>rs\<close>.\<close>

definition progress :: "host \<Rightarrow> Connection \<Rightarrow> parser \<Rightarrow> string list \<Rightarrow> Connection" where
  "progress h c0 p rs = c0\<lparr>c_record_parser := p, c_peer_preface_received := preface_complete p,
     c_peer_hello_received := (rs \<noteq> []),
     c_wire := c_wire c0 @ (if preface_complete p then wire (hello_body h) else [])\<rparr>"

definition fresh_session :: "host \<Rightarrow> Connection \<Rightarrow> bool" where
  "fresh_session h c \<longleftrightarrow> \<not> c_stopping c \<and> \<not> c_ready c \<and> c_local_preface_sent c \<and> \<not> c_peer_preface_received c \<and>
     \<not> c_peer_hello_received c \<and> c_record_parser c = new_parser \<and> c_wire c = preface_bytes \<and>
     in_time h (c_handshake_deadline c)"

lemma progress_waiting: "fresh_session h c0 \<Longrightarrow> w_conns w sid = Some (progress h c0 p rs) \<Longrightarrow> waiting h sid (progress h c0 p rs) w"
  by (simp add: fresh_session_def waiting_def progress_def)

lemma progress_simps [simp]:
  "c_peer_preface_received (progress h c0 p rs) = preface_complete p" "c_record_parser (progress h c0 p rs) = p"
  "c_peer_hello_received (progress h c0 p rs) = (rs \<noteq> [])" "c_stopping (progress h c0 p rs) = c_stopping c0"
  by (simp_all add: progress_def)

text \<open>The peer's preface and hello, wherever the network cuts them.\<close>

lemma new_parser_ok: "RecordParser MAX_RECORD_SIZE = Inr new_parser" "Framing.accepting new_parser" "wf_parser new_parser"
proof -
  show "RecordParser MAX_RECORD_SIZE = Inr new_parser" by (simp add: new_parser_def RecordParser_def)
  then show "Framing.accepting new_parser" by (rule accepting_RecordParser)
  then show "wf_parser new_parser" by (simp add: Framing.accepting_def)
qed

lemma feed_setup_all:
  assumes "greets ha"
  shows "\<exists>q. feed collect new_parser [] (setup_stream ha) = (Returned True, q, [hello_body ha])"
proof -
  obtain q where q: "feed collect new_parser [] preface_bytes = (Returned True, q, [])" "at_boundary q"
    "maximum_record_size q = MAX_RECORD_SIZE" using feed_preface [OF new_parser_ok(1), of collect "[]"] by auto
  have "length (hello_body ha) \<le> maximum_record_size q"
    using assms unfolding q(3) greets_def MAX_CONTROL_RECORD_SIZE_def MAX_RECORD_SIZE_def by linarith
  with feed_wires [OF q(2), of "[hello_body ha]" "[]"]
  obtain q1 where "feed collect q [] (wire (hello_body ha)) = (Returned True, q1, [hello_body ha])" by auto
  then show ?thesis using q(1) by (simp add: setup_stream_def feed_append)
qed

lemma feed_setup:
  assumes "greets ha" and "prefix seen (setup_stream ha)"
  obtains p rs where "feed collect new_parser [] seen = (Returned True, p, rs)" "prefix rs [hello_body ha]"
    "length seen \<ge> 10 \<longrightarrow> preface_complete p" "seen = setup_stream ha \<longrightarrow> rs \<noteq> []"
proof -
  obtain rest where rest: "setup_stream ha = seen @ rest" using assms(2) by (auto simp: prefix_def)
  obtain q where "feed collect new_parser [] (seen @ rest) = (Returned True, q, [hello_body ha])"
    using feed_setup_all [OF assms(1)] rest by auto
  from feed_split [OF this] obtain p rs where p: "feed collect new_parser [] seen = (Returned True, p, rs)"
    "feed collect p rs rest = (Returned True, q, [hello_body ha])" by blast
  have "prefix rs [hello_body ha]" using feed_collect_extends [OF wf_feed [OF new_parser_ok(3) p(1)] p(2)] by (auto simp: prefix_def)
  moreover have "preface_complete p" if "length seen \<ge> 10"
  proof -
    have "prefix preface_bytes seen"
      using that assms(2) by (metis setup_stream_def length_preface_bytes prefix_length_prefix prefixI)
    then obtain more where more: "seen = preface_bytes @ more" by (auto simp: prefix_def)
    obtain q where q: "feed collect new_parser [] preface_bytes = (Returned True, q, [])" "at_boundary q"
      using feed_preface [OF new_parser_ok(1), of collect "[]"] by auto
    then have "phase q \<noteq> Preface" by (simp add: at_boundary_def)
    moreover have "feed collect q [] more = (Returned True, p, rs)" using p(1) q(1) more by (simp add: feed_append)
    ultimately show ?thesis using feed_phase by (simp add: preface_complete_def)
  qed
  moreover have "rs \<noteq> []" if "seen = setup_stream ha" using feed_setup_all [OF assms(1)] p(1) that by auto
  ultimately show ?thesis using that p(1) by blast
qed

text \<open>The session after the record of the peer's hello, whether or not its preface was answered before.\<close>

lemma hello_record:
  assumes "greets h" and "fresh_session h c0" and "w_conns w sid = Some (progress h c0 p [])"
    and "json_parse (h_json h) (hello_body ha) = Some (own_hello ha)" and "greets ha" and "preface_complete p1"
  shows "\<exists>t c. record_handler h sid w (hello_body ha) = (Inr True, put_conn sid c (w\<lparr>w_tick := t\<rparr>)) \<and>
    c\<lparr>c_record_parser := p1\<rparr> = progress h c0 p1 [hello_body ha]"
proof -
  let ?c = "progress h c0 p []"
  have wait: "waiting h sid ?c w" by (rule progress_waiting [OF assms(2,3)])
  show ?thesis
  proof (cases "preface_complete p")
    case True
    then obtain t where "record_handler h sid w (hello_body ha) =
        (Inr True, put_conn sid (?c\<lparr>c_peer_hello_received := True\<rparr>) (w\<lparr>w_tick := t\<rparr>))"
      using hello_accepted [OF wait _ _ assms(4,5)] by auto
    moreover have "?c\<lparr>c_peer_hello_received := True, c_record_parser := p1\<rparr> = progress h c0 p1 [hello_body ha]"
      using True assms(6) by (simp add: progress_def)
    ultimately show ?thesis by blast
  next
    case False
    let ?c1 = "?c\<lparr>c_peer_preface_received := True, c_wire := c_wire ?c @ wire (hello_body h)\<rparr>"
    obtain t where a: "accept_peer_preface h sid w = (Inr True, put_conn sid ?c1 (w\<lparr>w_tick := t\<rparr>))"
      using hello_answered [OF assms(1) wait _ refl] False by auto
    let ?w1 = "put_conn sid ?c1 (w\<lparr>w_tick := t\<rparr>)"
    have wait1: "waiting h sid ?c1 ?w1" using wait by (simp add: waiting_def)
    have "\<not> c_stopping ?c1" using wait1 by (simp add: waiting_def)
    then have "record_handler h sid w (hello_body ha) = record_handler h sid ?w1 (hello_body ha)"
      by (simp add: record_handler_def a accept_peer_preface_def [of h sid ?w1])
    moreover obtain u where "record_handler h sid ?w1 (hello_body ha) =
        (Inr True, put_conn sid (?c1\<lparr>c_peer_hello_received := True\<rparr>) (?w1\<lparr>w_tick := u\<rparr>))"
      using hello_accepted [OF wait1 _ _ assms(4,5)] by auto
    ultimately have "record_handler h sid w (hello_body ha) =
        (Inr True, put_conn sid (?c1\<lparr>c_peer_hello_received := True\<rparr>) (w\<lparr>w_tick := u\<rparr>))"
      by (simp add: put_conn_def)
    moreover have "?c1\<lparr>c_peer_hello_received := True, c_record_parser := p1\<rparr> = progress h c0 p1 [hello_body ha]"
      using False assms(6) by (simp add: progress_def)
    ultimately show ?thesis by blast
  qed
qed

text \<open>The end of a chunk: the parser is stored, and a preface that was just completed is answered.\<close>

lemma receive_chunk_tail:
  assumes "w_conns w sid = Some c0" and "Framing.accepting (c_record_parser c0)"
    and "feed (record_handler h sid) (c_record_parser c0) w piece = (Returned True, p1, w1)" and "w_conns w1 sid = Some c"
    and "w2 = put_conn sid (c\<lparr>c_record_parser := p1\<rparr>) w1" and "\<not> c_stopping c"
  shows "receive_chunk h sid piece w =
    (if preface_complete p1 then (case accept_peer_preface h sid w2 of (Inl e, w3) \<Rightarrow> (RecvThrow e, w3) | (Inr _, w3) \<Rightarrow> (RecvContinue, w3))
     else (RecvContinue, w2))"
  using assms by (simp add: receive_chunk_def consume_eq_feed is_stopping_def Let_def)

text \<open>A piece of that stream, and what the session has become after it.\<close>

lemma receive_chunk_silent:
  assumes "greets h" and "fresh_session h c0" and "w_conns w sid = Some (progress h c0 p rs)" and "Framing.accepting p"
    and "feed collect p rs piece = (Returned True, p1, rs)"
  shows "\<exists>t. receive_chunk h sid piece w = (RecvContinue, put_conn sid (progress h c0 p1 rs) (w\<lparr>w_tick := t\<rparr>))"
proof -
  let ?c = "(progress h c0 p rs)\<lparr>c_record_parser := p1\<rparr>"
  let ?w = "put_conn sid ?c w"
  have up: "\<not> c_stopping (progress h c0 p rs)" using assms(2) by (simp add: fresh_session_def)
  have wf: "wf_parser p" using assms(4) by (simp add: Framing.accepting_def)
  have f: "feed (record_handler h sid) p w piece = (Returned True, p1, w)"
    by (rule feed_follow [OF wf, where new = "[]"]) (use assms(5) in simp_all)
  have later: "preface_complete p \<Longrightarrow> preface_complete p1" using feed_phase [OF _ f] by (simp add: preface_complete_def)
  have same: "w\<lparr>w_tick := w_tick w\<rparr> = w" by simp
  note chunk = receive_chunk_tail [OF assms(3) _ _ assms(3) refl up, of h piece p1, simplified, OF assms(4) f]
  show ?thesis
  proof (cases "preface_complete p = preface_complete p1")
    case True
    then have c: "?c = progress h c0 p1 rs" by (simp add: progress_def)
    have "preface_complete p1 \<Longrightarrow> accept_peer_preface h sid ?w = (Inr True, ?w)"
      using True up by (simp add: accept_peer_preface_def)
    then show ?thesis using chunk c same by (intro exI [of _ "w_tick w"]) auto
  next
    case False
    with later have new: "\<not> preface_complete p" "preface_complete p1" by auto
    have "waiting h sid ?c ?w"
      using progress_waiting [OF assms(2,3)] by (simp add: waiting_def)
    with hello_answered [OF assms(1) this _ refl] new obtain t where
      "accept_peer_preface h sid ?w = (Inr True,
         put_conn sid (?c\<lparr>c_peer_preface_received := True, c_wire := c_wire ?c @ wire (hello_body h)\<rparr>) (?w\<lparr>w_tick := t\<rparr>))"
      by auto
    moreover have "?c\<lparr>c_peer_preface_received := True, c_wire := c_wire ?c @ wire (hello_body h)\<rparr> = progress h c0 p1 rs"
      using new by (simp add: progress_def)
    ultimately show ?thesis using chunk new by (intro exI [of _ t]) (simp add: put_conn_def)
  qed
qed

lemma receive_chunk_hello:
  assumes "greets h" and "fresh_session h c0" and "w_conns w sid = Some (progress h c0 p [])" and "Framing.accepting p"
    and "feed collect p [] piece = (Returned True, p1, [hello_body ha])"
    and "json_parse (h_json h) (hello_body ha) = Some (own_hello ha)" and "greets ha"
  shows "\<exists>t. receive_chunk h sid piece w = (RecvContinue, put_conn sid (progress h c0 p1 [hello_body ha]) (w\<lparr>w_tick := t\<rparr>))"
proof -
  have wf: "wf_parser p" using assms(4) by (simp add: Framing.accepting_def)
  have past: "preface_complete p1" using feed_preface_silent [OF assms(5)] by (auto simp: preface_complete_def)
  from hello_record [OF assms(1-3,6,7) past] obtain t c where
    r: "record_handler h sid w (hello_body ha) = (Inr True, put_conn sid c (w\<lparr>w_tick := t\<rparr>))"
    and c: "c\<lparr>c_record_parser := p1\<rparr> = progress h c0 p1 [hello_body ha]" by blast
  let ?w1 = "put_conn sid c (w\<lparr>w_tick := t\<rparr>)"
  let ?w2 = "put_conn sid (progress h c0 p1 [hello_body ha]) ?w1"
  have f: "feed (record_handler h sid) p w piece = (Returned True, p1, ?w1)"
    by (rule feed_follow [OF wf, where rs = "[]" and new = "[hello_body ha]"]) (use assms(5) r in simp_all)
  have up: "\<not> c_stopping (c\<lparr>c_record_parser := p1\<rparr>)" using assms(2) unfolding c by (simp add: fresh_session_def)
  then have "\<not> c_stopping c" by simp
  from receive_chunk_tail [OF assms(3) _ _ _ refl this, of h piece p1 ?w1]
  have "receive_chunk h sid piece w = (case accept_peer_preface h sid ?w2 of
      (Inl e, w3) \<Rightarrow> (RecvThrow e, w3) | (Inr _, w3) \<Rightarrow> (RecvContinue, w3))"
    using assms(4) f past c by simp
  moreover have "accept_peer_preface h sid ?w2 = (Inr True, ?w2)"
    using past assms(2) by (simp add: accept_peer_preface_def fresh_session_def)
  ultimately show ?thesis by (intro exI [of _ t]) simp
qed

text \<open>One iteration of the receive loop: a session that has seen a beginning of the peer's setup and now sees
  the next piece of it.\<close>

definition at_setup :: "host \<Rightarrow> session_id \<Rightarrow> Connection \<Rightarrow> string \<Rightarrow> world \<Rightarrow> bool" where
  "at_setup h sid c0 seen w \<longleftrightarrow> (\<exists>p rs. feed collect new_parser [] seen = (Returned True, p, rs) \<and>
     w_conns w sid = Some (progress h c0 p rs))"

lemma at_setup_step:
  assumes "greets h" and "greets ha" and "fresh_session h c0" and "at_setup h sid c0 seen w"
    and "prefix (seen @ take 4096 bytes) (setup_stream ha)"
    and "json_parse (h_json h) (hello_body ha) = Some (own_hello ha)"
    and "io = h_io h (w_tick w)" and "wait_for_socket (Some (c_handshake_deadline c0)) (io_polls io) = Some n" and "n > 0"
    and "io_recv io = Inr bytes" and "bytes \<noteq> []"
  shows "\<exists>w1. receive_step h sid w = (RecvContinue, w1) \<and> at_setup h sid c0 (seen @ take 4096 bytes) w1"
proof -
  let ?w = "w\<lparr>w_tick := Suc (w_tick w)\<rparr>"
  obtain p rs where p: "feed collect new_parser [] seen = (Returned True, p, rs)" "w_conns w sid = Some (progress h c0 p rs)"
    using assms(4) by (auto simp: at_setup_def)
  have up: "\<not> c_stopping (progress h c0 p rs)" "\<not> c_ready (progress h c0 p rs)"
    "c_handshake_deadline (progress h c0 p rs) = c_handshake_deadline c0"
    using assms(3) by (simp_all add: fresh_session_def progress_def)
  have step: "receive_step h sid w = receive_chunk h sid (take 4096 bytes) ?w"
    using assms(7-11) p(2) up by (cases bytes) (simp_all add: receive_step_def next_io_def)
  obtain p1 rs1 where p1: "feed collect new_parser [] (seen @ take 4096 bytes) = (Returned True, p1, rs1)"
    "prefix rs1 [hello_body ha]" using feed_setup [OF assms(2,5)] by blast
  have acc: "Framing.accepting p" by (rule feed_accepting [OF new_parser_ok(2) p(1)])
  have f: "feed collect p rs (take 4096 bytes) = (Returned True, p1, rs1)" using p(1) p1(1) by (simp add: feed_append)
  then obtain new where new: "rs1 = rs @ new"
    using feed_collect_extends [OF wf_feed [OF new_parser_ok(3) p(1)] f] by blast
  have c: "w_conns ?w sid = Some (progress h c0 p rs)" using p(2) by simp
  from p1(2) new consider "rs1 = rs" | "rs = []" "rs1 = [hello_body ha]" by (auto simp: prefix_Cons append_eq_Cons_conv)
  then have "\<exists>t. receive_chunk h sid (take 4096 bytes) ?w = (RecvContinue, put_conn sid (progress h c0 p1 rs1) (?w\<lparr>w_tick := t\<rparr>))"
    using receive_chunk_silent [OF assms(1,3) c acc] receive_chunk_hello [OF assms(1,3) _ acc _ assms(6,2), of ?w sid] f c
    by cases (fastforce, fastforce)
  then show ?thesis using step p1(1) by (auto simp: at_setup_def)
qed

section \<open>Both ends\<close>

text \<open>Both daemons have sent their preface and now run their receive loops; what each of them sends reaches the other one,
  in pieces of any size.\<close>

record exchange =
  ex_a :: world
  ex_b :: world
  ex_to_a :: string
  ex_to_b :: string

inductive setup_run :: "host \<Rightarrow> session_id \<Rightarrow> host \<Rightarrow> session_id \<Rightarrow> world \<Rightarrow> world \<Rightarrow> exchange \<Rightarrow> bool"
  for ha sa hb sb wa wb where
  setup_start: "setup_run ha sa hb sb wa wb \<lparr>ex_a = wa, ex_b = wb, ex_to_a = preface_bytes, ex_to_b = preface_bytes\<rparr>"
| setup_receive_a:
  "\<lbrakk>setup_run ha sa hb sb wa wb s; w_conns (ex_a s) sa = Some c; io = h_io ha (w_tick (ex_a s));
    wait_for_socket (Some (c_handshake_deadline c)) (io_polls io) = Some n; n > 0; io_recv io = Inr bytes; bytes \<noteq> [];
    ex_to_a s = take 4096 bytes @ rest; receive_step ha sa (ex_a s) = (res, w1); w_conns w1 sa = Some c1\<rbrakk> \<Longrightarrow>
   setup_run ha sa hb sb wa wb
     (s\<lparr>ex_a := w1, ex_to_a := rest, ex_to_b := ex_to_b s @ drop (length (c_wire c)) (c_wire c1)\<rparr>)"
| setup_receive_b:
  "\<lbrakk>setup_run ha sa hb sb wa wb s; w_conns (ex_b s) sb = Some c; io = h_io hb (w_tick (ex_b s));
    wait_for_socket (Some (c_handshake_deadline c)) (io_polls io) = Some n; n > 0; io_recv io = Inr bytes; bytes \<noteq> [];
    ex_to_b s = take 4096 bytes @ rest; receive_step hb sb (ex_b s) = (res, w1); w_conns w1 sb = Some c1\<rbrakk> \<Longrightarrow>
   setup_run ha sa hb sb wa wb
     (s\<lparr>ex_b := w1, ex_to_b := rest, ex_to_a := ex_to_a s @ drop (length (c_wire c)) (c_wire c1)\<rparr>)"
| setup_other:
  "\<lbrakk>setup_run ha sa hb sb wa wb s; w_conns w1 sa = w_conns (ex_a s) sa; w_conns w2 sb = w_conns (ex_b s) sb\<rbrakk> \<Longrightarrow>
   setup_run ha sa hb sb wa wb (s\<lparr>ex_a := w1, ex_b := w2\<rparr>)"

text \<open>What an end has sent, given what it has seen.\<close>

definition answered :: "host \<Rightarrow> string \<Rightarrow> string" where
  "answered h seen = preface_bytes @ (if length seen \<ge> 10 then wire (hello_body h) else [])"

lemma answered_prefix: "prefix (answered h seen) (setup_stream h)"
  by (simp add: answered_def setup_stream_def)

text \<open>An end that has seen a beginning of the peer's setup, and what it has sent.\<close>

lemma short_incomplete:
  assumes "feed collect new_parser [] seen = (Returned True, p, rs)" and "length seen < 10"
  shows "\<not> preface_complete p"
proof
  assume "preface_complete p"
  then have "length (consumed p rs) \<ge> 10" by (simp add: consumed_def preface_complete_def)
  moreover have "consumed p rs = consumed new_parser [] @ seen"
    using consumed_feed [OF new_parser_ok(3) _ assms(1)] by simp
  moreover have "consumed new_parser [] = []" by (simp add: consumed_def Framing.pending_def new_parser_def RecordParser_def)
  ultimately show False using assms(2) by simp
qed

lemma at_setup_wire:
  assumes "fresh_session h c0" and "at_setup h sid c0 seen w" and "greets ha" and "prefix seen (setup_stream ha)"
  shows "\<exists>c. w_conns w sid = Some c \<and> c_wire c = answered h seen \<and> \<not> c_stopping c \<and>
    c_handshake_deadline c = c_handshake_deadline c0 \<and> (seen = setup_stream ha \<longrightarrow> c_peer_preface_received c \<and> c_peer_hello_received c)"
proof -
  from feed_setup [OF assms(3,4)] obtain p rs where p: "feed collect new_parser [] seen = (Returned True, p, rs)"
    "length seen \<ge> 10 \<longrightarrow> preface_complete p" "seen = setup_stream ha \<longrightarrow> rs \<noteq> []" by blast
  have c: "w_conns w sid = Some (progress h c0 p rs)" using assms(2) p(1) by (auto simp: at_setup_def)
  have pre: "preface_complete p \<longleftrightarrow> length seen \<ge> 10" using p(2) short_incomplete [OF p(1)] by linarith
  have "length (setup_stream ha) \<ge> 10" by (simp add: setup_stream_def)
  then show ?thesis using c pre p(3) assms(1)
    by (intro exI [of _ "progress h c0 p rs"]) (auto simp: answered_def progress_def fresh_session_def)
qed

lemma at_setup_receive:
  assumes "greets h" and "greets hp" and "fresh_session h c0" and "at_setup h sid c0 seen w"
    and "json_parse (h_json h) (hello_body hp) = Some (own_hello hp)"
    and "answered hp seenp = seen @ take 4096 bytes @ rest" and "w_conns w sid = Some c"
    and "io = h_io h (w_tick w)" and "wait_for_socket (Some (c_handshake_deadline c)) (io_polls io) = Some n" and "n > 0"
    and "io_recv io = Inr bytes" and "bytes \<noteq> []" and "receive_step h sid w = (res, w1)" and "w_conns w1 sid = Some c1"
  shows "at_setup h sid c0 (seen @ take 4096 bytes) w1 \<and>
    answered h (seen @ take 4096 bytes) = answered h seen @ drop (length (c_wire c)) (c_wire c1)"
proof -
  have pre: "prefix seen (setup_stream hp)" "prefix (seen @ take 4096 bytes) (setup_stream hp)"
    using answered_prefix [of hp seenp] unfolding assms(6) by (auto simp: prefix_def)
  have c: "c_wire c = answered h seen" "c_handshake_deadline c = c_handshake_deadline c0"
    using at_setup_wire [OF assms(3,4,2) pre(1)] assms(7) by auto
  have step: "at_setup h sid c0 (seen @ take 4096 bytes) w1"
    using at_setup_step [OF assms(1-4) pre(2) assms(5,8) _ assms(10-12)] assms(9,13) c(2) by auto
  have "c_wire c1 = answered h (seen @ take 4096 bytes)" using at_setup_wire [OF assms(3) step assms(2) pre(2)] assms(14) by auto
  with step c(1) show ?thesis by (auto simp: answered_def)
qed

definition setup_inv :: "host \<Rightarrow> session_id \<Rightarrow> host \<Rightarrow> session_id \<Rightarrow> Connection \<Rightarrow> Connection \<Rightarrow> exchange \<Rightarrow> bool" where
  "setup_inv ha sa hb sb ca cb s \<longleftrightarrow> (\<exists>seen_a seen_b. at_setup ha sa ca seen_a (ex_a s) \<and> at_setup hb sb cb seen_b (ex_b s) \<and>
     answered hb seen_b = seen_a @ ex_to_a s \<and> answered ha seen_a = seen_b @ ex_to_b s)"

lemma setup_run_inv:
  assumes "setup_run ha sa hb sb wa wb s" and "w_conns wa sa = Some ca" and "w_conns wb sb = Some cb"
    and "greets ha" and "greets hb" and "fresh_session ha ca" and "fresh_session hb cb"
    and "json_parse (h_json hb) (hello_body ha) = Some (own_hello ha)"
    and "json_parse (h_json ha) (hello_body hb) = Some (own_hello hb)"
  shows "setup_inv ha sa hb sb ca cb s"
  using assms(1)
proof (induction rule: setup_run.induct)
  case setup_start
  have "progress h c new_parser [] = c" if "fresh_session h c" for h c
    using that by (simp add: progress_def fresh_session_def preface_complete_def new_parser_def RecordParser_def)
  then show ?case using assms(2,3,6,7)
    by (auto simp: setup_inv_def at_setup_def answered_def intro!: exI [of _ "[]"])
next
  case (setup_receive_a s c io n bytes rest res w1 c1)
  from setup_receive_a.IH obtain seen_a seen_b where
    inv: "at_setup ha sa ca seen_a (ex_a s)" "at_setup hb sb cb seen_b (ex_b s)"
    "answered hb seen_b = seen_a @ ex_to_a s" "answered ha seen_a = seen_b @ ex_to_b s" by (auto simp: setup_inv_def)
  have "answered hb seen_b = seen_a @ take 4096 bytes @ rest" using inv(3) setup_receive_a.hyps by simp
  from at_setup_receive [OF assms(4,5,6) inv(1) assms(9) this setup_receive_a.hyps(2-7,9,10)]
  show ?case unfolding setup_inv_def using inv setup_receive_a.hyps(8)
    by (intro exI [of _ "seen_a @ take 4096 bytes"] exI [of _ seen_b]) simp
next
  case (setup_receive_b s c io n bytes rest res w1 c1)
  from setup_receive_b.IH obtain seen_a seen_b where
    inv: "at_setup ha sa ca seen_a (ex_a s)" "at_setup hb sb cb seen_b (ex_b s)"
    "answered hb seen_b = seen_a @ ex_to_a s" "answered ha seen_a = seen_b @ ex_to_b s" by (auto simp: setup_inv_def)
  have "answered ha seen_a = seen_b @ take 4096 bytes @ rest" using inv(4) setup_receive_b.hyps by simp
  from at_setup_receive [OF assms(5,4,7) inv(2) assms(8) this setup_receive_b.hyps(2-7,9,10)]
  show ?case unfolding setup_inv_def using inv setup_receive_b.hyps(8)
    by (intro exI [of _ seen_a] exI [of _ "seen_b @ take 4096 bytes"]) simp
next
  case (setup_other s w1 w2)
  then show ?case by (auto simp: setup_inv_def at_setup_def)
qed

section \<open>Properties\<close>


section \<open>Witness\<close>

definition greeting_lib :: json_lib where
  "greeting_lib = \<lparr>json_parse = (\<lambda>s. if s = ''m'' then Some (hello_packet ''local'') else None),
     json_stream = (\<lambda>j. if j = hello_packet ''local'' then ([''m''], True) else ([], False))\<rparr>"

definition greeting_host :: host where
  "greeting_host = \<lparr>h_json = greeting_lib, h_my_device_id = ''local'',
     h_io = (\<lambda>t. (h_io sample_host t)\<lparr>io_recv := Inr (if t = 0 then preface_bytes else wire ''m'')\<rparr>)\<rparr>"

definition greeting_world :: world where
  "greeting_world = sample_prefaced\<lparr>w_tick := 0\<rparr>"

lemma greeting_body: "hello_body greeting_host = ''m''" "h_json greeting_host = greeting_lib" "h_my_device_id greeting_host = ''local''"
  by (simp_all add: hello_body_def greeting_host_def greeting_lib_def)

lemma greeting_greets: "greets greeting_host"
  by (simp add: greets_def greeting_body greeting_lib_def json_dump_def MAX_CONTROL_RECORD_SIZE_def)

lemma greeting_fresh: "fresh_session greeting_host sample_conn"
proof -
  have io: "io_now (h_io greeting_host t) = 0"
    "io_sends (h_io greeting_host t) = [\<lparr>se_stopping = False, se_now = 0, se_result = Inr 100, se_polls = []\<rparr>]" for t
    by (simp_all add: greeting_host_def sample_host_def)
  show ?thesis
    by (simp add: fresh_session_def sample_conn_def in_time_def greeting_body io wire_m HANDSHAKE_TIMEOUT_def send_all_def
        WRITE_TIMEOUT_def)
qed

lemma greeting_io:
  "wait_for_socket (Some (c_handshake_deadline sample_conn)) (io_polls (h_io greeting_host t)) = Some 1"
  "io_recv (h_io greeting_host 0) = Inr preface_bytes" "io_recv (h_io greeting_host 1) = Inr (wire ''m'')"
  by (simp_all add: greeting_host_def sample_host_def sample_conn_def poll_timeout_def HANDSHAKE_TIMEOUT_def)

lemma greeting_parse: "json_parse (h_json greeting_host) (hello_body greeting_host) = Some (own_hello greeting_host)"
  by (simp add: greeting_body greeting_lib_def)

lemma greeting_start: "at_setup greeting_host 1 sample_conn [] greeting_world"
  by (simp add: at_setup_def greeting_world_def sample_prefaced_def progress_def preface_complete_def new_parser_def
      RecordParser_def sample_conn_def)

text \<open>One piece, when all that was sent before has been seen.\<close>

lemma greeting_step:
  assumes "at_setup greeting_host 1 sample_conn seen w" and "io_recv (h_io greeting_host (w_tick w)) = Inr bytes"
    and "0 < length bytes" and "length bytes \<le> 4096" and "prefix (seen @ bytes) (setup_stream greeting_host)"
  shows "\<exists>w1 c c1. receive_step greeting_host 1 w = (RecvContinue, w1) \<and> at_setup greeting_host 1 sample_conn (seen @ bytes) w1 \<and>
    w_conns w 1 = Some c \<and> c_handshake_deadline c = c_handshake_deadline sample_conn \<and> c_wire c = answered greeting_host seen \<and>
    w_conns w1 1 = Some c1 \<and> c_wire c1 = answered greeting_host (seen @ bytes)"
proof -
  have piece: "take 4096 bytes = bytes" "bytes \<noteq> []" using assms(3,4) by auto
  have pre: "prefix seen (setup_stream greeting_host)" using assms(5) by (auto simp: prefix_def)
  obtain w1 where "receive_step greeting_host 1 w = (RecvContinue, w1)" "at_setup greeting_host 1 sample_conn (seen @ bytes) w1"
    using at_setup_step [OF greeting_greets greeting_greets greeting_fresh assms(1) _ greeting_parse refl greeting_io(1) _ assms(2) piece(2)]
      piece(1) assms(5) by auto
  moreover from this(2) have "\<exists>c. w_conns w1 1 = Some c \<and> c_wire c = answered greeting_host (seen @ bytes)"
    using at_setup_wire [OF greeting_fresh _ greeting_greets assms(5)] by blast
  ultimately show ?thesis using at_setup_wire [OF greeting_fresh assms(1) greeting_greets pre] by blast
qed

lemma answered_simps [simp]:
  "length seen \<ge> 10 \<Longrightarrow> answered h seen = setup_stream h" "answered h [] = preface_bytes"
  "drop 10 (setup_stream h) = wire (hello_body h)" "length (preface_bytes @ xs) \<ge> 10" "preface_bytes \<noteq> []"
  by (simp_all add: answered_def setup_stream_def flip: length_greater_0_conv)


end
