(* ===== verification/Durable_Storage.thy ===== *)
theory Durable_Storage
  imports Trust_Store
begin

text \<open>
  The operating system as the identity store and the opening of the trust store see it.  A program is a function on the answers the
  system will still give and on the directory: each system call takes the next answer, which lets
  it proceed, fails it with an error number, or kills the process there; when the answers end the
  process is killed too.  A directory has the files that processes see and, for each name, the
  entries it had since the directory was last flushed.  After a loss of power a name may have any
  of those entries, independently of the other names, and a file whose data was not flushed may
  hold anything.  \<open>triple\<close> is a Hoare logic whose last predicate holds wherever the program may
  stop with an exception or be killed.
\<close>

section \<open>Directory\<close>

record fs_file =
  fl_info :: file_info
  fl_link :: bool
  fl_data :: string
  fl_synced :: bool

record disk =
  dk_files :: "string \<rightharpoonup> fs_file"
  dk_pending :: "string \<Rightarrow> fs_file option list"

definition create_file :: "string \<Rightarrow> file_info \<Rightarrow> disk \<Rightarrow> disk" where
  "create_file name info d =
     d\<lparr>dk_files := (dk_files d)(name \<mapsto> \<lparr>fl_info = info, fl_link = False, fl_data = [], fl_synced = False\<rparr>),
       dk_pending := (dk_pending d)(name := dk_pending d name @ [dk_files d name])\<rparr>"

definition update_file :: "string \<Rightarrow> (fs_file \<Rightarrow> fs_file) \<Rightarrow> disk \<Rightarrow> disk" where
  "update_file name f d = d\<lparr>dk_files := (dk_files d)(name := map_option f (dk_files d name))\<rparr>"

definition append_data :: "string \<Rightarrow> string \<Rightarrow> disk \<Rightarrow> disk" where
  "append_data name bytes = update_file name (\<lambda>f. f\<lparr>fl_data := fl_data f @ bytes, fl_synced := False\<rparr>)"

definition sync_data :: "string \<Rightarrow> disk \<Rightarrow> disk" where
  "sync_data name = update_file name (\<lambda>f. f\<lparr>fl_synced := True\<rparr>)"

definition rename_file :: "string \<Rightarrow> string \<Rightarrow> disk \<Rightarrow> disk" where
  "rename_file src dst d =
     d\<lparr>dk_files := (dk_files d)(dst := dk_files d src, src := None),
       dk_pending := (dk_pending d)(dst := dk_pending d dst @ [dk_files d dst],
                                    src := dk_pending d src @ [dk_files d src])\<rparr>"

definition sync_directory :: "disk \<Rightarrow> disk" where
  "sync_directory d = d\<lparr>dk_pending := (\<lambda>_. [])\<rparr>"

text \<open>What a loss of power may leave of an entry, and of a directory.\<close>

definition survives :: "fs_file option \<Rightarrow> fs_file option \<Rightarrow> bool" where
  "survives before after \<longleftrightarrow>
     (case before of
        None \<Rightarrow> after = None
      | Some f \<Rightarrow> if fl_synced f then after = Some f
                  else \<exists>bytes. after = Some (f\<lparr>fl_data := bytes, fl_synced := True\<rparr>))"

definition power_loss :: "disk \<Rightarrow> disk \<Rightarrow> bool" where
  "power_loss d d1 \<longleftrightarrow>
     (\<forall>n. \<exists>e \<in> set (dk_files d n # dk_pending d n). survives e (dk_files d1 n)) \<and> dk_pending d1 = (\<lambda>_. [])"

section \<open>Programs\<close>

datatype sys = Proceed nat | Fault errno | Kill

datatype ('e, 'a) outcome = Value 'a | Raised 'e | Killed

text \<open>A program on states \<open>'s\<close> with exceptions \<open>'e\<close>; those of the identity work on the directory.\<close>

type_synonym ('s, 'e, 'a) prog = "sys list \<times> 's \<Rightarrow> ('e, 'a) outcome \<times> sys list \<times> 's"

type_synonym 'a proc = "(disk, string, 'a) prog"

definition returnp :: "'a \<Rightarrow> ('s, 'e, 'a) prog" where
  "returnp x s = (Value x, s)"

definition raisep :: "'e \<Rightarrow> ('s, 'e, 'a) prog" where
  "raisep e s = (Raised e, s)"

definition bindp ::
  "('s, 'e, 'a) prog \<Rightarrow> ('a \<Rightarrow> ('s, 'e, 'b) prog) \<Rightarrow> ('s, 'e, 'b) prog" where
  "bindp p f s =
     (case p s of
        (Value x, s1) \<Rightarrow> f x s1
      | (Raised e, s1) \<Rightarrow> (Raised e, s1)
      | (Killed, s1) \<Rightarrow> (Killed, s1))"

definition getp :: "('s, 'e, 's) prog" where
  "getp s = (Value (snd s), s)"

definition modifyp :: "('s \<Rightarrow> 's) \<Rightarrow> ('s, 'e, unit) prog" where
  "modifyp f s = (Value (), fst s, f (snd s))"

definition syscall ::
  "(errno \<Rightarrow> ('s, 'e, 'a) prog) \<Rightarrow> (nat \<Rightarrow> ('s, 'e, 'a) prog) \<Rightarrow> ('s, 'e, 'a) prog" where
  "syscall bad good s =
     (case s of (es, d) \<Rightarrow>
        (case es of
           [] \<Rightarrow> (Killed, [], d)
         | Kill # es1 \<Rightarrow> (Killed, es1, d)
         | Fault e # es1 \<Rightarrow> bad e (es1, d)
         | Proceed n # es1 \<Rightarrow> good n (es1, d)))"

text \<open>A call that only has to succeed.\<close>

definition callp :: "'e \<Rightarrow> ('s, 'e, unit) prog" where
  "callp message = syscall (\<lambda>_. raisep message) (\<lambda>_. returnp ())"

section \<open>Crash logic\<close>

definition triple ::
  "('s \<Rightarrow> bool) \<Rightarrow> ('s, 'e, 'a) prog \<Rightarrow> ('a \<Rightarrow> 's \<Rightarrow> bool) \<Rightarrow> ('s \<Rightarrow> bool) \<Rightarrow> bool" where
  "triple P p Q E \<longleftrightarrow>
     (\<forall>es d r es1 d1. P d \<longrightarrow> p (es, d) = (r, es1, d1) \<longrightarrow>
        (case r of Value x \<Rightarrow> Q x d1 | _ \<Rightarrow> E d1))"

lemma tripleI:
  assumes "\<And>es d r es1 d1. P d \<Longrightarrow> p (es, d) = (r, es1, d1) \<Longrightarrow> (case r of Value x \<Rightarrow> Q x d1 | _ \<Rightarrow> E d1)"
  shows "triple P p Q E"
  using assms by (auto simp: triple_def)

lemma tripleD:
  assumes "triple P p Q E" and "P d" and "p (es, d) = (r, es1, d1)"
  shows "case r of Value x \<Rightarrow> Q x d1 | _ \<Rightarrow> E d1"
  using assms by (auto simp: triple_def)

lemma triple_return: "(\<And>d. P d \<Longrightarrow> Q x d) \<Longrightarrow> triple P (returnp x) Q E"
  by (auto simp: triple_def returnp_def)

lemma triple_raise: "(\<And>d. P d \<Longrightarrow> E d) \<Longrightarrow> triple P (raisep e) Q E"
  by (auto simp: triple_def raisep_def)

lemma triple_bind:
  assumes "triple P p R E" and "\<And>x. triple (R x) (f x) Q E"
  shows "triple P (bindp p f) Q E"
proof (rule tripleI)
  fix es d r es1 d1
  assume P: "P d" and run: "bindp p f (es, d) = (r, es1, d1)"
  obtain r0 es0 d0 where p: "p (es, d) = (r0, es0, d0)" by (cases "p (es, d)") auto
  from tripleD [OF assms(1) P p] run p
  show "case r of Value x \<Rightarrow> Q x d1 | _ \<Rightarrow> E d1"
    by (cases r0) (auto simp: bindp_def dest: tripleD [OF assms(2)])
qed

lemma triple_get: "(\<And>d. P d \<Longrightarrow> Q d d) \<Longrightarrow> triple P getp Q E"
  by (auto simp: triple_def getp_def)

lemma triple_modify: "(\<And>d. P d \<Longrightarrow> Q () (f d)) \<Longrightarrow> triple P (modifyp f) Q E"
  by (auto simp: triple_def modifyp_def)

lemma triple_syscall:
  assumes "\<And>d. P d \<Longrightarrow> E d" and "\<And>e. triple P (bad e) Q E" and "\<And>n. triple P (good n) Q E"
  shows "triple P (syscall bad good) Q E"
proof (rule tripleI)
  fix es d r es1 d1
  assume P: "P d" and run: "syscall bad good (es, d) = (r, es1, d1)"
  show "case r of Value x \<Rightarrow> Q x d1 | _ \<Rightarrow> E d1"
  proof (cases es)
    case Nil
    then show ?thesis using run P assms(1) by (auto simp: syscall_def)
  next
    case (Cons e es0)
    then show ?thesis
      using run P assms(1) tripleD [OF assms(2) P] tripleD [OF assms(3) P]
      by (cases e) (auto simp: syscall_def)
  qed
qed

lemma triple_call: "(\<And>d. P d \<Longrightarrow> Q () d) \<Longrightarrow> (\<And>d. P d \<Longrightarrow> E d) \<Longrightarrow> triple P (callp m) Q E"
  unfolding callp_def by (intro triple_syscall triple_raise triple_return)

lemma triple_conseq:
  assumes "triple P0 p Q0 E0" and "\<And>d. P d \<Longrightarrow> P0 d" and "\<And>x d. Q0 x d \<Longrightarrow> Q x d" and "\<And>d. E0 d \<Longrightarrow> E d"
  shows "triple P p Q E"
proof (rule tripleI)
  fix es d r es1 d1
  assume "P d" and "p (es, d) = (r, es1, d1)"
  from tripleD [OF assms(1) assms(2) [OF this(1)] this(2)] assms(3,4)
  show "case r of Value x \<Rightarrow> Q x d1 | _ \<Rightarrow> E d1" by (auto split: outcome.splits)
qed

lemma triple_if:
  "(b \<Longrightarrow> triple P p Q E) \<Longrightarrow> (\<not> b \<Longrightarrow> triple P q Q E) \<Longrightarrow> triple P (if b then p else q) Q E"
  by simp

section \<open>Runs without faults\<close>

text \<open>With at least \<open>k\<close> answers that all let a call proceed (and move at least 152 bytes), the
  program returns \<open>x\<close> and leaves \<open>d1\<close>, using at most \<open>k\<close> of them.\<close>

definition smooth :: "sys list \<Rightarrow> bool" where
  "smooth es \<longleftrightarrow> (\<forall>e \<in> set es. \<exists>n \<ge> 152. e = Proceed n)"

definition returns :: "nat \<Rightarrow> ('s, 'e, 'a) prog \<Rightarrow> 's \<Rightarrow> 'a \<Rightarrow> 's \<Rightarrow> bool" where
  "returns k p d x d1 \<longleftrightarrow>
     (\<forall>es. smooth es \<and> k \<le> length es \<longrightarrow>
        (\<exists>j \<le> k. p (es, d) = (Value x, drop j es, d1)))"

lemma smooth_drop: "smooth es \<Longrightarrow> smooth (drop j es)"
  by (auto simp: smooth_def dest: in_set_dropD)

lemma returns_return: "returns 0 (returnp x) d x d"
  by (simp add: returns_def returnp_def)

lemma returns_get: "returns 0 getp d d d"
  by (simp add: returns_def getp_def)

lemma returns_modify: "returns 0 (modifyp f) d () (f d)"
  by (simp add: returns_def modifyp_def)

lemma returns_bind:
  assumes "returns k p d x d1" and "returns m (f x) d1 y d2"
  shows "returns (k + m) (bindp p f) d y d2"
  unfolding returns_def
proof (intro allI impI)
  fix es
  assume es: "smooth es \<and> k + m \<le> length es"
  then obtain j where j: "j \<le> k" "p (es, d) = (Value x, drop j es, d1)"
    using assms(1) by (auto simp: returns_def)
  moreover have "smooth (drop j es)" "m \<le> length (drop j es)" using es j smooth_drop by auto
  then obtain i where "i \<le> m" "f x (drop j es, d1) = (Value y, drop i (drop j es), d2)"
    using assms(2) by (auto simp: returns_def)
  ultimately show "\<exists>j \<le> k + m. bindp p f (es, d) = (Value y, drop j es, d2)"
    by (intro exI [of _ "i + j"]) (auto simp: bindp_def)
qed

lemma returns_syscall:
  assumes "\<And>n. 152 \<le> n \<Longrightarrow> returns k (good n) d x d1"
  shows "returns (Suc k) (syscall bad good) d x d1"
  unfolding returns_def
proof (intro allI impI)
  fix es
  assume es: "smooth es \<and> Suc k \<le> length es"
  then obtain e es1 where c: "es = e # es1" by (cases es) auto
  with es obtain n where n: "e = Proceed n" "152 \<le> n" by (auto simp: smooth_def)
  from es c have "smooth es1" "k \<le> length es1" by (auto simp: smooth_def)
  with assms [OF n(2)] obtain j where "j \<le> k" "good n (es1, d) = (Value x, drop j es1, d1)"
    by (auto simp: returns_def)
  then show "\<exists>j \<le> Suc k. syscall bad good (es, d) = (Value x, drop j es, d1)"
    using c n by (intro exI [of _ "Suc j"]) (simp add: syscall_def)
qed

lemma returns_call: "returns 1 (callp m) d () d"
  using returns_syscall [of 0 "\<lambda>_. returnp ()" d "()" d] by (simp add: callp_def returns_return)

lemma returns_mono: "returns k p d x d1 \<Longrightarrow> k \<le> m \<Longrightarrow> returns m p d x d1"
  unfolding returns_def by (meson le_trans)

end
