(* ===== verification/Device_Identity.thy ===== *)
theory Device_Identity
  imports Durable_Storage
begin

text \<open>
  The device identity: \<open>src/core/identity/device_identity.{hpp,cpp}\<close> and \<open>src/core/utils/device_id.cpp\<close>.
  An identity is a manifest file (a UUID and a marker) and a key file bound to it.  One run of
  \<open>load_or_create\<close> is a program of \<open>Durable_Storage\<close>; libsodium is a record of functions, and
  \<open>identity_env\<close> holds what the system and the random generator give to one run.  The theorems say
  that the identity never changes once it has been returned, whatever crashes and losses of power
  happen in between, and that it can be loaded again.
\<close>

section \<open>Data\<close>

record DeviceIdentity =
  di_device_id :: string
  di_public_key :: string
  di_private_key :: string

record sodium =
  sod_init :: int
  sod_sk_to_seed :: "string \<Rightarrow> string option"
  sod_seed_keypair :: "string \<Rightarrow> (string \<times> string) option"

text \<open>
  \<open>ie_depth\<close> is the number of directories above the identity directory, \<open>ie_owned\<close> tells whether it
  is a directory of this user and not a symbolic link, and \<open>ie_lock\<close> lists what each attempt at the
  lock answers, with the milliseconds the clock then shows; when it ends the wait has timed out.
\<close>

record identity_env =
  ie_euid :: int
  ie_umask :: int
  ie_filename :: string
  ie_depth :: nat
  ie_owned :: bool
  ie_lock :: "(errno option \<times> nat) list"
  ie_random :: "byte list"
  ie_keypair :: "(string \<times> string) option"

definition IDENTITY_MARKER :: string where
  "IDENTITY_MARKER = CHR 0x0A # ''ed25519-v1'' @ [CHR 0x0A]"

definition KEY_MAGIC :: string where
  "KEY_MAGIC = ''GASOLINE-ED25519-V1'' @ [CHR 0x0A]"

definition UUID_SIZE :: nat where
  "UUID_SIZE = 36"

definition PUBLICKEYBYTES :: nat where
  "PUBLICKEYBYTES = 32"

definition SECRETKEYBYTES :: nat where
  "SECRETKEYBYTES = 64"

definition KEY_FILE_SIZE :: nat where
  "KEY_FILE_SIZE = length KEY_MAGIC + UUID_SIZE + PUBLICKEYBYTES + SECRETKEYBYTES"

definition make_error :: "string \<Rightarrow> string" where
  "make_error message = ''Device identity error: '' @ message"

definition initialize_sodium :: "sodium \<Rightarrow> unit proc" where
  "initialize_sodium S =
     (if sod_init S < 0 then raisep (make_error ''libsodium initialization failed'') else returnp ())"

section \<open>UUIDs\<close>

definition id_hex_digit :: "char \<Rightarrow> bool" where
  "id_hex_digit c \<longleftrightarrow> (CHR ''0'' \<le> c \<and> c \<le> CHR ''9'') \<or> (CHR ''a'' \<le> c \<and> c \<le> CHR ''f'') \<or>
     (CHR ''A'' \<le> c \<and> c \<le> CHR ''F'')"

fun uuid_chars_ok :: "string \<Rightarrow> nat \<Rightarrow> bool" where
  "uuid_chars_ok [] i = True"
| "uuid_chars_ok (c # cs) i =
     (if i = 8 \<or> i = 13 \<or> i = 18 \<or> i = 23
      then if c \<noteq> CHR ''-'' then False else uuid_chars_ok cs (i + 1)
      else if \<not> id_hex_digit c then False else uuid_chars_ok cs (i + 1))"

definition is_valid_uuid :: "string \<Rightarrow> bool" where
  "is_valid_uuid val = (if length val \<noteq> UUID_SIZE then False else uuid_chars_ok val 0)"

fun print_uuid_bytes :: "byte list \<Rightarrow> nat \<Rightarrow> string \<Rightarrow> string" where
  "print_uuid_bytes [] i uuid = uuid"
| "print_uuid_bytes (b # bs) i uuid =
     print_uuid_bytes bs (i + 1)
       (uuid @ (if i = 4 \<or> i = 6 \<or> i = 8 \<or> i = 10 then ''-'' else [])
         @ [''0123456789abcdef'' ! unat (drop_bit 4 b), ''0123456789abcdef'' ! unat (b AND 15)])"

definition version_4 :: "byte list \<Rightarrow> byte list" where
  "version_4 bytes =
     bytes[6 := (bytes ! 6 AND 0x0F) OR 0x40, 8 := (bytes ! 8 AND 0x3F) OR 0x80]"

definition generate_uuid :: "byte list \<Rightarrow> string" where
  "generate_uuid random = print_uuid_bytes (version_4 random) 0 []"

section \<open>Storage\<close>

fun sync_file :: "(disk \<Rightarrow> disk) \<Rightarrow> unit proc" where
  "sync_file f ([], d) = (Killed, [], d)"
| "sync_file f (e # es, d) =
     (case e of
        Kill \<Rightarrow> (Killed, es, d)
      | Proceed _ \<Rightarrow> (Value (), es, f d)
      | Fault EINTR \<Rightarrow> sync_file f (es, d)
      | Fault _ \<Rightarrow> (Raised (make_error ''failed to flush identity storage''), es, d))"

text \<open>The loop over the ancestors: the first directory flushed is the identity directory itself.\<close>

definition inspect_ancestor :: "unit proc" where
  "inspect_ancestor =
     bindp (callp (make_error ''unable to inspect identity directory's ancestor'')) (\<lambda>_.
     bindp (callp (make_error ''unable to inspect identity directory's ancestor'')) (\<lambda>_.
       callp (make_error ''unable to inspect identity directory's ancestor'')))"

fun sync_ancestors :: "nat \<Rightarrow> (disk \<Rightarrow> disk) \<Rightarrow> unit proc" where
  "sync_ancestors 0 f = bindp (sync_file f) (\<lambda>_. inspect_ancestor)"
| "sync_ancestors (Suc n) f =
     bindp (sync_file f) (\<lambda>_. bindp inspect_ancestor (\<lambda>_. sync_ancestors n id))"

definition sync_directory_tree :: "identity_env \<Rightarrow> unit proc" where
  "sync_directory_tree env =
     bindp (callp (make_error ''unable to duplicate identity directory handle'')) (\<lambda>_.
       sync_ancestors (ie_depth env) sync_directory)"

definition open_identity_directory :: "identity_env \<Rightarrow> unit proc" where
  "open_identity_directory env =
     bindp (callp (make_error ''failed to create identity directory'')) (\<lambda>_.
     bindp (callp (make_error ''identity directory is inaccessible, symlinked, or not owned by this user'')) (\<lambda>_.
     bindp (callp (make_error ''identity directory is inaccessible, symlinked, or not owned by this user'')) (\<lambda>_.
       if \<not> ie_owned env
       then raisep (make_error ''identity directory is inaccessible, symlinked, or not owned by this user'')
       else
     bindp (callp (make_error ''failed to secure identity directory permissions'')) (\<lambda>_.
       sync_directory_tree env))))"

definition entry_exists :: "string \<Rightarrow> bool proc" where
  "entry_exists name =
     syscall (\<lambda>_. raisep (make_error (''unable to inspect '' @ name)))
       (\<lambda>_. bindp getp (\<lambda>d. returnp (dk_files d name \<noteq> None)))"

datatype open_flags = O_RDONLY | O_RDWR_CREAT | O_WRONLY_CREAT_EXCL

definition created_info :: "identity_env \<Rightarrow> file_info" where
  "created_info env = \<lparr>st_regular = True, st_uid = ie_euid env, st_nlink = 1,
                       st_mode = 0x8000 OR (384 AND NOT (ie_umask env))\<rparr>"

definition private_info :: "int \<Rightarrow> file_info \<Rightarrow> bool" where
  "private_info euid info \<longleftrightarrow>
     st_regular info \<and> st_uid info = euid \<and> st_nlink info = 1 \<and> st_mode info AND 4095 = 384"

text \<open>The second call is the \<open>fstat\<close> on the opened file.\<close>

definition check_private :: "identity_env \<Rightarrow> string \<Rightarrow> fs_file \<Rightarrow> fs_file proc" where
  "check_private env name f =
     syscall (\<lambda>_. raisep (make_error (''unable to access '' @ name)))
       (\<lambda>_. if private_info (ie_euid env) (fl_info f) then returnp f
            else raisep (make_error (name @ '' must be a regular, user-owned 0600 file without additional hard links'')))"

definition open_private_file :: "identity_env \<Rightarrow> string \<Rightarrow> open_flags \<Rightarrow> fs_file proc" where
  "open_private_file env name flags =
     syscall (\<lambda>_. raisep (make_error (''unable to access '' @ name)))
       (\<lambda>_. bindp getp (\<lambda>d.
          case dk_files d name of
            Some f \<Rightarrow>
              if fl_link f \<or> flags = O_WRONLY_CREAT_EXCL then raisep (make_error (''unable to access '' @ name))
              else check_private env name f
          | None \<Rightarrow>
              if flags = O_RDONLY then raisep (make_error (''unable to access '' @ name))
              else bindp (modifyp (create_file name (created_info env))) (\<lambda>_.
                check_private env name
                  \<lparr>fl_info = created_info env, fl_link = False, fl_data = [], fl_synced = False\<rparr>)))"

fun lock_wait :: "(errno option \<times> nat) list \<Rightarrow> unit proc" where
  "lock_wait [] s = raisep (make_error ''timed out waiting for identity storage lock'') s"
| "lock_wait ((answer, elapsed) # rest) s =
     (case answer of
        None \<Rightarrow> returnp () s
      | Some EOTHER \<Rightarrow> raisep (make_error ''unable to lock identity storage'') s
      | Some _ \<Rightarrow>
          if elapsed \<ge> 2000 then raisep (make_error ''timed out waiting for identity storage lock'') s
          else lock_wait rest s)"

definition acquire_lock :: "identity_env \<Rightarrow> string \<Rightarrow> unit proc" where
  "acquire_lock env name =
     bindp (open_private_file env name O_RDWR_CREAT) (\<lambda>_. lock_wait (ie_lock env))"

text \<open>\<open>data\<close> is what the file holds, \<open>got\<close> how much of it has been read.\<close>

function (sequential) read_loop :: "string \<Rightarrow> string \<Rightarrow> nat \<Rightarrow> nat \<Rightarrow> string proc" where
  "read_loop name data capacity got ([], d) = (Killed, [], d)"
| "read_loop name data capacity got (e # es, d) =
     (if got < capacity
      then (case e of
              Kill \<Rightarrow> (Killed, es, d)
            | Fault EINTR \<Rightarrow> read_loop name data capacity got (es, d)
            | Fault _ \<Rightarrow> (Raised (make_error (''failed to read '' @ name)), es, d)
            | Proceed n \<Rightarrow>
                let count = min (max 1 n) (min (capacity - got) (length data - got))
                in if count = 0 then (Value (take got data), es, d)
                   else read_loop name data capacity (got + count) (es, d))
      else (case e of
              Kill \<Rightarrow> (Killed, es, d)
            | Fault EINTR \<Rightarrow> read_loop name data capacity got (es, d)
            | Fault _ \<Rightarrow> (Raised (make_error (''invalid size or read failure in '' @ name)), es, d)
            | Proceed _ \<Rightarrow>
                if got < length data
                then (Raised (make_error (''invalid size or read failure in '' @ name)), es, d)
                else (Value (take got data), es, d)))"
  by pat_completeness auto
termination by (relation "measure (\<lambda>(_, _, _, _, es, _). length es)") auto

definition read_file :: "identity_env \<Rightarrow> string \<Rightarrow> nat \<Rightarrow> string proc" where
  "read_file env name capacity =
     bindp (open_private_file env name O_RDONLY) (\<lambda>f. read_loop name (fl_data f) capacity 0)"

function (sequential) write_loop :: "string \<Rightarrow> string \<Rightarrow> nat \<Rightarrow> unit proc" where
  "write_loop name data written ([], d) =
     (if written < length data then (Killed, [], d) else (Value (), [], d))"
| "write_loop name data written (e # es, d) =
     (if written < length data
      then (case e of
              Kill \<Rightarrow> (Killed, es, d)
            | Fault EINTR \<Rightarrow> write_loop name data written (es, d)
            | Fault _ \<Rightarrow> (Raised (make_error (''failed to write '' @ name)), es, d)
            | Proceed n \<Rightarrow>
                let count = min n (length data - written)
                in if count = 0 then (Raised (make_error (''failed to write '' @ name)), es, d)
                   else write_loop name data (written + count)
                          (es, append_data name (take count (drop written data)) d))
      else (Value (), e # es, d))"
  by pat_completeness auto
termination by (relation "measure (\<lambda>(_, _, _, es, _). length es)") auto

definition atomic_write :: "identity_env \<Rightarrow> string \<Rightarrow> string \<Rightarrow> unit proc" where
  "atomic_write env name data =
     (let temporary = name @ ''.tmp''
      in bindp (open_private_file env temporary O_WRONLY_CREAT_EXCL) (\<lambda>_.
         bindp (write_loop temporary data 0) (\<lambda>_.
         bindp (sync_file (sync_data temporary)) (\<lambda>_.
         bindp (callp (make_error ''failed to close persisted identity file'')) (\<lambda>_.
         bindp (callp (make_error (''failed to publish '' @ name))) (\<lambda>_.
         bindp (modifyp (rename_file temporary name)) (\<lambda>_.
           sync_file sync_directory)))))))"

section \<open>Loading and creating\<close>

fun strip_newlines :: "string \<Rightarrow> string" where
  "strip_newlines text =
     (if text \<noteq> [] \<and> (last text = CHR 0x0A \<or> last text = CHR 0x0D) then strip_newlines (butlast text) else text)"

declare strip_newlines.simps [simp del]

text \<open>The UUID of the manifest, and whether it demands a key file; no UUID if there is no manifest.\<close>

definition parse_manifest :: "string \<Rightarrow> (string \<times> bool) proc" where
  "parse_manifest contents =
     (let versioned = length contents = UUID_SIZE + length IDENTITY_MARKER \<and> drop UUID_SIZE contents = IDENTITY_MARKER;
          text = (if versioned then take UUID_SIZE contents else strip_newlines contents)
      in if \<not> is_valid_uuid text then raisep (make_error ''invalid UUID or identity format'')
         else returnp (text, versioned))"

definition read_manifest :: "identity_env \<Rightarrow> string \<Rightarrow> (string \<times> bool) proc" where
  "read_manifest env name =
     bindp (entry_exists name) (\<lambda>present.
       if present then bindp (read_file env name 64) parse_manifest else returnp ([], False))"

definition consistent_keys :: "sodium \<Rightarrow> string \<Rightarrow> string \<Rightarrow> bool" where
  "consistent_keys S public_key private_key \<longleftrightarrow>
     (case sod_sk_to_seed S private_key of
        None \<Rightarrow> False
      | Some seed \<Rightarrow> sod_seed_keypair S seed = Some (public_key, private_key))"

definition load_keys :: "sodium \<Rightarrow> identity_env \<Rightarrow> string \<Rightarrow> string \<Rightarrow> DeviceIdentity proc" where
  "load_keys S env keys_name uuid =
     bindp (read_file env keys_name KEY_FILE_SIZE) (\<lambda>bytes.
       if length bytes \<noteq> KEY_FILE_SIZE \<or> take (length KEY_MAGIC) bytes \<noteq> KEY_MAGIC \<or>
          take UUID_SIZE (drop (length KEY_MAGIC) bytes) \<noteq> uuid
       then raisep (make_error ''invalid key record format, length, or UUID binding'')
       else let keys = drop (length KEY_MAGIC + UUID_SIZE) bytes;
                public_key = take PUBLICKEYBYTES keys;
                private_key = take SECRETKEYBYTES (drop PUBLICKEYBYTES keys)
            in if \<not> consistent_keys S public_key private_key
               then raisep (make_error ''corrupt or inconsistent Ed25519 key material'')
               else returnp \<lparr>di_device_id = uuid, di_public_key = public_key, di_private_key = private_key\<rparr>)"

definition create_keys :: "identity_env \<Rightarrow> string \<Rightarrow> string \<Rightarrow> string \<Rightarrow> DeviceIdentity proc" where
  "create_keys env name keys_name stored_uuid =
     (let uuid = (if stored_uuid = [] then generate_uuid (ie_random env) else stored_uuid)
      in bindp (atomic_write env name (uuid @ IDENTITY_MARKER)) (\<lambda>_.
         case ie_keypair env of
           None \<Rightarrow> raisep (make_error ''Ed25519 key generation failed'')
         | Some (public_key, private_key) \<Rightarrow>
             bindp (atomic_write env keys_name (KEY_MAGIC @ uuid @ public_key @ private_key)) (\<lambda>_.
               returnp \<lparr>di_device_id = uuid, di_public_key = public_key, di_private_key = private_key\<rparr>)))"

definition obtain_keys :: "sodium \<Rightarrow> identity_env \<Rightarrow> string \<Rightarrow> string \<Rightarrow> string \<Rightarrow> bool \<Rightarrow> DeviceIdentity proc" where
  "obtain_keys S env name keys_name uuid keys_required =
     bindp (entry_exists keys_name) (\<lambda>keys_exist.
       if keys_exist \<noteq> keys_required
       then raisep (make_error (if keys_required
              then ''established key material is missing; identity will not be regenerated''
              else ''key material has no matching versioned UUID identity''))
       else if keys_required then load_keys S env keys_name uuid
       else create_keys env name keys_name uuid)"

definition load_or_create :: "sodium \<Rightarrow> identity_env \<Rightarrow> DeviceIdentity proc" where
  "load_or_create S env =
     bindp (initialize_sodium S) (\<lambda>_.
       let name = ie_filename env; keys_name = name @ ''.keys''
       in if name = [] \<or> name = ''.'' \<or> name = ''..'' then raisep (make_error ''invalid identity filename'')
       else
     bindp (open_identity_directory env) (\<lambda>_.
     bindp (acquire_lock env (name @ ''.lock'')) (\<lambda>_.
     bindp (entry_exists (name @ ''.tmp'')) (\<lambda>tmp.
     bindp (if tmp then returnp True else entry_exists (keys_name @ ''.tmp'')) (\<lambda>interrupted.
       if interrupted
       then raisep (make_error ''interrupted identity initialization; restore the complete identity before retrying'')
       else
     bindp (read_manifest env name) (\<lambda>(uuid, keys_required).
       obtain_keys S env name keys_name uuid keys_required))))))"

section \<open>The steps in the crash logic\<close>

lemma triple_sync:
  assumes "\<And>d. P d \<Longrightarrow> Q () (f d)" and "\<And>d. P d \<Longrightarrow> E d"
  shows "triple P (sync_file f) Q E"
proof (rule tripleI)
  fix es d r es1 d1
  assume "P d" and "sync_file f (es, d) = (r, es1, d1)"
  then show "case r of Value x \<Rightarrow> Q x d1 | _ \<Rightarrow> E d1"
    using assms by (induction es) (auto split: sys.splits errno.splits)
qed

lemma triple_inspect: "(\<And>d. P d \<Longrightarrow> Q () d) \<Longrightarrow> (\<And>d. P d \<Longrightarrow> E d) \<Longrightarrow> triple P inspect_ancestor Q E"
  unfolding inspect_ancestor_def by (intro triple_bind [where R = "\<lambda>_. P"] triple_call)

lemma triple_ancestors_id: "(\<And>d. P d \<Longrightarrow> Q () d) \<Longrightarrow> (\<And>d. P d \<Longrightarrow> E d) \<Longrightarrow> triple P (sync_ancestors n id) Q E"
proof (induction n)
  case 0
  then show ?case unfolding sync_ancestors.simps
    by (intro triple_bind [where R = "\<lambda>_. P"] triple_sync triple_inspect) auto
next
  case (Suc n)
  show ?case unfolding sync_ancestors.simps
    by (intro triple_bind [where R = "\<lambda>_. P"] triple_sync triple_inspect Suc.IH) (simp_all add: Suc.prems)
qed

lemma triple_ancestors:
  assumes "\<And>d. P d \<Longrightarrow> Q () (f d)" and "\<And>d. P d \<Longrightarrow> E d" and "\<And>d. Q () d \<Longrightarrow> E d"
  shows "triple P (sync_ancestors n f) Q E"
  using assms
  by (cases n) (auto intro!: triple_bind [where R = "\<lambda>_. Q ()"] triple_sync triple_inspect triple_ancestors_id)

lemma triple_open_directory:
  assumes "\<And>d. P d \<Longrightarrow> Q () (sync_directory d)" and "\<And>d. P d \<Longrightarrow> E d" and "\<And>d. Q () d \<Longrightarrow> E d"
  shows "triple P (open_identity_directory env) Q E"
  unfolding open_identity_directory_def sync_directory_tree_def
  using assms by (intro triple_bind [where R = "\<lambda>_. P"] triple_call triple_if triple_raise triple_ancestors)

lemma triple_exists:
  assumes "\<And>d. P d \<Longrightarrow> E d" and "\<And>d. P d \<Longrightarrow> Q (dk_files d name \<noteq> None) d"
  shows "triple P (entry_exists name) Q E"
  unfolding entry_exists_def
  using assms by (intro triple_syscall triple_raise triple_bind [where R = "\<lambda>d d1. P d1 \<and> d1 = d"]
      triple_get triple_return) auto

lemma triple_check_private:
  assumes "\<And>d. P d \<Longrightarrow> E d" and "\<And>d. P d \<Longrightarrow> private_info (ie_euid env) (fl_info f) \<Longrightarrow> Q f d"
  shows "triple P (check_private env name f) Q E"
  unfolding check_private_def
  using assms by (intro triple_syscall triple_raise triple_if triple_return) auto

lemma triple_open:
  assumes "\<And>d. P d \<Longrightarrow> E d"
    and "\<And>d f. P d \<Longrightarrow> flags \<noteq> O_WRONLY_CREAT_EXCL \<Longrightarrow> dk_files d name = Some f \<Longrightarrow> \<not> fl_link f \<Longrightarrow>
           private_info (ie_euid env) (fl_info f) \<Longrightarrow> Q f d"
    and "\<And>d. P d \<Longrightarrow> flags \<noteq> O_RDONLY \<Longrightarrow> dk_files d name = None \<Longrightarrow> R (create_file name (created_info env) d)"
    and "\<And>d. R d \<Longrightarrow> E d"
    and "\<And>d. R d \<Longrightarrow> private_info (ie_euid env) (created_info env) \<Longrightarrow>
           Q \<lparr>fl_info = created_info env, fl_link = False, fl_data = [], fl_synced = False\<rparr> d"
  shows "triple P (open_private_file env name flags) Q E"
  unfolding open_private_file_def
proof (intro triple_syscall triple_bind [where R = "\<lambda>d d1. P d1 \<and> d1 = d"] triple_raise triple_get)
  fix d0 :: disk
  let ?new = "\<lparr>fl_info = created_info env, fl_link = False, fl_data = [], fl_synced = False\<rparr>"
  show "triple (\<lambda>d1. P d1 \<and> d1 = d0)
     (case dk_files d0 name of
        None \<Rightarrow> if flags = O_RDONLY then raisep (make_error (''unable to access '' @ name))
               else bindp (modifyp (create_file name (created_info env))) (\<lambda>_. check_private env name ?new)
      | Some f \<Rightarrow> if fl_link f \<or> flags = O_WRONLY_CREAT_EXCL
                 then raisep (make_error (''unable to access '' @ name)) else check_private env name f) Q E"
  proof (cases "dk_files d0 name")
    case None
    have "triple (\<lambda>d1. P d1 \<and> d1 = d0)
        (bindp (modifyp (create_file name (created_info env))) (\<lambda>_. check_private env name ?new)) Q E"
      if "flags \<noteq> O_RDONLY"
      using None that assms(3-5)
      by (intro triple_bind [where R = "\<lambda>_. R"] triple_modify triple_check_private) auto
    with None assms(1) show ?thesis by (auto intro!: triple_raise)
  next
    case (Some f)
    with assms(1,2) show ?thesis by (auto intro!: triple_raise triple_check_private)
  qed
qed (use assms(1) in auto)

lemma read_loop_spec:
  assumes "read_loop name data capacity got (es, d) = (r, es1, d1)"
  shows "d1 = d \<and> (\<forall>text. r = Value text \<longrightarrow> got \<le> length data \<longrightarrow> got \<le> capacity \<longrightarrow>
           text = data \<and> length data \<le> capacity)"
  using assms
proof (induction name data capacity got "(es, d)" arbitrary: es rule: read_loop.induct)
  case (2 name data capacity got e es)
  show ?case
  proof (cases e)
    case (Proceed n)
    let ?c = "min (max 1 n) (min (capacity - got) (length data - got))"
    show ?thesis
    proof (cases "got < capacity \<and> ?c \<noteq> 0")
      case True
      with 2(4) Proceed have "read_loop name data capacity (got + ?c) (es, d) = (r, es1, d1)"
        by (auto simp: Let_def split: if_splits)
      from "2.hyps"(1) [OF _ Proceed refl _ this] True show ?thesis by auto
    next
      case False
      with 2(4) Proceed show ?thesis by (auto simp: Let_def split: if_splits)
    qed
  next
    case (Fault x)
    with 2 show ?thesis by (cases x) (auto split: if_splits)
  qed (use 2(4) in \<open>auto split: if_splits\<close>)
qed simp

lemma triple_read:
  assumes "\<And>d. P d \<Longrightarrow> E d"
    and "\<And>d f. P d \<Longrightarrow> dk_files d name = Some f \<Longrightarrow> \<not> fl_link f \<Longrightarrow> private_info (ie_euid env) (fl_info f) \<Longrightarrow>
           length (fl_data f) \<le> capacity \<Longrightarrow> Q (fl_data f) d"
  shows "triple P (read_file env name capacity) Q E"
  unfolding read_file_def
proof (rule triple_bind [where R = "\<lambda>f d. P d \<and> dk_files d name = Some f \<and> \<not> fl_link f \<and>
    private_info (ie_euid env) (fl_info f)"])
  show "triple P (open_private_file env name O_RDONLY)
      (\<lambda>f d. P d \<and> dk_files d name = Some f \<and> \<not> fl_link f \<and> private_info (ie_euid env) (fl_info f)) E"
    using assms(1) by (intro triple_open [where R = "\<lambda>_. False"]) auto
  show "triple (\<lambda>d. P d \<and> dk_files d name = Some f \<and> \<not> fl_link f \<and> private_info (ie_euid env) (fl_info f))
      (read_loop name (fl_data f) capacity 0) Q E" for f
    using assms by (intro tripleI) (auto dest!: read_loop_spec split: outcome.split)
qed

text \<open>Writing only changes the temporary file; when it returns, the file holds the data.\<close>

definition same_but :: "string \<Rightarrow> disk \<Rightarrow> disk \<Rightarrow> bool" where
  "same_but t d d1 \<longleftrightarrow>
     (\<forall>n. n \<noteq> t \<longrightarrow> dk_files d1 n = dk_files d n \<and> dk_pending d1 n = dk_pending d n)"

lemma same_but_simps [simp]:
  "same_but t d d" "same_but t d (create_file t info d)" "same_but t d (append_data t bytes d)"
  "same_but t d (sync_data t d)"
  by (simp_all add: same_but_def create_file_def append_data_def sync_data_def update_file_def)

lemma same_but_trans: "same_but t d d1 \<Longrightarrow> same_but t d1 d2 \<Longrightarrow> same_but t d d2"
  by (simp add: same_but_def)

lemma write_loop_spec:
  assumes "write_loop t data written (es, d) = (r, es1, d1)"
  shows "same_but t d d1 \<and>
    (r = Value () \<longrightarrow> written \<le> length data \<longrightarrow> (\<forall>f. dk_files d t = Some f \<longrightarrow> fl_data f = take written data \<longrightarrow>
       (\<exists>f1. dk_files d1 t = Some f1 \<and> fl_data f1 = data \<and> fl_info f1 = fl_info f \<and> fl_link f1 = fl_link f)))"
  using assms
proof (induction t data written "(es, d)" arbitrary: es d rule: write_loop.induct)
  case (2 t data written e es d)
  show ?case
  proof (cases "\<exists>n. e = Proceed n \<and> written < length data \<and> min n (length data - written) \<noteq> 0")
    case True
    then obtain n where n: "e = Proceed n" "written < length data" "min n (length data - written) \<noteq> 0" by blast
    let ?c = "min n (length data - written)"
    let ?d = "append_data t (take ?c (drop written data)) d"
    from 2(3) n have run: "write_loop t data (written + ?c) (es, ?d) = (r, es1, d1)"
      by (auto simp: Let_def split: if_splits)
    have at: "\<exists>g. dk_files ?d t = Some g \<and> fl_data g = take (written + ?c) data \<and> fl_info g = fl_info f \<and>
        fl_link g = fl_link f" if "dk_files d t = Some f" "fl_data f = take written data" for f
      using that by (simp add: append_data_def update_file_def take_add)
    note IH = "2.hyps"(1) [OF n(2,1) refl n(3) run]
    have le: "written + ?c \<le> length data" using n(2) by simp
    show ?thesis
    proof (intro conjI impI allI)
      show "same_but t d d1" using same_but_simps(3) IH by (blast intro: same_but_trans)
    next
      fix f
      assume r: "r = Value ()" and f: "dk_files d t = Some f" "fl_data f = take written data"
      from at [OF f] obtain g where g: "dk_files ?d t = Some g" "fl_data g = take (written + ?c) data"
        "fl_info g = fl_info f" "fl_link g = fl_link f" by blast
      with IH r le show "\<exists>f1. dk_files d1 t = Some f1 \<and> fl_data f1 = data \<and> fl_info f1 = fl_info f \<and>
          fl_link f1 = fl_link f" by simp
    qed
  next
    case False
    with 2 show ?thesis by (auto simp: Let_def split: if_splits sys.splits errno.splits)
  qed
qed (auto split: if_splits)

lemma triple_write:
  assumes "\<And>d d1. P d \<Longrightarrow> same_but t d d1 \<Longrightarrow> E d1"
    and "\<And>d d1 f f1. P d \<Longrightarrow> same_but t d d1 \<Longrightarrow> dk_files d t = Some f \<Longrightarrow> fl_data f = [] \<Longrightarrow>
           dk_files d1 t = Some f1 \<Longrightarrow> fl_data f1 = data \<Longrightarrow> fl_info f1 = fl_info f \<Longrightarrow> fl_link f1 = fl_link f \<Longrightarrow> Q () d1"
    and "\<And>d. P d \<Longrightarrow> \<exists>f. dk_files d t = Some f \<and> fl_data f = []"
  shows "triple P (write_loop t data 0) Q E"
proof (rule tripleI)
  fix es d r es1 d1
  assume P: "P d" and run: "write_loop t data 0 (es, d) = (r, es1, d1)"
  from assms(3) [OF P] obtain f where "dk_files d t = Some f" "fl_data f = []" by blast
  with write_loop_spec [OF run] assms(1,2) [OF P] show "case r of Value x \<Rightarrow> Q x d1 | _ \<Rightarrow> E d1"
    by (cases r) fastforce+
qed

text \<open>
  A write is atomic: \<open>P\<close> is about other names than the temporary file, \<open>R\<close> holds once the complete
  file has its name.
\<close>

lemma triple_atomic_write:
  assumes other: "\<And>d d1. P d \<Longrightarrow> same_but (n @ ''.tmp'') d d1 \<Longrightarrow> P d1"
    and rename: "\<And>d f. P d \<Longrightarrow> dk_files d (n @ ''.tmp'') = Some f \<Longrightarrow> \<not> fl_link f \<Longrightarrow> fl_synced f \<Longrightarrow>
      private_info (ie_euid env) (fl_info f) \<Longrightarrow> fl_data f = data \<Longrightarrow> R (rename_file (n @ ''.tmp'') n d)"
    and sync: "\<And>d. R d \<Longrightarrow> Q () (sync_directory d)"
    and E: "\<And>d. P d \<Longrightarrow> E d" "\<And>d. R d \<Longrightarrow> E d"
  shows "triple P (atomic_write env n data) Q E"
proof -
  let ?t = "n @ ''.tmp''"
  let ?written = "\<lambda>s d. P d \<and> (\<exists>f. dk_files d ?t = Some f \<and> \<not> fl_link f \<and> (s \<longrightarrow> fl_synced f) \<and>
      private_info (ie_euid env) (fl_info f) \<and> fl_data f = data)"
  let ?new = "\<lambda>d. P d \<and> (\<exists>f. dk_files d ?t = Some f \<and> \<not> fl_link f \<and> fl_info f = created_info env \<and> fl_data f = [])"
  have new: "?new (create_file ?t (created_info env) d)" if "P d" for d
    using other [OF that same_but_simps(2)] by (simp add: create_file_def)
  show ?thesis
    unfolding atomic_write_def Let_def
  proof (rule triple_bind)
    show "triple P (open_private_file env ?t O_WRONLY_CREAT_EXCL)
        (\<lambda>_ d. ?new d \<and> private_info (ie_euid env) (created_info env)) E"
      using E new by (intro triple_open [where R = ?new]) auto
    show "triple (\<lambda>d. ?new d \<and> private_info (ie_euid env) (created_info env))
        (bindp (write_loop ?t data 0) (\<lambda>_. bindp (sync_file (sync_data ?t)) (\<lambda>_.
         bindp (callp (make_error ''failed to close persisted identity file'')) (\<lambda>_.
         bindp (callp (make_error (''failed to publish '' @ n))) (\<lambda>_.
         bindp (modifyp (rename_file ?t n)) (\<lambda>_. sync_file sync_directory)))))) Q E"
    proof (rule triple_bind [where R = "\<lambda>_. ?written False"], rule triple_write)
      show "triple (?written False) (bindp (sync_file (sync_data ?t)) (\<lambda>_.
         bindp (callp (make_error ''failed to close persisted identity file'')) (\<lambda>_.
         bindp (callp (make_error (''failed to publish '' @ n))) (\<lambda>_.
         bindp (modifyp (rename_file ?t n)) (\<lambda>_. sync_file sync_directory))))) Q E"
      proof (rule triple_bind [where R = "\<lambda>_. ?written True"])
        have "?written True (sync_data ?t d)" if "?written False d" for d
          using other [OF _ same_but_simps(4)] that by (auto simp: sync_data_def update_file_def)
        then show "triple (?written False) (sync_file (sync_data ?t)) (\<lambda>_. ?written True) E"
          using E(1) by (intro triple_sync) blast+
        show "triple (?written True) (bindp (callp (make_error ''failed to close persisted identity file'')) (\<lambda>_.
           bindp (callp (make_error (''failed to publish '' @ n))) (\<lambda>_.
           bindp (modifyp (rename_file ?t n)) (\<lambda>_. sync_file sync_directory)))) Q E"
          by (intro triple_bind [where R = "\<lambda>_. ?written True"] triple_call
              triple_bind [where R = "\<lambda>_. R"] triple_modify triple_sync) (auto intro: rename sync E)
      qed
    qed (use other E(1) in \<open>fastforce+\<close>)
  qed
qed

section \<open>The identity on disk\<close>

definition synced_entry :: "fs_file option \<Rightarrow> bool" where
  "synced_entry e = (case e of None \<Rightarrow> True | Some f \<Rightarrow> fl_synced f)"

text \<open>The manifest and the key file are only ever replaced by complete, flushed files.\<close>

definition safe_names :: "string \<Rightarrow> disk \<Rightarrow> bool" where
  "safe_names name d \<longleftrightarrow>
     (\<forall>n \<in> {name, name @ ''.keys''}. \<forall>e \<in> set (dk_files d n # dk_pending d n). synced_entry e)"

definition holds_file :: "int \<Rightarrow> string \<Rightarrow> string \<Rightarrow> disk \<Rightarrow> bool" where
  "holds_file euid n bytes d \<longleftrightarrow>
     (\<exists>f. dk_files d n = Some f \<and> \<not> fl_link f \<and> private_info euid (fl_info f) \<and> fl_data f = bytes \<and> fl_synced f)"

definition manifest_of :: "DeviceIdentity \<Rightarrow> string" where
  "manifest_of a = di_device_id a @ IDENTITY_MARKER"

definition key_record :: "DeviceIdentity \<Rightarrow> string" where
  "key_record a = KEY_MAGIC @ di_device_id a @ di_public_key a @ di_private_key a"

definition proper_identity :: "sodium \<Rightarrow> DeviceIdentity \<Rightarrow> bool" where
  "proper_identity S a \<longleftrightarrow>
     is_valid_uuid (di_device_id a) \<and> length (di_public_key a) = PUBLICKEYBYTES \<and>
     length (di_private_key a) = SECRETKEYBYTES \<and> consistent_keys S (di_public_key a) (di_private_key a)"

definition flushed :: "string \<Rightarrow> disk \<Rightarrow> bool" where
  "flushed name d \<longleftrightarrow> (\<forall>n. n \<noteq> name @ ''.lock'' \<longrightarrow> dk_pending d n = [])"

definition established :: "sodium \<Rightarrow> int \<Rightarrow> string \<Rightarrow> DeviceIdentity \<Rightarrow> disk \<Rightarrow> bool" where
  "established S euid name a d \<longleftrightarrow>
     proper_identity S a \<and> holds_file euid name (manifest_of a) d \<and>
     holds_file euid (name @ ''.keys'') (key_record a) d \<and>
     dk_files d (name @ ''.tmp'') = None \<and> dk_files d (name @ ''.keys.tmp'') = None \<and> flushed name d"

lemma valid_uuid_length: "is_valid_uuid u \<Longrightarrow> length u = UUID_SIZE"
  by (simp add: is_valid_uuid_def split: if_splits)

lemma established_unique:
  assumes "established S euid name a d" and "established S euid name b d"
  shows "a = b"
proof -
  have "length (di_device_id a) = length (di_device_id b)" "length (di_public_key a) = length (di_public_key b)"
    using assms valid_uuid_length by (auto simp: established_def proper_identity_def)
  with assms show ?thesis
    by (auto simp: established_def holds_file_def key_record_def intro: DeviceIdentity.equality)
qed

lemma established_safe: "established S euid name a d \<Longrightarrow> safe_names name d"
  by (auto simp: established_def safe_names_def holds_file_def synced_entry_def flushed_def)

text \<open>Flushing the directory and creating the lock file do not matter.\<close>

lemma invariants_sync [simp]:
  "safe_names name d \<Longrightarrow> safe_names name (sync_directory d)"
  "established S euid name a d \<Longrightarrow> established S euid name a (sync_directory d)"
  "flushed name (sync_directory d)" "dk_files (sync_directory d) = dk_files d"
  by (auto simp: safe_names_def established_def holds_file_def flushed_def sync_directory_def)

lemma invariants_lock [simp]:
  "safe_names name d \<Longrightarrow> safe_names name (create_file (name @ ''.lock'') info d)"
  "established S euid name a d \<Longrightarrow> established S euid name a (create_file (name @ ''.lock'') info d)"
  "flushed name d \<Longrightarrow> flushed name (create_file (name @ ''.lock'') info d)"
  by (auto simp: safe_names_def established_def holds_file_def flushed_def create_file_def)

lemma triple_lock_wait:
  assumes "\<And>d. P d \<Longrightarrow> Q () d" and "\<And>d. P d \<Longrightarrow> E d"
  shows "triple P (lock_wait answers) Q E"
proof (rule tripleI)
  fix es d r es1 d1
  assume "P d" and "lock_wait answers (es, d) = (r, es1, d1)"
  then show "case r of Value x \<Rightarrow> Q x d1 | _ \<Rightarrow> E d1"
    using assms
    by (induction answers "(es, d)" rule: lock_wait.induct)
      (auto simp: raisep_def returnp_def split: option.splits errno.splits if_splits)
qed

lemma triple_acquire_lock:
  assumes "\<And>d. P d \<Longrightarrow> P (create_file n (created_info env) d)" and "\<And>d. P d \<Longrightarrow> E d"
  shows "triple P (acquire_lock env n) (\<lambda>_. P) E"
  unfolding acquire_lock_def
  using assms by (intro triple_bind [where R = "\<lambda>_. P"] triple_open [where R = P] triple_lock_wait) auto

lemma power_loss_safe: "power_loss d d1 \<Longrightarrow> safe_names name d1"
proof -
  assume loss: "power_loss d d1"
  have "synced_entry (dk_files d1 n)" for n
  proof -
    from loss obtain e where "survives e (dk_files d1 n)" by (auto simp: power_loss_def)
    then show ?thesis by (auto simp: survives_def synced_entry_def split: option.splits if_splits)
  qed
  with loss show ?thesis by (simp add: safe_names_def power_loss_def)
qed

lemma power_loss_files:
  assumes "power_loss d d1" and "dk_pending d n = []" and "synced_entry (dk_files d n)"
  shows "dk_files d1 n = dk_files d n"
proof -
  from assms(1,2) have "survives (dk_files d n) (dk_files d1 n)"
    unfolding power_loss_def by (metis empty_set list.set(2) singletonD)
  with assms(3) show ?thesis by (auto simp: survives_def synced_entry_def split: option.splits)
qed

lemma power_loss_established:
  assumes "power_loss d d1" and "established S euid name a d"
  shows "established S euid name a d1"
proof -
  have "dk_files d1 n = dk_files d n" if "n \<in> {name, name @ ''.keys'', name @ ''.tmp'', name @ ''.keys.tmp''}" for n
    using that assms(2) by (intro power_loss_files [OF assms(1)])
      (auto simp: established_def flushed_def holds_file_def synced_entry_def)
  moreover have "flushed name d1" using assms(1) by (simp add: power_loss_def flushed_def)
  ultimately show ?thesis using assms(2) by (simp add: established_def holds_file_def)
qed

section \<open>UUIDs\<close>

lemma hex_ok: "is_ok (hex c) \<longleftrightarrow> id_hex_digit c"
  by (simp add: hex_def id_hex_digit_def)

lemma parse_step_ok:
  "is_ok (uuid_parse_loop val (i # is) input) \<longleftrightarrow>
     (let pos = (if separator_before i then input + 1 else input)
      in (separator_before i \<longrightarrow> val ! input = CHR ''-'') \<and> id_hex_digit (val ! pos) \<and>
         id_hex_digit (val ! (pos + 1)) \<and> is_ok (uuid_parse_loop val is (pos + 2)))"
  unfolding hex_ok [symmetric] by (auto simp: is_ok_iff Let_def split: if_splits)

lemma chars_ok_nth:
  "uuid_chars_ok cs i \<longleftrightarrow>
     (\<forall>k < length cs. if i + k = 8 \<or> i + k = 13 \<or> i + k = 18 \<or> i + k = 23 then cs ! k = CHR ''-''
                       else id_hex_digit (cs ! k))"
  by (induction cs arbitrary: i) (auto simp: All_less_Suc2)

lemma valid_uuid_parses: "is_valid_uuid val \<longleftrightarrow> is_ok (trust_uuid_from_string val)"
proof (cases "length val = 36")
  case True
  have all: "(\<forall>k < 36. P k) \<longleftrightarrow> list_all P [0..<36]" for P :: "nat \<Rightarrow> bool"
    by (auto simp: list_all_iff)
  have "is_ok (uuid_parse_loop val [0..<16] 0) \<longleftrightarrow> uuid_chars_ok val 0"
    unfolding chars_ok_nth True all
    by (simp add: upt_conv_Cons parse_step_ok separator_before_def Let_def del: uuid_parse_loop.simps(2))
  with True show ?thesis
    by (simp add: is_valid_uuid_def UUID_SIZE_def trust_uuid_from_string_def del: upt_rec_numeral)
qed (simp add: is_valid_uuid_def UUID_SIZE_def trust_uuid_from_string_def)

lemma print_uuid_bytes_pieces:
  "print_uuid_bytes bs i r = r @ concat (map (\<lambda>k. (if separator_before (i + k) then ''-'' else []) @
     [hex_digits ! unat (drop_bit 4 (bs ! k)), hex_digits ! unat (bs ! k AND 15)]) [0..<length bs])"
proof (induction bs arbitrary: i r)
  case (Cons b bs)
  show ?case
    by (simp add: Cons.IH hex_digits_def separator_before_def upt_conv_Cons map_Suc_upt [symmetric]
        comp_def del: upt_Suc)
qed simp

lemma generate_uuid_to_string: "length random = 16 \<Longrightarrow> generate_uuid random = trust_uuid_to_string (version_4 random)"
  by (simp add: generate_uuid_def print_uuid_bytes_pieces trust_uuid_to_string_def uuid_print_loop_concat
      uuid_piece_def [abs_def])

lemma generate_uuid_valid: "length random = 16 \<Longrightarrow> is_valid_uuid (generate_uuid random)"
  by (simp add: valid_uuid_parses generate_uuid_to_string trust_uuid_from_to_string version_4_def)

section \<open>Loading and creating in the crash logic\<close>

lemma suffixes [simp]: "(n @ ''.keys'') @ ''.tmp'' = n @ ''.keys.tmp''"
  by simp

lemma manifest_parts [simp]:
  "length (u @ IDENTITY_MARKER) = length u + 12" "length KEY_MAGIC = 20" "length IDENTITY_MARKER = 12"
  by (simp_all add: IDENTITY_MARKER_def KEY_MAGIC_def)

lemma triple_parse:
  assumes "\<And>d. P d \<Longrightarrow> E d"
    and "\<And>u v d. P d \<Longrightarrow> is_valid_uuid u \<Longrightarrow>
           v = (length contents = 48 \<and> drop 36 contents = IDENTITY_MARKER) \<Longrightarrow>
           (v \<Longrightarrow> contents = u @ IDENTITY_MARKER) \<Longrightarrow> Q (u, v) d"
  shows "triple P (parse_manifest contents) Q E"
proof -
  have "contents = take 36 contents @ IDENTITY_MARKER" if "drop 36 contents = IDENTITY_MARKER"
    using that append_take_drop_id [of 36 contents] by simp
  with assms show ?thesis
    unfolding parse_manifest_def Let_def
    by (intro triple_if triple_raise triple_return) (auto simp: UUID_SIZE_def)
qed

text \<open>What reading the manifest tells: without one there is no UUID, and a key file is demanded
  exactly if the manifest carries the marker.\<close>

definition manifest_read :: "int \<Rightarrow> string \<Rightarrow> string \<times> bool \<Rightarrow> disk \<Rightarrow> bool" where
  "manifest_read euid name r d \<longleftrightarrow>
     (case dk_files d name of
        None \<Rightarrow> r = ([], False)
      | Some f \<Rightarrow> is_valid_uuid (fst r) \<and> \<not> fl_link f \<and> private_info euid (fl_info f) \<and>
          (snd r \<longleftrightarrow> length (fl_data f) = 48 \<and> drop 36 (fl_data f) = IDENTITY_MARKER) \<and>
          (snd r \<longrightarrow> fl_data f = fst r @ IDENTITY_MARKER))"

lemma triple_read_manifest:
  assumes "\<And>d. P d \<Longrightarrow> E d" and "\<And>r d. P d \<Longrightarrow> manifest_read (ie_euid env) name r d \<Longrightarrow> Q r d"
  shows "triple P (read_manifest env name) Q E"
  unfolding read_manifest_def
proof (rule triple_bind [where R = "\<lambda>b d. P d \<and> b = (dk_files d name \<noteq> None)"])
  show "triple P (entry_exists name) (\<lambda>b d. P d \<and> b = (dk_files d name \<noteq> None)) E"
    using assms(1) by (intro triple_exists) auto
  let ?R = "\<lambda>contents d. P d \<and> (\<exists>f. dk_files d name = Some f \<and> \<not> fl_link f \<and>
      private_info (ie_euid env) (fl_info f) \<and> fl_data f = contents)"
  have "triple P (bindp (read_file env name 64) parse_manifest) Q E"
  proof (rule triple_bind [where R = ?R])
    show "triple P (read_file env name 64) ?R E" using assms(1) by (intro triple_read) auto
    have got: "manifest_read (ie_euid env) name (u, v) d" if "?R contents d" "is_valid_uuid u"
      "v = (length contents = 48 \<and> drop 36 contents = IDENTITY_MARKER)" "v \<Longrightarrow> contents = u @ IDENTITY_MARKER"
      for contents u v d
    proof -
      from that(1) obtain f where f: "dk_files d name = Some f" "\<not> fl_link f"
        "private_info (ie_euid env) (fl_info f)" "fl_data f = contents" by blast
      show ?thesis unfolding manifest_read_def f(1) option.case f(4) fst_conv snd_conv
        using f(2,3) that(2-4) by blast
    qed
    show "triple (?R contents) (parse_manifest contents) Q E" for contents
    proof (rule triple_parse)
      show "Q (u, v) d" if "?R contents d" "is_valid_uuid u"
        "v = (length contents = 48 \<and> drop 36 contents = IDENTITY_MARKER)" "v \<Longrightarrow> contents = u @ IDENTITY_MARKER"
        for u v d using assms(2) [OF _ got [OF that]] that(1) by simp
    qed (use assms(1) in blast)
  qed
  note present = this
  show "triple (\<lambda>d. P d \<and> b = (dk_files d name \<noteq> None))
      (if b then bindp (read_file env name 64) parse_manifest else returnp ([], False)) Q E" for b
  proof (rule triple_if)
    show "triple (\<lambda>d. P d \<and> b = (dk_files d name \<noteq> None)) (bindp (read_file env name 64) parse_manifest) Q E"
      by (rule triple_conseq [OF present]) simp_all
    show "triple (\<lambda>d. P d \<and> b = (dk_files d name \<noteq> None)) (returnp ([], False)) Q E" if "\<not> b"
      using that assms(2) by (intro triple_return) (simp add: manifest_read_def)
  qed
qed

text \<open>A successful load of the keys returns what the two files hold.\<close>

lemma split_record:
  assumes "length bytes = 152" and "take 20 bytes = KEY_MAGIC" and "take 36 (drop 20 bytes) = u"
  shows "bytes = KEY_MAGIC @ u @ take 32 (drop 56 bytes) @ take 64 (drop 88 bytes)"
    "length (take 32 (drop 56 bytes)) = 32" "length (take 64 (drop 88 bytes)) = 64"
proof -
  have "drop 20 bytes = take 36 (drop 20 bytes) @ drop 56 bytes"
    "drop 56 bytes = take 32 (drop 56 bytes) @ drop 88 bytes"
    using append_take_drop_id [of 36 "drop 20 bytes"] append_take_drop_id [of 32 "drop 56 bytes"] by simp_all
  moreover have "take 64 (drop 88 bytes) = drop 88 bytes" using assms(1) by simp
  moreover have "bytes = take 20 bytes @ drop 20 bytes" by simp
  ultimately show "bytes = KEY_MAGIC @ u @ take 32 (drop 56 bytes) @ take 64 (drop 88 bytes)"
    using assms(2,3) by metis
qed (use assms(1) in simp_all)

lemma triple_load_keys:
  assumes E: "\<And>d. P d \<Longrightarrow> E d"
    and P: "\<And>d. P d \<Longrightarrow> is_valid_uuid u \<and> holds_file (ie_euid env) name (u @ IDENTITY_MARKER) d \<and>
      safe_names name d \<and> dk_files d (name @ ''.tmp'') = None \<and> dk_files d (name @ ''.keys.tmp'') = None \<and>
      flushed name d"
    and Q: "\<And>a d. P d \<Longrightarrow> established S (ie_euid env) name a d \<Longrightarrow> Q a d"
  shows "triple P (load_keys S env (name @ ''.keys'') u) Q E"
  unfolding load_keys_def
proof (rule triple_bind)
  let ?k = "name @ ''.keys''"
  let ?R = "\<lambda>bytes d. P d \<and> holds_file (ie_euid env) ?k bytes d"
  have "holds_file (ie_euid env) ?k (fl_data f) d"
    if "P d" "dk_files d ?k = Some f" "\<not> fl_link f" "private_info (ie_euid env) (fl_info f)" for d f
    using P [OF that(1)] that by (auto simp: holds_file_def safe_names_def synced_entry_def)
  with E show "triple P (read_file env ?k KEY_FILE_SIZE) ?R E" by (intro triple_read) auto
  fix bytes :: string
  let ?pk = "take PUBLICKEYBYTES (drop (length KEY_MAGIC + UUID_SIZE) bytes)"
  let ?sk = "take SECRETKEYBYTES (drop PUBLICKEYBYTES (drop (length KEY_MAGIC + UUID_SIZE) bytes))"
  let ?a = "\<lparr>di_device_id = u, di_public_key = ?pk, di_private_key = ?sk\<rparr>"
  have est: "established S (ie_euid env) name ?a d"
    if d: "?R bytes d" and len: "length bytes = KEY_FILE_SIZE" and m: "take (length KEY_MAGIC) bytes = KEY_MAGIC"
      and id: "take UUID_SIZE (drop (length KEY_MAGIC) bytes) = u" and c: "consistent_keys S ?pk ?sk" for d
  proof -
    have len: "length bytes = 152" using len
      by (simp add: KEY_FILE_SIZE_def UUID_SIZE_def PUBLICKEYBYTES_def SECRETKEYBYTES_def)
    note parts = split_record [OF len, of u] m id
    then have "bytes = key_record ?a" "length ?pk = PUBLICKEYBYTES" "length ?sk = SECRETKEYBYTES"
      by (simp_all add: key_record_def UUID_SIZE_def PUBLICKEYBYTES_def SECRETKEYBYTES_def)
    with d P [OF conjunct1 [OF d]] c show ?thesis
      by (simp add: established_def proper_identity_def manifest_of_def)
  qed
  show "triple (?R bytes)
     (if length bytes \<noteq> KEY_FILE_SIZE \<or> take (length KEY_MAGIC) bytes \<noteq> KEY_MAGIC \<or>
         take UUID_SIZE (drop (length KEY_MAGIC) bytes) \<noteq> u
      then raisep (make_error ''invalid key record format, length, or UUID binding'')
      else let keys = drop (length KEY_MAGIC + UUID_SIZE) bytes;
               public_key = take PUBLICKEYBYTES keys;
               private_key = take SECRETKEYBYTES (drop PUBLICKEYBYTES keys)
           in if \<not> consistent_keys S public_key private_key
              then raisep (make_error ''corrupt or inconsistent Ed25519 key material'')
              else returnp \<lparr>di_device_id = u, di_public_key = public_key, di_private_key = private_key\<rparr>) Q E"
    unfolding Let_def
    using E Q est by (intro triple_if triple_raise triple_return) blast+
qed

lemma triple_impossible: "(\<And>d. \<not> P d) \<Longrightarrow> triple P p Q E"
  by (simp add: triple_def)

text \<open>The directory between the locks and the first write, and after each of the two writes.\<close>

definition unkeyed :: "string \<Rightarrow> disk \<Rightarrow> bool" where
  "unkeyed name d \<longleftrightarrow> safe_names name d \<and> dk_files d (name @ ''.keys'') = None \<and>
     dk_files d (name @ ''.keys.tmp'') = None"

lemma triple_write_manifest:
  "triple (\<lambda>d. unkeyed name d \<and> flushed name d) (atomic_write env name m)
     (\<lambda>_ d. unkeyed name d \<and> flushed name d \<and> holds_file (ie_euid env) name m d \<and> dk_files d (name @ ''.tmp'') = None)
     (safe_names name)"
proof -
  let ?t = "name @ ''.tmp''"
  let ?P = "\<lambda>d. unkeyed name d \<and> (\<forall>n. n \<noteq> name @ ''.lock'' \<longrightarrow> n \<noteq> ?t \<longrightarrow> dk_pending d n = [])"
  let ?R = "\<lambda>d. unkeyed name d \<and> holds_file (ie_euid env) name m d \<and> dk_files d ?t = None"
  have "triple ?P (atomic_write env name m) (\<lambda>_ d. ?R d \<and> flushed name d) (safe_names name)"
  proof (rule triple_atomic_write [where R = ?R])
    show "?P d1" if "?P d" "same_but ?t d d1" for d d1
      using that by (auto simp: unkeyed_def safe_names_def same_but_def)
    show "?R (rename_file ?t name d)" if "?P d" "dk_files d ?t = Some f" "\<not> fl_link f" "fl_synced f"
      "private_info (ie_euid env) (fl_info f)" "fl_data f = m" for d f
      using that by (auto simp: unkeyed_def safe_names_def rename_file_def holds_file_def synced_entry_def)
    show "?R (sync_directory d) \<and> flushed name (sync_directory d)" if "?R d" for d
      using that by (auto simp: unkeyed_def holds_file_def)
  qed (auto simp: unkeyed_def)
  then show ?thesis by (rule triple_conseq) (auto simp: flushed_def)
qed

lemma triple_write_keys:
  assumes "proper_identity S a"
  shows "triple (\<lambda>d. unkeyed name d \<and> flushed name d \<and> holds_file (ie_euid env) name (manifest_of a) d \<and>
      dk_files d (name @ ''.tmp'') = None)
     (atomic_write env (name @ ''.keys'') (key_record a))
     (\<lambda>_. established S (ie_euid env) name a) (safe_names name)"
proof -
  let ?k = "name @ ''.keys''"
  let ?t = "?k @ ''.tmp''"
  let ?P = "\<lambda>d. safe_names name d \<and> holds_file (ie_euid env) name (manifest_of a) d \<and>
    dk_files d (name @ ''.tmp'') = None \<and> (\<forall>n. n \<noteq> name @ ''.lock'' \<longrightarrow> n \<noteq> ?t \<longrightarrow> dk_pending d n = [])"
  let ?R = "\<lambda>d. safe_names name d \<and> holds_file (ie_euid env) name (manifest_of a) d \<and>
    dk_files d (name @ ''.tmp'') = None \<and> dk_files d ?t = None \<and> holds_file (ie_euid env) ?k (key_record a) d"
  have "triple ?P (atomic_write env ?k (key_record a)) (\<lambda>_. established S (ie_euid env) name a) (safe_names name)"
  proof (rule triple_atomic_write [where R = ?R])
    show "?P d1" if "?P d" "same_but ?t d d1" for d d1
      using that by (auto simp: safe_names_def same_but_def holds_file_def)
    show "?R (rename_file ?t ?k d)" if "?P d" "dk_files d ?t = Some f" "\<not> fl_link f" "fl_synced f"
      "private_info (ie_euid env) (fl_info f)" "fl_data f = key_record a" for d f
      using that by (auto simp: safe_names_def rename_file_def holds_file_def synced_entry_def)
    show "established S (ie_euid env) name a (sync_directory d)" if "?R d" for d
      using that assms by (auto simp: established_def holds_file_def)
  qed auto
  then show ?thesis by (rule triple_conseq) (auto simp: flushed_def unkeyed_def)
qed

text \<open>What libsodium and the random generator give to a run.\<close>

definition sodium_behaves :: "sodium \<Rightarrow> identity_env \<Rightarrow> bool" where
  "sodium_behaves S env \<longleftrightarrow> length (ie_random env) = 16 \<and>
     (\<forall>pk sk. ie_keypair env = Some (pk, sk) \<longrightarrow>
        length pk = PUBLICKEYBYTES \<and> length sk = SECRETKEYBYTES \<and> consistent_keys S pk sk)"

lemma triple_create_keys:
  assumes "sodium_behaves S env" and "u = [] \<or> is_valid_uuid u"
  shows "triple (\<lambda>d. unkeyed name d \<and> flushed name d) (create_keys env name (name @ ''.keys'') u)
    (established S (ie_euid env) name) (safe_names name)"
proof -
  define uuid where "uuid = (if u = [] then generate_uuid (ie_random env) else u)"
  have valid: "is_valid_uuid uuid"
    using assms generate_uuid_valid by (auto simp: uuid_def sodium_behaves_def)
  have keys: "triple (\<lambda>d. unkeyed name d \<and> flushed name d \<and> holds_file (ie_euid env) name (uuid @ IDENTITY_MARKER) d \<and>
      dk_files d (name @ ''.tmp'') = None)
    (case ie_keypair env of
       None \<Rightarrow> raisep (make_error ''Ed25519 key generation failed'')
     | Some (public_key, private_key) \<Rightarrow>
         bindp (atomic_write env (name @ ''.keys'') (KEY_MAGIC @ uuid @ public_key @ private_key)) (\<lambda>_.
           returnp \<lparr>di_device_id = uuid, di_public_key = public_key, di_private_key = private_key\<rparr>))
    (established S (ie_euid env) name) (safe_names name)"
  proof (cases "ie_keypair env")
    case None
    then show ?thesis by (auto intro!: triple_raise simp: unkeyed_def)
  next
    case (Some ks)
    obtain pk sk where ks: "ks = (pk, sk)" by (cases ks)
    let ?a = "\<lparr>di_device_id = uuid, di_public_key = pk, di_private_key = sk\<rparr>"
    have a: "proper_identity S ?a" using assms(1) valid Some ks by (simp add: proper_identity_def sodium_behaves_def)
    have rec: "key_record ?a = KEY_MAGIC @ uuid @ pk @ sk" "manifest_of ?a = uuid @ IDENTITY_MARKER"
      by (simp_all add: key_record_def manifest_of_def)
    show ?thesis
      unfolding Some ks option.case prod.case rec [symmetric]
      by (rule triple_bind [OF triple_write_keys [OF a] triple_return]) simp
  qed
  show ?thesis
    unfolding create_keys_def Let_def uuid_def [symmetric]
    by (rule triple_bind [OF triple_write_manifest keys])
qed

text \<open>The frame of a run: \<open>P1\<close> holds once the directory is flushed and the lock is taken.\<close>

lemma triple_load_frame:
  assumes "ie_filename env = name" and E: "\<And>d. P d \<Longrightarrow> E d" "\<And>d. P1 d \<Longrightarrow> E d"
    and sync: "\<And>d. P d \<Longrightarrow> P1 (sync_directory d)"
    and lock: "\<And>d. P1 d \<Longrightarrow> P1 (create_file (name @ ''.lock'') (created_info env) d)"
    and rest: "\<And>u required. triple (\<lambda>d. P1 d \<and> dk_files d (name @ ''.tmp'') = None \<and>
        dk_files d (name @ ''.keys.tmp'') = None \<and> manifest_read (ie_euid env) name (u, required) d)
      (obtain_keys S env name (name @ ''.keys'') u required) Q E"
  shows "triple P (load_or_create S env) Q E"
proof -
  let ?C = "\<lambda>d. P1 d \<and> dk_files d (name @ ''.tmp'') = None \<and> dk_files d (name @ ''.keys.tmp'') = None"
  have start: "triple P (initialize_sodium S) (\<lambda>_. P) E"
    unfolding initialize_sodium_def by (intro triple_if triple_raise triple_return E(1))
  have dir: "triple P (open_identity_directory env) (\<lambda>_. P1) E"
    using sync E by (intro triple_open_directory) auto
  have lock: "triple P1 (acquire_lock env (name @ ''.lock'')) (\<lambda>_. P1) E"
    using lock E(2) by (intro triple_acquire_lock) auto
  have tmp: "triple P1 (entry_exists (name @ ''.tmp'')) (\<lambda>b d. P1 d \<and> b = (dk_files d (name @ ''.tmp'') \<noteq> None)) E"
    using E(2) by (intro triple_exists) auto
  have tmp2: "triple (\<lambda>d. P1 d \<and> b = (dk_files d (name @ ''.tmp'') \<noteq> None))
      (if b then returnp True else entry_exists ((name @ ''.keys'') @ ''.tmp'')) (\<lambda>b d. P1 d \<and> (\<not> b \<longrightarrow> ?C d)) E" for b
    using E(2) by (intro triple_if triple_return triple_exists) auto
  have manifest: "triple (\<lambda>d. P1 d \<and> (\<not> b \<longrightarrow> ?C d)) (read_manifest env name)
      (\<lambda>r d. ?C d \<and> manifest_read (ie_euid env) name r d) E" if "\<not> b" for b
    using that E(2) by (intro triple_read_manifest) auto
  have "triple (\<lambda>d. ?C d \<and> manifest_read (ie_euid env) name r d)
      (case r of (u, required) \<Rightarrow> obtain_keys S env name (name @ ''.keys'') u required) Q E" for r
    using rest by (cases r) (simp add: conj_assoc)
  with E show ?thesis
    unfolding load_or_create_def Let_def assms(1)
    by (intro triple_bind [OF start] triple_if triple_raise triple_bind [OF dir] triple_bind [OF lock]
        triple_bind [OF tmp] triple_bind [OF tmp2] triple_bind [OF manifest]) auto
qed

text \<open>A run that returns has established the identity; a run that does not has left the files safe.\<close>

lemma triple_load_or_create:
  assumes "sodium_behaves S env" and "ie_filename env = name"
  shows "triple (safe_names name) (load_or_create S env) (established S (ie_euid env) name) (safe_names name)"
proof (rule triple_load_frame [OF assms(2), where ?P1.0 = "\<lambda>d. safe_names name d \<and> flushed name d"])
  fix u required
  let ?k = "name @ ''.keys''"
  let ?M = "\<lambda>d. (safe_names name d \<and> flushed name d) \<and> dk_files d (name @ ''.tmp'') = None \<and>
    dk_files d (name @ ''.keys.tmp'') = None \<and> manifest_read (ie_euid env) name (u, required) d"
  have load: "triple (\<lambda>d. ?M d \<and> keys = (dk_files d ?k \<noteq> None)) (load_keys S env ?k u)
      (established S (ie_euid env) name) (safe_names name)" if required for keys
    using that by (intro triple_load_keys)
      (auto simp: manifest_read_def holds_file_def safe_names_def synced_entry_def split: option.splits)
  have create: "triple (\<lambda>d. ?M d \<and> keys = (dk_files d ?k \<noteq> None)) (create_keys env name ?k u)
      (established S (ie_euid env) name) (safe_names name)" if "keys = required" "\<not> required" for keys
  proof (cases "u = [] \<or> is_valid_uuid u")
    case True
    with that show ?thesis
      by (intro triple_conseq [OF triple_create_keys [OF assms(1) True]]) (auto simp: unkeyed_def)
  next
    case False
    then show ?thesis by (intro triple_impossible) (auto simp: manifest_read_def split: option.splits)
  qed
  show "triple ?M (obtain_keys S env name ?k u required) (established S (ie_euid env) name) (safe_names name)"
    unfolding obtain_keys_def
    by (intro triple_bind [where R = "\<lambda>keys d. ?M d \<and> keys = (dk_files d ?k \<noteq> None)"] triple_exists triple_if triple_raise
        load create) auto
qed auto

text \<open>Once established, an identity is never touched again.\<close>

lemma established_manifest:
  assumes "established S euid name a d" and "manifest_read euid name (u, required) d"
  shows "required \<and> u = di_device_id a \<and> dk_files d (name @ ''.keys'') \<noteq> None"
proof -
  from assms(1) have len: "length (di_device_id a) = 36"
    using valid_uuid_length by (auto simp: established_def proper_identity_def UUID_SIZE_def)
  with assms show ?thesis
    by (auto simp: established_def holds_file_def manifest_read_def manifest_of_def split: option.splits)
qed

lemma triple_established:
  assumes "ie_filename env = name" and "ie_euid env = euid"
  shows "triple (established S euid name a) (load_or_create S env) (\<lambda>_. established S euid name a) (established S euid name a)"
proof (rule triple_load_frame [OF assms(1), where ?P1.0 = "established S euid name a"])
  fix u required
  let ?k = "name @ ''.keys''"
  let ?P = "established S euid name a"
  let ?M = "\<lambda>d. ?P d \<and> required \<and> u = di_device_id a \<and> dk_files d ?k \<noteq> None"
  have load: "triple (\<lambda>d. ?M d \<and> keys = (dk_files d ?k \<noteq> None)) (load_keys S env ?k u) (\<lambda>_. ?P) ?P" for keys
    using assms(2) established_safe
    by (intro triple_load_keys) (auto simp: established_def manifest_of_def proper_identity_def)
  have "triple ?M (obtain_keys S env name ?k u required) (\<lambda>_. ?P) ?P"
    unfolding obtain_keys_def
    by (intro triple_bind [where R = "\<lambda>keys d. ?M d \<and> keys = (dk_files d ?k \<noteq> None)"] triple_exists triple_if
        triple_raise load triple_impossible) auto
  note M = this
  show "triple (\<lambda>d. ?P d \<and> dk_files d (name @ ''.tmp'') = None \<and> dk_files d (name @ ''.keys.tmp'') = None \<and>
      manifest_read (ie_euid env) name (u, required) d) (obtain_keys S env name ?k u required) (\<lambda>_. ?P) ?P"
    using established_manifest [of S euid name a _ u required] assms(2) by (intro triple_conseq [OF M]) auto
qed auto

section \<open>Histories\<close>

text \<open>
  What can happen to the identity directory of a user: runs of the program, each with its own
  faults, its own randomness and possibly killed anywhere, and losses of power.  The list holds
  the identities returned so far.  The lock serializes runs.
\<close>

inductive identity_history :: "sodium \<Rightarrow> int \<Rightarrow> string \<Rightarrow> disk \<Rightarrow> DeviceIdentity list \<Rightarrow> bool"
  for S euid name where
  history_start: "safe_names name d \<Longrightarrow> identity_history S euid name d []"
| history_run:
  "\<lbrakk>identity_history S euid name d ids; sodium_behaves S env; ie_filename env = name; ie_euid env = euid;
    load_or_create S env (es, d) = (r, es1, d1)\<rbrakk> \<Longrightarrow>
   identity_history S euid name d1 (case r of Value a \<Rightarrow> a # ids | _ \<Rightarrow> ids)"
| history_power: "\<lbrakk>identity_history S euid name d ids; power_loss d d1\<rbrakk> \<Longrightarrow> identity_history S euid name d1 ids"

lemma history_established:
  "identity_history S euid name d ids \<Longrightarrow> safe_names name d \<and> (\<forall>a \<in> set ids. established S euid name a d)"
proof (induction rule: identity_history.induct)
  case (history_run d ids env es r es1 d1)
  then have old: "established S euid name a d1" if "a \<in> set ids" for a
    using tripleD [OF triple_established [of env name euid S a]] that by (fastforce split: outcome.splits)
  from tripleD [OF triple_load_or_create [OF history_run.hyps(2,3), unfolded history_run.hyps(4)] _
      history_run.hyps(5)] history_run.IH
  have "case r of Value a \<Rightarrow> established S euid name a d1 | _ \<Rightarrow> safe_names name d1" by simp
  with old show ?case by (auto split: outcome.splits dest: established_safe)
qed (auto intro: power_loss_safe power_loss_established)

section \<open>Properties\<close>

text \<open>C10. The identity of a device never changes: over any sequence of runs with arbitrary faults, short
  reads and writes, kills at any system call, and losses of power in between, all identities that
  load_or_create ever returns (UUID, public and private key) are the same.  This holds from any
  directory whose manifest and key file are flushed, and under a worst-case file system that may
  keep or lose each directory change since the last flush.\<close>

theorem identity_never_changes:
  assumes "identity_history S euid name d ids" and "a \<in> set ids" and "b \<in> set ids"
  shows "a = b"
  using history_established [OF assms(1)] assms(2,3) established_unique by blast

section \<open>Loading without faults\<close>

lemma smooth_Cons [simp]: "smooth (e # es) \<longleftrightarrow> (\<exists>n \<ge> 152. e = Proceed n) \<and> smooth es"
  by (auto simp: smooth_def)

lemma returns_sync: "returns 1 (sync_file f) d () (f d)"
  unfolding returns_def by (auto simp: Suc_le_length_iff intro!: exI [of _ 1])

lemma returns_inspect: "returns 3 inspect_ancestor d () d"
  using returns_bind [OF returns_call returns_bind [OF returns_call returns_call]]
  by (simp add: inspect_ancestor_def numeral_eq_Suc)

lemma returns_ancestors: "returns (4 * Suc n) (sync_ancestors n f) d () (f d)"
proof (induction n arbitrary: f d)
  case 0
  show ?case using returns_bind [OF returns_sync returns_inspect, of f d] by simp
next
  case (Suc n)
  have "returns (1 + (3 + 4 * Suc n)) (sync_ancestors (Suc n) f) d () (id (f d))"
    unfolding sync_ancestors.simps
    by (rule returns_bind [OF returns_sync returns_bind [OF returns_inspect Suc.IH]])
  then show ?case by (simp del: sync_ancestors.simps)
qed

lemma returns_open_directory:
  assumes "ie_owned env"
  shows "returns (9 + 4 * ie_depth env) (open_identity_directory env) d () (sync_directory d)"
  unfolding open_identity_directory_def sync_directory_tree_def
  using assms returns_bind [OF returns_call returns_bind [OF returns_call returns_bind [OF returns_call
    returns_bind [OF returns_call returns_bind [OF returns_call returns_ancestors]]]]]
  by (simp add: numeral_eq_Suc)

lemma returns_exists: "returns 1 (entry_exists n) d (dk_files d n \<noteq> None) d"
  unfolding entry_exists_def
  using returns_syscall [of 0, OF returns_bind [OF returns_get returns_return, simplified]] by simp

lemma returns_check_private: "private_info (ie_euid env) (fl_info f) \<Longrightarrow> returns 1 (check_private env n f) d f d"
  unfolding check_private_def using returns_syscall [of 0, OF returns_return] by simp

lemma returns_open:
  assumes "dk_files d n = Some f" and "\<not> fl_link f" and "private_info (ie_euid env) (fl_info f)"
    and "flags \<noteq> O_WRONLY_CREAT_EXCL"
  shows "returns 2 (open_private_file env n flags) d f d"
proof -
  have "returns (Suc (0 + 1)) (open_private_file env n flags) d f d"
    unfolding open_private_file_def
    by (rule returns_syscall, rule returns_bind [OF returns_get])
      (use assms returns_check_private in simp)
  then show ?thesis by (simp add: numeral_eq_Suc)
qed

lemma returns_open_new:
  assumes "dk_files d n = None" and "private_info (ie_euid env) (created_info env)" and "flags \<noteq> O_RDONLY"
  shows "\<exists>f. returns 2 (open_private_file env n flags) d f (create_file n (created_info env) d)"
proof -
  let ?f = "\<lparr>fl_info = created_info env, fl_link = False, fl_data = [], fl_synced = False\<rparr>"
  have chk: "returns (0 + 1) (bindp (modifyp (create_file n (created_info env))) (\<lambda>_. check_private env n ?f)) d ?f
      (create_file n (created_info env) d)"
    by (rule returns_bind [OF returns_modify returns_check_private]) (use assms(2) in simp)
  have "returns (Suc (0 + (0 + 1))) (open_private_file env n flags) d ?f (create_file n (created_info env) d)"
    unfolding open_private_file_def
    by (rule returns_syscall, rule returns_bind [OF returns_get]) (use assms(1,3) chk in simp)
  then show ?thesis by (auto simp: numeral_eq_Suc)
qed

lemma returns_read_loop:
  assumes "data \<noteq> []" and "length data \<le> capacity" and "capacity \<le> 152"
  shows "returns 2 (read_loop n data capacity 0) d data d"
  unfolding returns_def
proof (intro allI impI)
  fix es
  assume es: "smooth es \<and> 2 \<le> length es"
  then obtain e1 e2 es1 where c: "es = e1 # e2 # es1"
    by (auto simp: numeral_eq_Suc Suc_le_length_iff)
  with es obtain n1 n2 where p: "e1 = Proceed n1" "152 \<le> n1" "e2 = Proceed n2" "152 \<le> n2" by auto
  have first: "min (max (Suc 0) n1) (min capacity (length data)) = length data" "0 < capacity"
    using assms p by (cases data; simp)+
  have "read_loop n data capacity 0 (Proceed n1 # xs, d) = read_loop n data capacity (length data) (xs, d)" for xs
    using assms(1) first by (simp add: Let_def)
  then have "read_loop n data capacity 0 (es, d) = read_loop n data capacity (length data) (e2 # es1, d)"
    by (simp only: c p(1))
  also have "\<dots> = (Value data, es1, d)" using assms(2) p by auto
  finally show "\<exists>j \<le> 2. read_loop n data capacity 0 (es, d) = (Value data, drop j es, d)"
    using c by (intro exI [of _ 2]) simp
qed

lemma returns_read:
  assumes "holds_file (ie_euid env) n bytes d" and "bytes \<noteq> []" and "length bytes \<le> capacity" and "capacity \<le> 152"
  shows "returns 4 (read_file env n capacity) d bytes d"
proof -
  from assms(1) obtain f where f: "dk_files d n = Some f" "\<not> fl_link f" "private_info (ie_euid env) (fl_info f)"
    "fl_data f = bytes" by (auto simp: holds_file_def)
  have "returns 2 (open_private_file env n O_RDONLY) d f d" by (rule returns_open [OF f(1-3)]) simp
  from returns_bind [OF this, of 2 "\<lambda>f. read_loop n (fl_data f) capacity 0" bytes d]
    returns_read_loop [OF assms(2-4), of n d] f(4)
  show ?thesis by (simp add: read_file_def)
qed

lemma returns_load_keys:
  assumes "established S (ie_euid env) name a d"
  shows "returns 4 (load_keys S env (name @ ''.keys'') (di_device_id a)) d a d"
proof -
  note est = assms [unfolded established_def proper_identity_def]
  have len: "length (di_device_id a) = 36" "length (di_public_key a) = 32" "length (di_private_key a) = 64"
    using est valid_uuid_length by (auto simp: UUID_SIZE_def PUBLICKEYBYTES_def SECRETKEYBYTES_def)
  have size: "KEY_FILE_SIZE = 152" "length (key_record a) = 152"
    using len by (simp_all add: KEY_FILE_SIZE_def UUID_SIZE_def PUBLICKEYBYTES_def SECRETKEYBYTES_def key_record_def)
  then have "key_record a \<noteq> []" by auto
  then have "returns 4 (read_file env (name @ ''.keys'') KEY_FILE_SIZE) d (key_record a) d"
    using est size by (intro returns_read) auto
  moreover have "take 20 (key_record a) = KEY_MAGIC" "take 36 (drop 20 (key_record a)) = di_device_id a"
    "take 32 (drop 56 (key_record a)) = di_public_key a" "take 64 (drop 88 (key_record a)) = di_private_key a"
    using len by (simp_all add: key_record_def)
  moreover have "\<lparr>di_device_id = di_device_id a, di_public_key = di_public_key a,
      di_private_key = di_private_key a\<rparr> = a" by simp
  then have "returns 0 (returnp \<lparr>di_device_id = di_device_id a, di_public_key = di_public_key a,
      di_private_key = di_private_key a\<rparr>) d a d" using returns_return [of a d] by (simp only:)
  ultimately have "returns (4 + 0) (load_keys S env (name @ ''.keys'') (di_device_id a)) d a d"
    unfolding load_keys_def using est size
    by (intro returns_bind [where x = "key_record a"])
      (simp_all add: UUID_SIZE_def PUBLICKEYBYTES_def SECRETKEYBYTES_def)
  then show ?thesis by simp
qed

lemma returns_obtain_keys:
  assumes "established S (ie_euid env) name a d"
  shows "returns 5 (obtain_keys S env name (name @ ''.keys'') (di_device_id a) True) d a d"
proof -
  have k: "(dk_files d (name @ ''.keys'') \<noteq> None) = True"
    using assms by (auto simp: established_def holds_file_def)
  have "returns (1 + 4) (obtain_keys S env name (name @ ''.keys'') (di_device_id a) True) d a d"
    unfolding obtain_keys_def
    by (rule returns_bind [OF returns_exists]) (unfold k, simp add: returns_load_keys [OF assms])
  then show ?thesis by simp
qed

lemma returns_read_manifest:
  assumes "established S (ie_euid env) name a d"
  shows "returns 5 (read_manifest env name) d (di_device_id a, True) d"
proof -
  note est = assms [unfolded established_def proper_identity_def]
  have len: "length (di_device_id a) = 36" using est valid_uuid_length by (auto simp: UUID_SIZE_def)
  have k: "(dk_files d name \<noteq> None) = True" using est by (auto simp: holds_file_def)
  have "returns 4 (read_file env name 64) d (manifest_of a) d"
    using est len by (intro returns_read) (auto simp: manifest_of_def IDENTITY_MARKER_def)
  moreover have "parse_manifest (manifest_of a) = returnp (di_device_id a, True)"
    using est len by (simp add: parse_manifest_def manifest_of_def UUID_SIZE_def)
  ultimately have "returns (1 + (4 + 0)) (read_manifest env name) d (di_device_id a, True) d"
    unfolding read_manifest_def
    by (intro returns_bind [OF returns_exists], unfold k, simp)
      (metis add.right_neutral returns_bind returns_return)
  then show ?thesis by simp
qed

text \<open>The lock can be taken: nobody holds it, and its file is private or can be created so.\<close>

definition lock_available :: "identity_env \<Rightarrow> disk \<Rightarrow> bool" where
  "lock_available env d \<longleftrightarrow> (\<exists>t rest. ie_lock env = (None, t) # rest) \<and>
     (case dk_files d (ie_filename env @ ''.lock'') of
        None \<Rightarrow> private_info (ie_euid env) (created_info env)
      | Some f \<Rightarrow> \<not> fl_link f \<and> private_info (ie_euid env) (fl_info f))"

lemma returns_lock:
  assumes "lock_available env d"
  shows "\<exists>d1 \<in> {d, create_file (ie_filename env @ ''.lock'') (created_info env) d}.
    returns 2 (acquire_lock env (ie_filename env @ ''.lock'')) d () d1"
proof -
  let ?l = "ie_filename env @ ''.lock''"
  have wait: "lock_wait (ie_lock env) = returnp ()"
    using assms by (auto simp: lock_available_def)
  have "\<exists>f. \<exists>d1 \<in> {d, create_file ?l (created_info env) d}. returns 2 (open_private_file env ?l O_RDWR_CREAT) d f d1"
  proof (cases "dk_files d ?l")
    case None
    with assms returns_open_new [OF None, of env O_RDWR_CREAT] show ?thesis by (auto simp: lock_available_def)
  next
    case (Some f)
    with assms returns_open [OF Some, of env O_RDWR_CREAT] show ?thesis by (auto simp: lock_available_def)
  qed
  then show ?thesis
    unfolding acquire_lock_def wait
    by (metis add.right_neutral returns_bind returns_return)
qed

lemma returns_load:
  assumes est: "established S (ie_euid env) (ie_filename env) a d" and lock: "lock_available env d"
    and "ie_owned env" and "0 \<le> sod_init S" and "ie_filename env \<notin> {[], ''.'', ''..''}"
  shows "\<exists>d1. returns (23 + 4 * ie_depth env) (load_or_create S env) d a d1"
proof -
  let ?n = "ie_filename env"
  have "lock_available env (sync_directory d)" using lock by (simp add: lock_available_def)
  from returns_lock [OF this] obtain d1 where d1: "returns 2 (acquire_lock env (?n @ ''.lock'')) (sync_directory d) () d1"
    "d1 \<in> {sync_directory d, create_file (?n @ ''.lock'') (created_info env) (sync_directory d)}" by blast
  then have est1: "established S (ie_euid env) ?n a d1" using est by auto
  then have tmp: "(dk_files d1 (?n @ ''.tmp'') \<noteq> None) = False"
    "(dk_files d1 ((?n @ ''.keys'') @ ''.tmp'') \<noteq> None) = False" by (auto simp: established_def)
  have rest: "returns (5 + 5) (bindp (read_manifest env ?n)
      (\<lambda>(u, required). obtain_keys S env ?n (?n @ ''.keys'') u required)) d1 a d1"
    by (rule returns_bind [OF returns_read_manifest [OF est1]]) (simp add: returns_obtain_keys [OF est1])
  have skip: "(sod_init S < 0) = False" "(?n = [] \<or> ?n = ''.'' \<or> ?n = ''..'') = False"
    using assms(4,5) by auto
  have "returns (0 + ((9 + 4 * ie_depth env) + (2 + (1 + (1 + (5 + 5)))))) (load_or_create S env) d a d1"
    unfolding load_or_create_def initialize_sodium_def Let_def skip if_False
    by (rule returns_bind [OF returns_return], rule returns_bind [OF returns_open_directory [OF assms(3)]],
        rule returns_bind [OF d1(1)], rule returns_bind [OF returns_exists], unfold tmp if_False,
        rule returns_bind [OF returns_exists], unfold tmp if_False, rule rest)
  then show ?thesis by (auto simp: algebra_simps)
qed

text \<open>C31. An identity that was returned once can always be loaded again: after any history of runs,
  crashes and losses of power, a run that meets no fault, finds the lock free and has at least
  23 + 4 * depth system calls to spend returns exactly that identity.\<close>

theorem identity_reloads:
  assumes "identity_history S (ie_euid env) (ie_filename env) d ids" and "a \<in> set ids"
    and "lock_available env d" and "ie_owned env" and "0 \<le> sod_init S"
    and "ie_filename env \<notin> {[], ''.'', ''..''}"
    and "smooth es" and "23 + 4 * ie_depth env \<le> length es"
  shows "fst (load_or_create S env (es, d)) = Value a"
proof -
  have "established S (ie_euid env) (ie_filename env) a d"
    using history_established [OF assms(1)] assms(2) by blast
  from returns_load [OF this assms(3-6)] assms(7,8) show ?thesis by (fastforce simp: returns_def)
qed

text \<open>The two ways the program reads a UUID agree: the syntactic test of the identity (and of
  discovery) accepts exactly the strings that the trust store can parse, mixed case included.\<close>

theorem valid_uuid_iff_parses: "is_valid_uuid val \<longleftrightarrow> (\<exists>u. trust_uuid_from_string val = Inr u)"
  using valid_uuid_parses is_ok_iff by blast

text \<open>C32. A generated UUID is a version 4 UUID in canonical form: for any random bytes it is the lower-case
  text of those bytes with the version nibble 4 and the variant bits 10, and it parses back to
  exactly them.\<close>

theorem generate_uuid_v4:
  assumes "length random = 16"
  shows "\<exists>u. generate_uuid random = trust_uuid_to_string u \<and> trust_uuid_from_string (generate_uuid random) = Inr u \<and>
    length u = 16 \<and> drop_bit 4 (u ! 6) = 4 \<and> drop_bit 6 (u ! 8) = 2 \<and>
    (\<forall>i < 16. i \<noteq> 6 \<longrightarrow> i \<noteq> 8 \<longrightarrow> u ! i = random ! i)"
proof -
  have "drop_bit 4 (0x0F :: byte) = 0" "drop_bit 4 (0x40 :: byte) = 4"
    "drop_bit 6 (0x3F :: byte) = 0" "drop_bit 6 (0x80 :: byte) = 2" by code_simp+
  then have "drop_bit 4 ((b AND 0x0F) OR 0x40 :: byte) = 4" "drop_bit 6 ((b AND 0x3F) OR 0x80 :: byte) = 2" for b
    by (simp_all only: drop_bit_or drop_bit_and and_zero_eq or.left_neutral)
  then show ?thesis
    using assms generate_uuid_to_string [OF assms]
    by (intro exI [of _ "version_4 random"]) (simp add: version_4_def trust_uuid_from_to_string)
qed

section \<open>Witnesses\<close>

definition sample_sodium :: sodium where
  "sample_sodium = \<lparr>sod_init = 0, sod_sk_to_seed = (\<lambda>sk. Some (take 32 sk)),
     sod_seed_keypair = (\<lambda>seed. Some (replicate 32 (CHR ''p''), seed @ replicate 32 (CHR ''p'')))\<rparr>"

definition sample_identity_env :: "byte list \<Rightarrow> identity_env" where
  "sample_identity_env random =
     \<lparr>ie_euid = 1000, ie_umask = 63, ie_filename = ''device_id'', ie_depth = 0, ie_owned = True, ie_lock = [(None, 0)],
      ie_random = random,
      ie_keypair = Some (replicate 32 (CHR ''p''), replicate 32 (CHR ''s'') @ replicate 32 (CHR ''p''))\<rparr>"

definition sample_disk :: disk where
  "sample_disk = \<lparr>dk_files = Map.empty, dk_pending = (\<lambda>_. [])\<rparr>"

definition sample_calls :: "sys list" where
  "sample_calls = replicate 40 (Proceed 152)"

definition sample_first :: "(string, DeviceIdentity) outcome \<times> sys list \<times> disk" where
  "sample_first = load_or_create sample_sodium (sample_identity_env (replicate 16 1)) (sample_calls, sample_disk)"

definition sample_second :: "(string, DeviceIdentity) outcome \<times> sys list \<times> disk" where
  "sample_second =
     load_or_create sample_sodium (sample_identity_env (replicate 16 2)) (sample_calls, snd (snd sample_first))"

lemma sample_behaves: "length random = 16 \<Longrightarrow> sodium_behaves sample_sodium (sample_identity_env random)"
  by (simp add: sodium_behaves_def sample_identity_env_def sample_sodium_def consistent_keys_def
      PUBLICKEYBYTES_def SECRETKEYBYTES_def)

lemma sample_first_value: "\<exists>a. fst sample_first = Value a"
proof -
  have "case fst sample_first of Value a \<Rightarrow> True | _ \<Rightarrow> False" by code_simp
  then show ?thesis by (auto split: outcome.splits)
qed

lemma sample_history:
  "identity_history sample_sodium 1000 ''device_id'' (snd (snd sample_first)) (case fst sample_first of Value a \<Rightarrow> [a] | _ \<Rightarrow> [])"
proof -
  have "safe_names ''device_id'' sample_disk" by (simp add: safe_names_def sample_disk_def synced_entry_def)
  from history_run [OF history_start [OF this] sample_behaves, of "replicate 16 1" 1000 sample_calls]
  show ?thesis by (simp add: sample_first_def sample_identity_env_def prod_eq_iff)
qed

lemma sample_second_value: "\<exists>a. fst sample_second = Value a"
proof -
  have "case fst sample_second of Value a \<Rightarrow> True | _ \<Rightarrow> False" by code_simp
  then show ?thesis by (auto split: outcome.splits)
qed

theorem identity_never_changes_witness:
  "\<exists>a. fst sample_first = Value a \<and> fst sample_second = Value a"
proof -
  obtain a b where a: "fst sample_first = Value a" and b: "fst sample_second = Value b"
    using sample_first_value sample_second_value by blast
  have "identity_history sample_sodium 1000 ''device_id'' (snd (snd sample_first)) [a]"
    using sample_history a by simp
  from history_run [OF this sample_behaves, of "replicate 16 2" sample_calls]
  have "identity_history sample_sodium 1000 ''device_id'' (snd (snd sample_second)) [b, a]"
    using b by (simp add: sample_second_def sample_identity_env_def prod_eq_iff)
  from identity_never_changes [OF this, of a b] a b show ?thesis by simp
qed

theorem identity_reloads_witness:
  "\<exists>a. fst sample_first = Value a \<and> fst sample_second = Value a"
proof -
  obtain a where a: "fst sample_first = Value a" using sample_first_value by blast
  let ?env = "sample_identity_env (replicate 16 2)"
  have env: "ie_euid ?env = 1000" "ie_filename ?env = ''device_id''" "ie_lock ?env = [(None, 0)]" "ie_owned ?env"
    "ie_depth ?env = 0" "0 \<le> sod_init sample_sodium"
    by (simp_all add: sample_identity_env_def sample_sodium_def)
  have "case dk_files (snd (snd sample_first)) (''device_id'' @ ''.lock'') of
      None \<Rightarrow> private_info 1000 (created_info ?env) | Some f \<Rightarrow> \<not> fl_link f \<and> private_info 1000 (fl_info f)"
    by code_simp
  then have lock: "lock_available ?env (snd (snd sample_first))"
    unfolding lock_available_def env(1-3) by blast
  have "smooth sample_calls" "23 \<le> length sample_calls" by (simp_all add: smooth_def sample_calls_def)
  with identity_reloads [of sample_sodium ?env "snd (snd sample_first)" "[a]" a sample_calls]
    sample_history a lock env show ?thesis by (simp add: sample_second_def)
qed

theorem generate_uuid_v4_witness:
  "\<exists>u. generate_uuid (replicate 16 255) = trust_uuid_to_string u \<and> drop_bit 4 (u ! 6) = 4"
  using generate_uuid_v4 [of "replicate 16 255"] by auto

end
