(* ===== verification/Ownership.thy ===== *)
theory Ownership
  imports Gasoline_Prelude
begin

text \<open>
  Move-only owners of a resource.  Several classes of the program hold one native resource each (a file
  descriptor, a handle of the Noise library), give it away when they are moved and release it when they
  are destroyed or assigned over.  An object is known by a name; \<open>Some None\<close> is an object that holds nothing.  The locale
  \<open>move_only\<close> is what the three operations of such a class do to the objects and to the resources that
  exist; it is interpreted for each of the classes.
\<close>

section \<open>Exclusive ownership\<close>

type_synonym 'r objects = "nat \<Rightarrow> 'r option option"

definition holds :: "'r objects \<Rightarrow> nat \<Rightarrow> 'r \<Rightarrow> bool" where
  "holds objs x a \<longleftrightarrow> objs x = Some (Some a)"

definition exclusive :: "'r objects \<Rightarrow> 'r set \<Rightarrow> bool" where
  "exclusive objs live \<longleftrightarrow>
     (\<forall>a. a \<in> live \<longleftrightarrow> (\<exists>x. holds objs x a)) \<and> (\<forall>x y a. holds objs x a \<longrightarrow> holds objs y a \<longrightarrow> x = y)"

lemma exclusive_live: "exclusive objs live \<Longrightarrow> holds objs x a \<Longrightarrow> a \<in> live"
  unfolding exclusive_def by blast

lemma exclusive_unique: "exclusive objs live \<Longrightarrow> a \<in> live \<longleftrightarrow> (\<exists>!x. objs x = Some (Some a))"
  unfolding exclusive_def holds_def by metis

lemma exclusive_empty: "exclusive Map.empty {}"
  by (simp add: exclusive_def holds_def)

lemma holds_upd: "holds (objs(x := v)) y a \<longleftrightarrow> (if y = x then v = Some (Some a) else holds objs y a)"
  by (simp add: holds_def)

text \<open>A name without a resource may come or go.\<close>

lemma exclusive_idle:
  assumes "exclusive objs live" and "\<And>a. \<not> holds objs x a" and "\<And>a. v \<noteq> Some (Some a)"
  shows "exclusive (objs(x := v)) live"
proof -
  have "holds (objs(x := v)) y a = holds objs y a" for y a using assms(2,3) by (simp add: holds_upd)
  then show ?thesis using assms(1) by (simp add: exclusive_def)
qed

lemma exclusive_acquire:
  assumes "exclusive objs live" and "\<And>b. \<not> holds objs x b" and "a \<notin> live"
  shows "exclusive (objs(x \<mapsto> Some a)) (insert a live)"
proof -
  have "\<not> holds objs y a" for y using assms(1,3) unfolding exclusive_def by blast
  then have "holds (objs(x \<mapsto> Some a)) y b \<longleftrightarrow> holds objs y b \<or> y = x \<and> b = a" for y b
    using assms(2) by (auto simp: holds_upd)
  then show ?thesis using assms(1) \<open>\<And>y. \<not> holds objs y a\<close> unfolding exclusive_def by auto
qed

lemma exclusive_release:
  assumes "exclusive objs live" and "holds objs x a" and "\<And>b. v \<noteq> Some (Some b)"
  shows "exclusive (objs(x := v)) (live - {a})"
proof -
  have unique: "holds objs y b \<Longrightarrow> holds objs z b \<Longrightarrow> y = z" for y z b using assms(1) unfolding exclusive_def by blast
  have only: "holds objs x b \<longleftrightarrow> b = a" for b using assms(2) by (auto simp: holds_def)
  have after: "holds (objs(x := v)) y b \<longleftrightarrow> y \<noteq> x \<and> holds objs y b" for y b using assms(3) by (simp add: holds_upd)
  have "(\<exists>y. y \<noteq> x \<and> holds objs y b) \<longleftrightarrow> b \<noteq> a \<and> (\<exists>y. holds objs y b)" for b
    using unique [of x a] assms(2) only by metis
  then show ?thesis using assms(1) unique unfolding exclusive_def after by auto
qed

lemma exclusive_move:
  assumes "exclusive objs live" and "objs x = None" and "objs other = Some p"
  shows "exclusive (objs(other \<mapsto> None, x \<mapsto> p)) live"
proof (cases p)
  case None
  then have "objs(other \<mapsto> None) = objs" using assms(3) by (simp add: fun_upd_idem)
  then show ?thesis using exclusive_idle [OF assms(1), of x "Some None"] assms(2) None by (simp add: holds_def)
next
  case (Some a)
  have held: "holds objs other a" using assms(3) Some by (simp add: holds_def)
  then have "exclusive (objs(other \<mapsto> None)) (live - {a})" by (intro exclusive_release [OF assms(1)]) auto
  then have "exclusive (objs(other \<mapsto> None, x \<mapsto> Some a)) (insert a (live - {a}))"
    using assms(2,3) by (intro exclusive_acquire) (auto simp: holds_def)
  moreover have "insert a (live - {a}) = live" using exclusive_live [OF assms(1) held] by blast
  ultimately show ?thesis using Some by simp
qed

section \<open>The contract of a class\<close>

text \<open>\<open>misused\<close> tells whether a resource that does not exist was used or released.\<close>

locale move_only =
  fixes objects :: "'s \<Rightarrow> 'r objects" and live :: "'s \<Rightarrow> 'r set" and misused :: "'s \<Rightarrow> bool"
    and move_construct move_assign :: "nat \<Rightarrow> nat \<Rightarrow> 's \<Rightarrow> 's" and destruct :: "nat \<Rightarrow> 's \<Rightarrow> 's"
  assumes construct_objects: "objects (move_construct x other s) =
      (case objects s other of None \<Rightarrow> objects s | Some p \<Rightarrow> (objects s)(other \<mapsto> None, x \<mapsto> p))"
    and construct_keeps: "live (move_construct x other s) = live s" "misused (move_construct x other s) = misused s"
    and destruct_objects: "objects (destruct x s) = (objects s)(x := None)"
    and destruct_held: "holds (objects s) x a \<Longrightarrow> a \<in> live s \<Longrightarrow>
      live (destruct x s) = live s - {a} \<and> misused (destruct x s) = misused s"
    and destruct_idle: "(\<And>a. \<not> holds (objects s) x a) \<Longrightarrow>
      live (destruct x s) = live s \<and> misused (destruct x s) = misused s"
    and assign_alt: "move_assign x other s =
      (if x \<noteq> other \<and> objects s x \<noteq> None \<and> objects s other \<noteq> None
       then move_construct x other (destruct x s) else s)"
begin

lemma destruct_exclusive:
  assumes "exclusive (objects s) (live s)" and "\<not> misused s"
  shows "exclusive (objects (destruct x s)) (live (destruct x s)) \<and> \<not> misused (destruct x s)"
proof (cases "\<exists>a. holds (objects s) x a")
  case True
  then obtain a where a: "holds (objects s) x a" by blast
  with destruct_held [OF a exclusive_live [OF assms(1) a]] assms exclusive_release [OF assms(1) a, of None]
  show ?thesis by (simp add: destruct_objects)
next
  case False
  then show ?thesis using destruct_idle [of s x] assms exclusive_idle [OF assms(1), of x None] by (simp add: destruct_objects)
qed

lemma construct_exclusive:
  assumes "exclusive (objects s) (live s)" and "\<not> misused s" and "objects s x = None"
  shows "exclusive (objects (move_construct x other s)) (live (move_construct x other s)) \<and>
    \<not> misused (move_construct x other s)"
  using assms exclusive_move [OF assms(1,3)] by (simp add: construct_objects construct_keeps split: option.split)

lemma assign_exclusive:
  assumes "exclusive (objects s) (live s)" and "\<not> misused s"
  shows "exclusive (objects (move_assign x other s)) (live (move_assign x other s)) \<and> \<not> misused (move_assign x other s)"
  using assms construct_exclusive [of "destruct x s"] destruct_exclusive [OF assms, of x]
  by (simp add: assign_alt destruct_objects)

end

end
