(* ===== verification/File_Descriptor.thy ===== *)
theory File_Descriptor
  imports Ownership Device_Identity
begin

text \<open>
  \<open>FileDescriptor\<close> of \<open>src/core/identity/device_identity.cpp\<close>, the owner of an open file.  The kernel hands out any
  number that is not in use, so a number that was closed comes back for another file: closing one twice
  would close a file of somebody else.  A \<open>close\<close> that reports an error has released the descriptor all the same, as on Linux.
\<close>

type_synonym FileDescriptor = int

record fd_program =
  fp_objects :: "nat \<Rightarrow> FileDescriptor option"
  fp_open :: "int set"
  fp_bad_close :: bool

text \<open>\<open>close\<close>: its result, given whether the device reports an error.  A negative number is refused.\<close>

definition sys_close :: "bool \<Rightarrow> int \<Rightarrow> fd_program \<Rightarrow> int \<times> fd_program" where
  "sys_close device_error fd s =
     (if fd < 0 then (- 1, s)
      else if fd \<notin> fp_open s then (- 1, s\<lparr>fp_bad_close := True\<rparr>)
      else (if device_error then - 1 else 0, s\<lparr>fp_open := fp_open s - {fd}\<rparr>))"

text \<open>\<open>FileDescriptor x(::open(...))\<close>, for what the call answers.\<close>

definition fd_construct :: "nat \<Rightarrow> int \<Rightarrow> fd_program \<Rightarrow> fd_program" where
  "fd_construct x fd s =
     s\<lparr>fp_objects := (fp_objects s)(x \<mapsto> fd), fp_open := (if fd < 0 then fp_open s else insert fd (fp_open s))\<rparr>"

definition fd_get :: "nat \<Rightarrow> fd_program \<Rightarrow> int option" where
  "fd_get x s = fp_objects s x"

definition fd_destroy :: "bool \<Rightarrow> nat \<Rightarrow> fd_program \<Rightarrow> fd_program" where
  "fd_destroy device_error x s =
     (case fp_objects s x of
        None \<Rightarrow> s
      | Some fd \<Rightarrow>
          (let s1 = (if fd \<ge> 0 then snd (sys_close device_error fd s) else s)
           in s1\<lparr>fp_objects := (fp_objects s1)(x := None)\<rparr>))"

definition fd_move_construct :: "nat \<Rightarrow> nat \<Rightarrow> fd_program \<Rightarrow> fd_program" where
  "fd_move_construct x other s =
     (case fp_objects s other of
        None \<Rightarrow> s
      | Some fd \<Rightarrow> s\<lparr>fp_objects := (fp_objects s)(other \<mapsto> - 1, x \<mapsto> fd)\<rparr>)"

definition fd_move_assign :: "bool \<Rightarrow> nat \<Rightarrow> nat \<Rightarrow> fd_program \<Rightarrow> fd_program" where
  "fd_move_assign device_error x other s =
     (case (fp_objects s x, fp_objects s other) of
        (Some mine, Some fd) \<Rightarrow>
          if x \<noteq> other
          then let s1 = (if mine \<ge> 0 then snd (sys_close device_error mine s) else s)
               in s1\<lparr>fp_objects := (fp_objects s1)(other \<mapsto> - 1, x \<mapsto> fd)\<rparr>
          else s
      | _ \<Rightarrow> s)"

text \<open>The descriptor is forgotten before it is closed, so that the destructor does not close it again.\<close>

definition fd_close_checked :: "bool \<Rightarrow> nat \<Rightarrow> fd_program \<Rightarrow> (string + unit) \<times> fd_program" where
  "fd_close_checked device_error x s =
     (case fp_objects s x of
        None \<Rightarrow> (Inr (), s)
      | Some fd \<Rightarrow>
          (case sys_close device_error fd (s\<lparr>fp_objects := (fp_objects s)(x \<mapsto> - 1)\<rparr>) of (r, s1) \<Rightarrow>
             if r \<noteq> 0 then (Inl (make_error ''failed to close persisted identity file''), s1) else (Inr (), s1)))"

text \<open>Any program over such objects, with exceptions as early destructions.\<close>

inductive fd_run :: "fd_program \<Rightarrow> bool" where
  fd_start: "fd_run \<lparr>fp_objects = Map.empty, fp_open = {}, fp_bad_close = False\<rparr>"
| fd_run_construct: "fd_run s \<Longrightarrow> fp_objects s x = None \<Longrightarrow> fd \<notin> fp_open s \<Longrightarrow> fd_run (fd_construct x fd s)"
| fd_run_destroy: "fd_run s \<Longrightarrow> fd_run (fd_destroy device_error x s)"
| fd_run_move_construct: "fd_run s \<Longrightarrow> fp_objects s x = None \<Longrightarrow> fd_run (fd_move_construct x other s)"
| fd_run_move_assign: "fd_run s \<Longrightarrow> fd_run (fd_move_assign device_error x other s)"
| fd_run_close: "fd_run s \<Longrightarrow> fd_run (snd (fd_close_checked device_error x s))"

section \<open>Ownership\<close>

definition fd_view :: "fd_program \<Rightarrow> int objects" where
  "fd_view s x = map_option (\<lambda>fd. if fd \<ge> 0 then Some fd else None) (fp_objects s x)"

lemma holds_fd_view: "holds (fd_view s) x fd \<longleftrightarrow> fp_objects s x = Some fd \<and> fd \<ge> 0"
  by (auto simp: holds_def fd_view_def)

lemma fd_view_None: "fd_view s x = None \<longleftrightarrow> fp_objects s x = None"
  by (simp add: fd_view_def)

interpretation descriptors: move_only fd_view fp_open fp_bad_close fd_move_construct "fd_move_assign e" "fd_destroy e"
  for e
proof unfold_locales
  show "fd_view (fd_move_construct x other s) =
      (case fd_view s other of None \<Rightarrow> fd_view s | Some p \<Rightarrow> (fd_view s)(other \<mapsto> None, x \<mapsto> p))" for x other s
    by (auto simp: fd_move_construct_def fd_view_def fun_eq_iff split: option.split)
  show "fd_view (fd_destroy e x s) = (fd_view s)(x := None)" for x s
    by (auto simp: fd_destroy_def fd_view_def sys_close_def fun_eq_iff Let_def split: option.split)
qed (auto simp: fd_move_construct_def fd_move_assign_def fd_destroy_def sys_close_def holds_fd_view fd_view_def Let_def
    split: option.splits)

lemma fd_run_exclusive: "fd_run s \<Longrightarrow> exclusive (fd_view s) (fp_open s) \<and> \<not> fp_bad_close s"
proof (induction rule: fd_run.induct)
  case fd_start
  have "fd_view \<lparr>fp_objects = Map.empty, fp_open = {}, fp_bad_close = False\<rparr> = Map.empty" by (simp add: fd_view_def fun_eq_iff)
  then show ?case by (simp add: exclusive_empty)
next
  case (fd_run_construct s x fd)
  then have free: "\<not> holds (fd_view s) x a" for a by (simp add: holds_fd_view)
  have fields: "fd_view (fd_construct x fd s) = (fd_view s)(x \<mapsto> (if fd \<ge> 0 then Some fd else None))"
    "fp_open (fd_construct x fd s) = (if fd \<ge> 0 then insert fd (fp_open s) else fp_open s)"
    "fp_bad_close (fd_construct x fd s) = fp_bad_close s"
    by (simp_all add: fd_construct_def fd_view_def fun_eq_iff)
  show ?case
  proof (cases "fd \<ge> 0")
    case True
    show ?thesis unfolding fields if_P [OF True] using fd_run_construct exclusive_acquire [OF _ free] by blast
  next
    case False
    show ?thesis unfolding fields if_not_P [OF False] using fd_run_construct.IH exclusive_idle [OF _ free] by blast
  qed
next
  case (fd_run_close s device_error x)
  then have own: "exclusive (fd_view s) (fp_open s)" "\<not> fp_bad_close s" by simp_all
  let ?s1 = "snd (fd_close_checked device_error x s)"
  show ?case
  proof (cases "fp_objects s x")
    case None
    with own show ?thesis by (simp add: fd_close_checked_def)
  next
    case (Some fd)
    have view: "fd_view ?s1 = (fd_view s)(x \<mapsto> None)"
      using Some by (auto simp: fd_close_checked_def sys_close_def fd_view_def fun_eq_iff)
    show ?thesis
    proof (cases "fd \<ge> 0")
      case True
      then have held: "holds (fd_view s) x fd" using Some by (simp add: holds_fd_view)
      from exclusive_live [OF own(1) this] have "fp_open ?s1 = fp_open s - {fd}" "\<not> fp_bad_close ?s1"
        using Some True own(2) by (auto simp: fd_close_checked_def sys_close_def)
      then show ?thesis using view exclusive_release [OF own(1) held, of "Some None"] by (metis option.distinct(1) option.inject)
    next
      case False
      then have "\<not> holds (fd_view s) x a" for a using Some by (auto simp: holds_fd_view)
      moreover have "fp_open ?s1 = fp_open s" "\<not> fp_bad_close ?s1"
        using Some False own(2) by (simp_all add: fd_close_checked_def sys_close_def)
      ultimately show ?thesis using view exclusive_idle [OF own(1), of x "Some None"] by (metis option.distinct(1) option.inject)
    qed
  qed
qed (simp_all add: descriptors.construct_exclusive descriptors.assign_exclusive descriptors.destruct_exclusive fd_view_None)

section \<open>Properties\<close>

text \<open>C11. Whatever a program constructs, moves, assigns, closes and destroys, and whatever numbers the kernel
  reuses: no descriptor is closed that is not open, and every open descriptor belongs to exactly one
  object, so none is closed twice or left open.\<close>

theorem descriptors_owned:
  assumes "fd_run s"
  shows "\<not> fp_bad_close s \<and> (\<forall>fd. fd \<in> fp_open s \<longleftrightarrow> fd \<ge> 0 \<and> (\<exists>!x. fd_get x s = Some fd))"
proof -
  have own: "exclusive (fd_view s) (fp_open s)" "\<not> fp_bad_close s" using fd_run_exclusive [OF assms] by simp_all
  have "fd_view s x = Some (Some fd) \<longleftrightarrow> fd_get x s = Some fd \<and> fd \<ge> 0" for x fd
    by (auto simp: fd_view_def fd_get_def)
  then show ?thesis using own exclusive_unique [OF own(1)] by auto
qed

section \<open>Witness\<close>

definition sample_descriptors :: fd_program where
  "sample_descriptors =
     (let s0 = \<lparr>fp_objects = Map.empty, fp_open = {}, fp_bad_close = False\<rparr>;
          s1 = fd_construct 0 5 s0;
          s2 = fd_move_construct 1 0 s1;
          s3 = snd (fd_close_checked True 1 s2);
          s4 = fd_construct 2 5 s3
      in fd_destroy False 1 s4)"

lemma sample_descriptors_run: "fd_run sample_descriptors"
  unfolding sample_descriptors_def Let_def
  by (intro fd_run_destroy fd_run_construct fd_run_close fd_run_move_construct fd_start)
    (simp_all add: fd_construct_def fd_move_construct_def fd_close_checked_def sys_close_def)

theorem descriptors_owned_witness:
  "\<not> fp_bad_close sample_descriptors \<and> 5 \<in> fp_open sample_descriptors \<and> (\<exists>!x. fd_get x sample_descriptors = Some 5)"
proof -
  have "5 \<in> fp_open sample_descriptors"
    by (simp add: sample_descriptors_def Let_def fd_destroy_def fd_construct_def fd_move_construct_def fd_close_checked_def sys_close_def)
  then show ?thesis using descriptors_owned [OF sample_descriptors_run] by blast
qed

end
