(* ===== verification/Api_Server.thy ===== *)
theory Api_Server
  imports Session_Safety
begin

text \<open>
  The local HTTP interface: \<open>src/interface/api_server.cpp\<close>.  One client is served by
  \<open>handle_api_client\<close>: it reads a request from the chunks that \<open>recv\<close> delivers (an empty chunk, or
  the end of the list, is end of stream or an error), dispatches on the request line and sends one
  response.  \<open>send\<close> takes as many bytes as the next number says, none meaning failure.  An exception
  that leaves the handler ends the process: \<open>ApiTerminate\<close>.  The text of an exception is a
  parameter.
\<close>

section \<open>Strings\<close>

text \<open>\<open>std::string::find(needle, pos)\<close>.\<close>

fun find_at :: "string \<Rightarrow> string \<Rightarrow> nat \<Rightarrow> nat option" where
  "find_at needle [] i = (if needle = [] then Some i else None)"
| "find_at needle (c # cs) i = (if prefix needle (c # cs) then Some i else find_at needle cs (Suc i))"

definition str_find :: "string \<Rightarrow> string \<Rightarrow> nat \<Rightarrow> nat option" where
  "str_find haystack needle pos = (if pos > length haystack then None else find_at needle (drop pos haystack) pos)"

definition CRLF :: string where
  "CRLF = [CHR 0x0D, CHR 0x0A]"

text \<open>\<open>std::to_string\<close> of a size.\<close>

fun to_string :: "nat \<Rightarrow> string" where
  "to_string n = (if n < 10 then [char_of (48 + n)] else to_string (n div 10) @ [char_of (48 + n mod 10)])"

declare to_string.simps [simp del]

text \<open>\<open>std::stoi\<close>: white space, an optional sign, digits; nothing is said about what follows.  \<open>None\<close>
  is an exception: no digits, or a value outside \<open>int\<close>.\<close>

definition is_digit :: "char \<Rightarrow> bool" where
  "is_digit c \<longleftrightarrow> CHR ''0'' \<le> c \<and> c \<le> CHR ''9''"

definition is_space :: "char \<Rightarrow> bool" where
  "is_space c \<longleftrightarrow> c = CHR '' '' \<or> (CHR 0x09 \<le> c \<and> c \<le> CHR 0x0D)"

definition digits_value :: "string \<Rightarrow> int" where
  "digits_value ds = foldl (\<lambda>v c. 10 * v + int (of_char c - 48)) 0 ds"

definition stoi :: "string \<Rightarrow> int option" where
  "stoi s =
     (let t = dropWhile is_space s;
          (negative, u) = (case t of c # cs \<Rightarrow> if c = CHR ''-'' then (True, cs)
                                                 else if c = CHR ''+'' then (False, cs) else (False, t)
                           | [] \<Rightarrow> (False, t));
          ds = takeWhile is_digit u;
          v = (if negative then - digits_value ds else digits_value ds)
      in if ds = [] \<or> v < - 2147483648 \<or> v > 2147483647 then None else Some v)"

section \<open>Requests\<close>

definition API_BUFFER_SIZE :: int where
  "API_BUFFER_SIZE = 4096"

definition extract_content_length :: "string \<Rightarrow> int" where
  "extract_content_length headers =
     (case str_find headers ''Content-Length:'' 0 of
        None \<Rightarrow> 0
      | Some pos \<Rightarrow>
          (let after = drop (pos + length ''Content-Length:'') headers;
               value_start = pos + length ''Content-Length:'' + length (takeWhile (\<lambda>c. c = CHR '' '') after)
           in case str_find headers CRLF value_start of
                None \<Rightarrow> 0
              | Some value_end \<Rightarrow>
                  (case stoi (take (value_end - value_start) (drop value_start headers)) of
                     None \<Rightarrow> 0 | Some v \<Rightarrow> v)))"

fun recv_headers :: "string \<Rightarrow> string list \<Rightarrow> bool \<times> string \<times> string list" where
  "recv_headers out [] = (if str_find out (CRLF @ CRLF) 0 = None then (False, out, []) else (True, out, []))"
| "recv_headers out (chunk # chunks) =
     (if str_find out (CRLF @ CRLF) 0 = None
      then if chunk = [] then (False, out, chunks)
           else recv_headers (out @ take (nat API_BUFFER_SIZE) chunk) chunks
      else (True, out, chunk # chunks))"

fun recv_body :: "nat \<Rightarrow> string \<Rightarrow> string list \<Rightarrow> bool \<times> string \<times> string list" where
  "recv_body target out [] = (if length out < target then (False, out, []) else (True, out, []))"
| "recv_body target out (chunk # chunks) =
     (if length out < target
      then if chunk = [] then (False, out, chunks)
           else recv_body target (out @ take (nat API_BUFFER_SIZE) chunk) chunks
      else (True, out, chunk # chunks))"

definition recv_http_request :: "string list \<Rightarrow> bool \<times> string \<times> string list" where
  "recv_http_request chunks =
     (case recv_headers [] chunks of (ok, out, rest) \<Rightarrow>
        if \<not> ok then (False, out, rest)
        else (case str_find out (CRLF @ CRLF) 0 of
                None \<Rightarrow> (False, out, rest)
              | Some headers_end \<Rightarrow>
                  (let content_length = extract_content_length (take (headers_end + 4) out)
                   in if content_length < 0 \<or> content_length > API_BUFFER_SIZE then (False, out, rest)
                      else recv_body (headers_end + 4 + nat content_length) out rest)))"

definition get_request_body :: "string \<Rightarrow> string" where
  "get_request_body request =
     (case str_find request (CRLF @ CRLF) 0 of None \<Rightarrow> [] | Some headers_end \<Rightarrow> drop (headers_end + 4) request)"

section \<open>Responses\<close>

definition device_state_to_string :: "DeviceState \<Rightarrow> string" where
  "device_state_to_string st =
     (case st of
        CONNECTING \<Rightarrow> ''CONNECTING''
      | HANDSHAKE_DONE \<Rightarrow> ''HANDSHAKE_DONE''
      | READY \<Rightarrow> ''READY''
      | DISCONNECTED \<Rightarrow> ''DISCONNECTED''
      | _ \<Rightarrow> ''UNKNOWN'')"

definition http_response :: "nat \<Rightarrow> string \<Rightarrow> string \<Rightarrow> string \<Rightarrow> string" where
  "http_response status_code status_line body content_type =
     ''HTTP/1.1 '' @ to_string status_code @ '' '' @ status_line @ CRLF @
     ''Content-Type: '' @ content_type @ CRLF @
     ''Content-Length: '' @ to_string (length body) @ CRLF @
     ''Connection: close'' @ CRLF @ CRLF @ body"

fun http_send_loop :: "string \<Rightarrow> nat \<Rightarrow> nat list \<Rightarrow> string \<times> bool" where
  "http_send_loop response total_sent [] = ([], \<not> total_sent < length response)"
| "http_send_loop response total_sent (n # ns) =
     (if total_sent < length response
      then if n = 0 then ([], False)
           else let k = min n (length response - total_sent)
                in (case http_send_loop response (total_sent + k) ns of
                      (out, ok) \<Rightarrow> (take k (drop total_sent response) @ out, ok))
      else ([], True))"

definition send_http_response :: "nat list \<Rightarrow> nat \<Rightarrow> string \<Rightarrow> string \<Rightarrow> string \<Rightarrow> string \<times> bool" where
  "send_http_response sends status_code status_line body content_type =
     http_send_loop (http_response status_code status_line body content_type) 0 sends"

section \<open>Handlers\<close>

record api_env =
  ae_chunks :: "string list"
  ae_sends :: "nat list"
  ae_what :: "std_error \<Rightarrow> string"

datatype api_outcome = ApiSent string | ApiTerminate

definition json_reply :: "api_env \<Rightarrow> nat \<Rightarrow> string \<Rightarrow> string \<Rightarrow> api_outcome" where
  "json_reply env status_code status_line body =
     ApiSent (fst (send_http_response (ae_sends env) status_code status_line body ''application/json''))"

definition device_item :: "string \<Rightarrow> Device \<Rightarrow> json" where
  "device_item my_id device =
     JObject (object_insert ''is_self'' (JBool (dev_device_id device = my_id))
       (object_insert ''state'' (JString (device_state_to_string (dev_state device)))
         (object_insert ''device_type'' (JString (dev_device_type device))
           (object_insert ''device_name'' (JString (dev_device_name device))
             (object_insert ''device_id'' (JString (dev_device_id device)) [])))))"

definition handle_get_devices :: "host \<Rightarrow> api_env \<Rightarrow> world \<Rightarrow> api_outcome" where
  "handle_get_devices h env w =
     (case json_dump (h_json h) (JArray (map (device_item (h_my_device_id h)) (get_devices_copy (w_registry w)))) of
        Inl _ \<Rightarrow> ApiTerminate
      | Inr body \<Rightarrow> json_reply env 200 ''OK'' body)"

definition event_item :: "MessageEvent \<Rightarrow> json" where
  "event_item event =
     JObject (object_insert ''text'' (JString (ev_text event))
       (object_insert ''device_id'' (JString (ev_device_id event)) []))"

definition handle_get_events :: "host \<Rightarrow> api_env \<Rightarrow> world \<Rightarrow> api_outcome \<times> world" where
  "handle_get_events h env w =
     (case consume_events (w_events w) of (events, rest) \<Rightarrow>
        (case json_dump (h_json h) (JArray (map event_item events)) of
           Inl _ \<Rightarrow> (ApiTerminate, w\<lparr>w_events := rest\<rparr>)
         | Inr body \<Rightarrow> (json_reply env 200 ''OK'' body, w\<lparr>w_events := rest\<rparr>)))"

text \<open>The \<open>catch\<close> clause: the error text is itself serialized, and that is no longer guarded.\<close>

definition error_reply :: "host \<Rightarrow> api_env \<Rightarrow> std_error \<Rightarrow> api_outcome" where
  "error_reply h env e =
     (case json_dump (h_json h) (JObject [(''error'', JString (ae_what env e))]) of
        Inl _ \<Rightarrow> ApiTerminate
      | Inr body \<Rightarrow> json_reply env 400 ''Bad Request'' body)"

definition handle_post_send :: "host \<Rightarrow> api_env \<Rightarrow> string \<Rightarrow> world \<Rightarrow> api_outcome \<times> world" where
  "handle_post_send h env request_body w =
     (case json_parse (h_json h) request_body of
        None \<Rightarrow> (error_reply h env JsonParseError, w)
      | Some body \<Rightarrow>
          (case (json_find ''device_id'' body, json_find ''text'' body) of
             (Some d, Some t) \<Rightarrow>
               (case json_get_string d of
                  Inl e \<Rightarrow> (error_reply h env e, w)
                | Inr device_id \<Rightarrow>
                    (case json_get_string t of
                       Inl e \<Rightarrow> (error_reply h env e, w)
                     | Inr text \<Rightarrow>
                         (case send_to_device h device_id text w of
                            (Inl e, w1) \<Rightarrow> (error_reply h env e, w1)
                          | (Inr _, w1) \<Rightarrow> (json_reply env 200 ''OK'' ''{\"status\":\"queued\"}'', w1))))
           | _ \<Rightarrow> (json_reply env 400 ''Bad Request''
                      ''{\"error\":\"'device_id' and 'text' are required\"}'', w)))"

definition handle_api_client :: "host \<Rightarrow> api_env \<Rightarrow> world \<Rightarrow> api_outcome \<times> world" where
  "handle_api_client h env w =
     (case recv_http_request (ae_chunks env) of (ok, request, _) \<Rightarrow>
        if \<not> ok then (json_reply env 400 ''Bad Request'' ''{\"error\":\"incomplete request\"}'', w)
        else if str_find request (CRLF @ CRLF) 0 = None then (ApiSent [], w)
        else (case str_find request CRLF 0 of
                None \<Rightarrow> (json_reply env 400 ''Bad Request'' ''{\"error\":\"invalid request line\"}'', w)
              | Some line_end \<Rightarrow>
                  (let request_line = take line_end request
                   in if prefix ''OPTIONS '' request_line
                      then (ApiSent (fst (send_http_response (ae_sends env) 204 ''No Content'' [] ''text/plain'')), w)
                      else if prefix ''GET /devices'' request_line then (handle_get_devices h env w, w)
                      else if prefix ''GET /events'' request_line then handle_get_events h env w
                      else if prefix ''POST /send'' request_line
                      then handle_post_send h env (get_request_body request) w
                      else (json_reply env 404 ''Not Found'' ''{\"error\":\"endpoint not found\"}'', w))))"

section \<open>Reading a request\<close>

lemma find_at_bounds: "find_at needle xs i = Some k \<Longrightarrow> i \<le> k \<and> k + length needle \<le> i + length xs"
  by (induction needle xs i rule: find_at.induct) (auto split: if_splits dest: prefix_length_le)

lemma find_at_append:
  assumes "find_at needle xs i = Some k" and "needle \<noteq> []"
  shows "find_at needle (xs @ ys) i = Some k"
  using assms
proof (induction needle xs i rule: find_at.induct)
  case (2 needle c cs i)
  show ?case
  proof (cases "prefix needle (c # cs)")
    case True
    moreover from True have "prefix needle ((c # cs) @ ys)" by (rule prefix_prefix)
    ultimately show ?thesis using 2 by simp
  next
    case False
    with 2 have f: "find_at needle cs (Suc i) = Some k" by simp
    from find_at_bounds [OF this] have "length needle \<le> length (c # cs)" by simp
    with False have "\<not> prefix needle ((c # cs) @ ys)"
      by (metis prefixI prefix_length_prefix)
    with False 2 f show ?thesis by simp
  qed
qed simp

lemma str_find_append:
  "str_find xs needle 0 = Some k \<Longrightarrow> needle \<noteq> [] \<Longrightarrow> str_find (xs @ ys) needle 0 = Some k"
  by (simp add: str_find_def find_at_append)

text \<open>Reading stops at a chunk boundary, having appended the chunks before it.\<close>

definition good_chunks :: "string list \<Rightarrow> bool" where
  "good_chunks chunks \<longleftrightarrow> (\<forall>c \<in> set chunks. c \<noteq> [] \<and> length c \<le> nat API_BUFFER_SIZE)"

lemma recv_headers_split:
  assumes "good_chunks chunks" and "str_find (out @ concat chunks) (CRLF @ CRLF) 0 = Some k"
  shows "\<exists>c1 c2. chunks = c1 @ c2 \<and> recv_headers out chunks = (True, out @ concat c1, c2) \<and>
    str_find (out @ concat c1) (CRLF @ CRLF) 0 = Some k"
  using assms
proof (induction chunks arbitrary: out)
  case (Cons c cs)
  show ?case
  proof (cases "str_find out (CRLF @ CRLF) 0")
    case None
    have c: "c \<noteq> []" "take (nat API_BUFFER_SIZE) c = c" "good_chunks cs" using Cons.prems(1) by (auto simp: good_chunks_def)
    from Cons.IH [OF c(3), of "out @ c"] Cons.prems(2) obtain c1 c2 where "cs = c1 @ c2"
      "recv_headers (out @ c) cs = (True, (out @ c) @ concat c1, c2)"
      "str_find ((out @ c) @ concat c1) (CRLF @ CRLF) 0 = Some k" by auto
    with None c show ?thesis by (intro exI [of _ "c # c1"] exI [of _ c2]) simp
  next
    case (Some j)
    moreover have "j = k" using str_find_append [OF Some, of "concat (c # cs)"] Cons.prems(2) by (simp add: CRLF_def)
    ultimately show ?thesis by (intro exI [of _ "[]"] exI [of _ "c # cs"]) simp
  qed
qed simp

lemma recv_body_all:
  assumes "good_chunks chunks" and "length out + length (concat chunks) = target"
  shows "recv_body target out chunks = (True, out @ concat chunks, [])"
  using assms
proof (induction chunks arbitrary: out)
  case (Cons c cs)
  then have "c \<noteq> []" "take (nat API_BUFFER_SIZE) c = c" "good_chunks cs" by (auto simp: good_chunks_def)
  with Cons.IH [of "out @ c"] Cons.prems(2) show ?case by (cases c) auto
qed simp

section \<open>What a request may do\<close>

lemma send_to_first_quiet: "\<exists>sid. quiet sid w (snd (send_to_first h device_id pkt devices w))"
proof (induction h device_id pkt devices w rule: send_to_first.induct)
  case (2 h device_id pkt device devices w)
  show ?case
  proof (cases "dev_device_id device = device_id \<and> dev_connection device \<noteq> None")
    case True
    then obtain sid where "dev_connection device = Some sid" by blast
    with True have "quiet sid w (snd (send_to_first h device_id pkt (device # devices) w))"
      using send_packet_quiet [of sid w h pkt] by (auto split: prod.split sum.split)
    then show ?thesis ..
  qed (use 2 in auto)
qed auto

lemma send_to_device_quiet: "\<exists>sid. quiet sid w (snd (send_to_device h device_id msg w))"
  using send_to_first_quiet by (auto simp: send_to_device_def)

lemma send_to_device_events: "w_events (snd (send_to_device h device_id msg w)) = w_events w"
proof -
  have e: "w_events w2 = w_events w" if "send_packet h sid packet w = (x, w2)" for h sid packet w x w2
    using send_packet_events [of h sid packet w] that by simp
  have "w_events (snd (send_to_first h device_id pkt devices w)) = w_events w" for pkt devices
    by (induction h device_id pkt devices w rule: send_to_first.induct)
      (auto split: option.split prod.split sum.split dest: e)
  then show ?thesis by (simp add: send_to_device_def)
qed

lemma handle_api_cases:
  assumes "handle_api_client h env w = (r, w1)"
  obtains (same) "w1 = w" | (events) "w1 = w\<lparr>w_events := []\<rparr>"
  | (sent) device_id msg where "w1 = snd (send_to_device h device_id msg w)"
proof -
  have events: "w1 = w\<lparr>w_events := []\<rparr>" if "handle_get_events h env w = (r, w1)" for r w1
    using that by (auto simp: handle_get_events_def consume_events_def split: sum.splits)
  have post: "w1 = w \<or> (\<exists>device_id msg. w1 = snd (send_to_device h device_id msg w))"
    if "handle_post_send h env body w = (r, w1)" for body r w1
  proof -
    from that show ?thesis
      by (auto simp: handle_post_send_def split: option.splits sum.splits prod.splits) (metis snd_conv)+
  qed
  show thesis
    using assms
    by (auto simp: handle_api_client_def Let_def split: prod.splits option.splits if_splits
        dest!: events post intro: that)
qed

lemma send_packet_wire:
  assumes "\<not> is_control_record packet" and "w_conns w s = Some c"
    and "w_conns (snd (send_packet h sid packet w)) s = Some c1" and "c_wire c1 \<noteq> c_wire c"
  shows "s = sid \<and> c_ready c \<and> \<not> c_stopping c \<and>
    (\<exists>p. c_authorized_peer c = Some p \<and> authorization_is_current (io_sql (h_io h (w_tick w))) (w_store w) p)"
proof -
  have "s = sid"
  proof (rule ccontr)
    assume "s \<noteq> sid"
    with send_packet_quiet [of sid w h packet] assms(2-4) show False by (auto simp: quiet_def)
  qed
  moreover have "w_conns (request_disconnect sid (w\<lparr>w_tick := t\<rparr>)) sid = Some c1 \<Longrightarrow> c_wire c1 = c_wire c" for t
    using assms(2) \<open>s = sid\<close> by (auto simp: request_disconnect_def put_conn_def split: if_splits)
  ultimately show ?thesis
    using assms by (auto simp: send_packet_def next_io_def split: if_splits option.splits)
qed

lemma message_not_control: "\<not> is_control_record (build_message_packet my_id msg)"
  by (simp add: is_control_record_def build_message_packet_def)

lemma send_to_first_wire:
  assumes "\<not> is_control_record pkt" and "w_conns w s = Some c"
    and "w_conns (snd (send_to_first h device_id pkt devices w)) s = Some c1" and "c_wire c1 \<noteq> c_wire c"
  shows "c_ready c \<and> \<not> c_stopping c \<and>
    (\<exists>p env. c_authorized_peer c = Some p \<and> authorization_is_current env (w_store w) p) \<and>
    (\<exists>d \<in> set devices. dev_device_id d = device_id \<and> dev_connection d = Some s \<and> dev_state d = READY)"
  using assms
proof (induction h device_id pkt devices w rule: send_to_first.induct)
  case (2 h device_id pkt device devices w)
  show ?case
  proof (cases "dev_device_id device = device_id")
    case True
    from True "2.prems" obtain sid where sid: "dev_connection device = Some sid" "dev_state device = READY"
      "w_conns (snd (send_packet h sid pkt w)) s = Some c1"
      by (auto split: option.splits if_splits prod.splits sum.splits)
    from send_packet_wire [OF "2.prems"(1,2) this(3) "2.prems"(4)] sid True show ?thesis by auto
  next
    case False
    with 2 show ?thesis by auto
  qed
qed simp

section \<open>Properties\<close>


text \<open>C33. The local interface cannot reach trust or authentication: whatever bytes a client sends, serving
  it leaves the trust store, the live authorizations, the monitor and the device registry as they
  are; it changes the event bus only by draining it, and it makes no session ready and gives none
  another peer.  If it makes any session send bytes, that session was ready and not stopping, it
  is the connection of a READY registry entry, and the store held at that moment an active record
  for its peer with the session's key and revision.\<close>

theorem api_confined:
  assumes "wf_db env0 (ts_db (w_store w))" and "handle_api_client h env w = (r, w1)"
  shows "w_store w1 = w_store w \<and> w_auth w1 = w_auth w \<and> w_monitor w1 = w_monitor w \<and>
    w_registry w1 = w_registry w \<and> w_events w1 \<in> {w_events w, []} \<and>
    (\<forall>s c. w_conns w s = Some c \<longrightarrow>
      (\<exists>c1. w_conns w1 s = Some c1 \<and> c_ready c1 = c_ready c \<and> c_authorized_peer c1 = c_authorized_peer c \<and>
        (c_wire c1 \<noteq> c_wire c \<longrightarrow> c_ready c \<and> \<not> c_stopping c \<and>
          (\<exists>d \<in> set (w_registry w). dev_connection d = Some s \<and> dev_state d = READY) \<and>
          (\<exists>p t. c_authorized_peer c = Some p \<and> trust_view (ts_db (w_store w)) (ap_uuid p) = Some t \<and>
             t_active t \<and> t_key t = ap_public_key p \<and> t_revision t = ap_revision p))))"
  using assms(2)
proof (cases rule: handle_api_cases)
  case (sent device_id msg)
  obtain sid where q: "quiet sid w w1" using send_to_device_quiet sent by blast
  have ev: "w_events w1 = w_events w"
    using send_to_device_events [of h device_id msg w] sent by simp
  have conn: "\<exists>c1. w_conns w1 s = Some c1 \<and> c_ready c1 = c_ready c \<and> c_authorized_peer c1 = c_authorized_peer c"
    if "w_conns w s = Some c" for s c
    using q that by (cases "s = sid") (auto simp: quiet_def stable_def)
  have gate: "c_ready c \<and> \<not> c_stopping c \<and>
      (\<exists>d \<in> set (w_registry w). dev_connection d = Some s \<and> dev_state d = READY) \<and>
      (\<exists>p t. c_authorized_peer c = Some p \<and> trust_view (ts_db (w_store w)) (ap_uuid p) = Some t \<and>
         t_active t \<and> t_key t = ap_public_key p \<and> t_revision t = ap_revision p)"
    if c: "w_conns w s = Some c" "w_conns w1 s = Some c1" "c_wire c1 \<noteq> c_wire c" for s c c1
  proof -
    have "msg \<noteq> []" using c sent by (auto simp: send_to_device_def)
    then have "w_conns (snd (send_to_first h device_id (build_message_packet (h_my_device_id h) msg)
        (w_registry w) w)) s = Some c1"
      using c(2) sent by (simp add: send_to_device_def get_devices_copy_def)
    from send_to_first_wire [OF message_not_control c(1) this c(3)] obtain p e where
      p: "c_ready c" "\<not> c_stopping c" "c_authorized_peer c = Some p" "authorization_is_current e (w_store w) p"
      "\<exists>d \<in> set (w_registry w). dev_connection d = Some s \<and> dev_state d = READY" by blast
    from gate_sound [OF assms(1) p(4)] obtain t where "trust_view (ts_db (w_store w)) (ap_uuid p) = Some t"
      "t_active t" "t_key t = ap_public_key p" "t_revision t = ap_revision p"
      by (auto simp: authorization_spec_def split: option.splits if_splits)
    with p show ?thesis by blast
  qed
  have same: "w_store w1 = w_store w" "w_auth w1 = w_auth w" "w_monitor w1 = w_monitor w"
    "w_registry w1 = w_registry w" using q by (simp_all add: quiet_def)
  show ?thesis
  proof (intro conjI allI impI)
    fix s c
    assume c: "w_conns w s = Some c"
    from conn [OF c] obtain c1 where c1: "w_conns w1 s = Some c1" "c_ready c1 = c_ready c"
      "c_authorized_peer c1 = c_authorized_peer c" by blast
    with gate [OF c c1(1)]
    show "\<exists>c1. w_conns w1 s = Some c1 \<and> c_ready c1 = c_ready c \<and> c_authorized_peer c1 = c_authorized_peer c \<and>
        (c_wire c1 \<noteq> c_wire c \<longrightarrow> c_ready c \<and> \<not> c_stopping c \<and>
          (\<exists>d \<in> set (w_registry w). dev_connection d = Some s \<and> dev_state d = READY) \<and>
          (\<exists>p t. c_authorized_peer c = Some p \<and> trust_view (ts_db (w_store w)) (ap_uuid p) = Some t \<and>
             t_active t \<and> t_key t = ap_public_key p \<and> t_revision t = ap_revision p))" by blast
  qed (use ev same in simp_all)
qed auto

text \<open>An error text that the serializer rejects ends the process: the reply to a failed request is
  built inside the \<open>catch\<close> clause, where nothing catches the second exception.\<close>

lemma post_error_escapes:
  assumes "json_parse (h_json h) body = None" and "\<not> snd (json_stream (h_json h) (JObject [(''error'', JString (ae_what env JsonParseError))]))"
  shows "handle_post_send h env body w = (ApiTerminate, w)"
  using assms by (auto simp: handle_post_send_def error_reply_def json_dump_def split: prod.split)

section \<open>Witnesses\<close>


definition sample_api_env :: api_env where
  "sample_api_env = \<lparr>ae_chunks = [''GET /events HTTP/1.1'' @ CRLF @ CRLF], ae_sends = [], ae_what = (\<lambda>_. ''e'')\<rparr>"

theorem api_confined_witness:
  "\<exists>c1. w_conns (snd (handle_api_client sample_host sample_api_env sample_authenticated)) 1 = Some c1 \<and> c_ready c1 \<and>
     c_authorized_peer c1 = Some sample_peer \<and>
     w_store (snd (handle_api_client sample_host sample_api_env sample_authenticated)) = sample_imported"
proof -
  have w: "w_store sample_authenticated = sample_imported"
    "w_conns sample_authenticated 1 = Some (sample_conn\<lparr>c_authorized_peer := Some sample_peer, c_ready := True\<rparr>)"
    by (simp_all add: sample_authenticated_def sample_prefaced_def sample_trusting_def)
  have "wf_db sample_env (ts_db (w_store sample_authenticated))" using sample_wf(1) w by simp
  from api_confined [OF this surjective_pairing, of sample_host sample_api_env] w show ?thesis by fastforce
qed

end
