(* ===== verification/Console.thy ===== *)
theory Console
  imports Api_Server
begin

text \<open>
  What the daemon prints: \<open>src/core/utils/logger.cpp\<close>, \<open>src/core/utils/packet_monitor.cpp\<close> and
  \<open>DeviceRegistry::list_devices\<close>.  The two streams are strings that only grow; nothing in the program reads
  them, so the other theories leave the calls out.
\<close>

record console =
  out_text :: string
  err_text :: string

definition log_message :: "string \<Rightarrow> console \<Rightarrow> console" where
  "log_message message s = s\<lparr>out_text := out_text s @ ''[gasoline] '' @ message @ [CHR 0x0A]\<rparr>"

definition error_message_line :: "string \<Rightarrow> console \<Rightarrow> console" where
  "error_message_line message s = s\<lparr>err_text := err_text s @ ''[gasoline:error] '' @ message @ [CHR 0x0A]\<rparr>"

definition log_rx :: "string \<Rightarrow> string \<Rightarrow> console \<Rightarrow> console" where
  "log_rx device_id type s = s\<lparr>out_text := out_text s @ ''[RX] '' @ device_id @ '' -> '' @ type @ [CHR 0x0A]\<rparr>"

definition log_tx :: "string \<Rightarrow> string \<Rightarrow> console \<Rightarrow> console" where
  "log_tx device_id type s = s\<lparr>out_text := out_text s @ ''[TX] '' @ device_id @ '' <- '' @ type @ [CHR 0x0A]\<rparr>"

text \<open>\<open>std::to_string(int)\<close>.\<close>

definition int_to_string :: "int \<Rightarrow> string" where
  "int_to_string i = (if i < 0 then CHR ''-'' # to_string (nat (- i)) else to_string (nat i))"

definition device_line :: "Device \<Rightarrow> string" where
  "device_line device =
     '' - '' @ dev_device_name device @ '' ('' @ dev_device_type device @ '')'' @ '' [socket '' @
     int_to_string (dev_socket_fd device) @ '']''"

definition list_devices :: "Device list \<Rightarrow> console \<Rightarrow> console" where
  "list_devices devices s =
     (if devices = [] then log_message ''No connected devices'' s
      else fold (\<lambda>device. log_message (device_line device)) devices (log_message ''Connected devices:'' s))"

section \<open>Lines\<close>

text \<open>The lines of a text that ends with a newline, without the newlines.\<close>

definition lines_in :: "string \<Rightarrow> nat" where
  "lines_in s = length (filter (\<lambda>c. c = CHR 0x0A) s)"

lemma lines_in_simps [simp]:
  "lines_in [] = 0" "lines_in (s @ t) = lines_in s + lines_in t"
  "lines_in (c # s) = (if c = CHR 0x0A then Suc (lines_in s) else lines_in s)"
  by (simp_all add: lines_in_def)

lemma lines_to_string [simp]: "lines_in (to_string n) = 0"
proof (induction n rule: to_string.induct)
  case (1 n)
  have digit: "char_of (48 + k) \<noteq> CHR 0x0A" if "k < 10" for k :: nat
  proof
    assume "char_of (48 + k) = CHR 0x0A"
    then have "of_char (char_of (48 + k) :: char) = (of_char (CHR 0x0A) :: nat)" by simp
    then show False using that by simp
  qed
  show ?case
  proof (cases "n < 10")
    case True
    then show ?thesis using digit [of n] by (simp add: to_string.simps [of n])
  next
    case False
    then show ?thesis using 1 digit [of "n mod 10"] by (simp add: to_string.simps [of n])
  qed
qed

lemma lines_log: "lines_in (out_text (log_message m s)) = lines_in (out_text s) + Suc (lines_in m)"
  by (simp add: log_message_def)

text \<open>
  One line for the heading and one for each device, as long as no name or type has a newline in it.  These texts come from
  the peer and nothing filters them, so a peer can make a listing look longer.
\<close>

lemma list_devices_lines:
  "lines_in (out_text (list_devices devices s)) =
     lines_in (out_text s) + Suc (\<Sum>d\<leftarrow>devices. Suc (lines_in (dev_device_name d) + lines_in (dev_device_type d)))"
proof -
  have line: "lines_in (device_line d) = lines_in (dev_device_name d) + lines_in (dev_device_type d)" for d
    by (simp add: device_line_def int_to_string_def)
  have "lines_in (out_text (fold (\<lambda>device. log_message (device_line device)) devices s1)) =
      lines_in (out_text s1) + (\<Sum>d\<leftarrow>devices. Suc (lines_in (dev_device_name d) + lines_in (dev_device_type d)))" for s1
    by (induction devices arbitrary: s1) (simp_all add: lines_log line)
  then show ?thesis by (simp add: list_devices_def lines_log)
qed

text \<open>Whatever is printed, what was printed before stays.\<close>

lemma console_grows:
  "prefix (out_text s) (out_text (log_message m s))" "prefix (out_text s) (out_text (log_rx d t s))"
  "prefix (out_text s) (out_text (log_tx d t s))" "prefix (err_text s) (err_text (error_message_line m s))"
  by (simp_all add: log_message_def log_rx_def log_tx_def error_message_line_def)

end
