(* ===== verification/Discovery.thy ===== *)
theory Discovery
  imports Session_Liveness Device_Identity
begin

text \<open>
  Finding peers and opening sessions: \<open>src/core/discovery/discovery_client.cpp\<close>,
  \<open>src/core/networking/connect.cpp\<close>, \<open>server.cpp\<close> and \<open>client_handler.cpp\<close>.  The discovery client keeps the set of device
  ids to which a connection attempt is under way; the thread of an attempt connects, waits and
  then removes its id.  Socket calls are answered by a record.
\<close>

section \<open>Discovery client\<close>

record DiscoveredDevice =
  dd_device_id :: string
  dd_device_name :: string
  dd_ip_address :: string
  dd_port :: "16 word"

definition is_hex_digit :: "char \<Rightarrow> bool" where
  "is_hex_digit c \<longleftrightarrow>
     (c \<ge> CHR ''0'' \<and> c \<le> CHR ''9'') \<or> (c \<ge> CHR ''a'' \<and> c \<le> CHR ''f'') \<or> (c \<ge> CHR ''A'' \<and> c \<le> CHR ''F'')"

fun uuid_index_loop :: "string \<Rightarrow> nat list \<Rightarrow> bool" where
  "uuid_index_loop val [] = True"
| "uuid_index_loop val (i # is) =
     (if i = 8 \<or> i = 13 \<or> i = 18 \<or> i = 23
      then if val ! i \<noteq> CHR ''-'' then False else uuid_index_loop val is
      else if \<not> is_hex_digit (val ! i) then False else uuid_index_loop val is)"

definition discovery_is_valid_uuid :: "string \<Rightarrow> bool" where
  "discovery_is_valid_uuid val = (if length val \<noteq> 36 then False else uuid_index_loop val [0..<length val])"

text \<open>The callback: the address to connect to, if a new attempt starts, and the pending ids.\<close>

definition on_device_discovered ::
  "string \<Rightarrow> Device list \<Rightarrow> DiscoveredDevice \<Rightarrow> string set \<Rightarrow> (string \<times> 16 word) option \<times> string set" where
  "on_device_discovered my_id registry device pending_connections =
     (if \<not> discovery_is_valid_uuid (dd_device_id device) then (None, pending_connections)
      else if dd_device_id device = my_id then (None, pending_connections)
      else if is_already_connected (dd_device_id device) registry then (None, pending_connections)
      else if dd_device_id device \<in> pending_connections then (None, pending_connections)
      else (Some (dd_ip_address device, dd_port device), insert (dd_device_id device) pending_connections))"

text \<open>The end of the attempt's thread.\<close>

definition attempt_finished :: "string \<Rightarrow> string set \<Rightarrow> string set" where
  "attempt_finished device_id pending_connections = pending_connections - {device_id}"

section \<open>Opening sessions\<close>

text \<open>Answers of the socket calls; \<open>ne_threads\<close> tells whether a worker thread can be created.\<close>

record net_env =
  ne_socket :: int
  ne_inet_pton :: int
  ne_connect :: int
  ne_accept :: int
  ne_threads :: bool

definition open_session :: "host \<Rightarrow> net_env \<Rightarrow> int \<Rightarrow> Role \<Rightarrow> world \<Rightarrow> session_id \<times> world" where
  "open_session h env fd role w =
     (case create h fd role w of (sid, w1) \<Rightarrow>
        (case begin_start sid (ne_threads env) w1 of (_, w2) \<Rightarrow> (sid, w2)))"

text \<open>\<open>connect_to_device\<close>, with the descriptors it closed itself.\<close>

definition connect_to_device :: "host \<Rightarrow> net_env \<Rightarrow> world \<Rightarrow> int list \<times> session_id option \<times> world" where
  "connect_to_device h env w =
     (let sock = ne_socket env
      in if sock < 0 then ([], None, w)
         else if ne_inet_pton env \<le> 0 then ([sock], None, w)
         else if ne_connect env < 0 then ([sock], None, w)
         else (case open_session h env sock Outgoing w of (sid, w1) \<Rightarrow> ([], Some sid, w1)))"

text \<open>One iteration of the accept loop of \<open>Server::start\<close>.\<close>

definition server_accept :: "host \<Rightarrow> net_env \<Rightarrow> world \<Rightarrow> session_id option \<times> world" where
  "server_accept h env w =
     (if ne_accept env < 0 then (None, w)
      else case open_session h env (ne_accept env) Incoming w of (sid, w1) \<Rightarrow> (Some sid, w1))"

definition client_handle :: "host \<Rightarrow> net_env \<Rightarrow> int \<Rightarrow> world \<Rightarrow> session_id \<times> world" where
  "client_handle h env socket_fd w = open_session h env socket_fd Incoming w"

section \<open>Lemmas\<close>

lemma uuid_index_loop_iff:
  "uuid_index_loop val is \<longleftrightarrow>
     (\<forall>i \<in> set is. if i = 8 \<or> i = 13 \<or> i = 18 \<or> i = 23 then val ! i = CHR ''-'' else id_hex_digit (val ! i))"
  by (induction "is") (auto simp: is_hex_digit_def id_hex_digit_def)

lemma discovery_valid_uuid: "discovery_is_valid_uuid val \<longleftrightarrow> is_valid_uuid val"
proof -
  have "uuid_index_loop val [0..<length val] \<longleftrightarrow> uuid_chars_ok val 0"
    unfolding uuid_index_loop_iff chars_ok_nth set_upt by (simp add: Ball_def cong: imp_cong)
  then show ?thesis
    unfolding discovery_is_valid_uuid_def is_valid_uuid_def UUID_SIZE_def by (simp only:)
qed

text \<open>
  The interleavings of discovery callbacks and of attempts that end, whatever the registry holds
  at each callback.  The list has the attempts under way with their addresses.
\<close>

inductive discovery_run :: "string \<Rightarrow> string set \<Rightarrow> (string \<times> string \<times> 16 word) list \<Rightarrow> bool" for my_id where
  discovery_start: "discovery_run my_id {} []"
| discovery_ignored:
  "\<lbrakk>discovery_run my_id P as; on_device_discovered my_id registry device P = (None, P1)\<rbrakk> \<Longrightarrow> discovery_run my_id P1 as"
| discovery_attempt:
  "\<lbrakk>discovery_run my_id P as; on_device_discovered my_id registry device P = (Some address, P1)\<rbrakk> \<Longrightarrow>
   discovery_run my_id P1 ((dd_device_id device, address) # as)"
| discovery_end:
  "\<lbrakk>discovery_run my_id P as; a \<in> set as\<rbrakk> \<Longrightarrow> discovery_run my_id (attempt_finished (fst a) P) (remove1 a as)"

lemma discovery_run_inv:
  "discovery_run my_id P as \<Longrightarrow>
   distinct (map fst as) \<and> P = fst ` set as \<and> (\<forall>d \<in> P. is_valid_uuid d \<and> d \<noteq> my_id)"
proof (induction rule: discovery_run.induct)
  case (discovery_end P as a)
  then have "fst ` set (remove1 a as) = fst ` set as - {fst a}"
    by (auto simp: distinct_map dest: inj_onD)
  with discovery_end show ?case by (auto simp: attempt_finished_def distinct_map_filter remove1_filter_not distinct_map
      intro: inj_on_subset)
qed (auto simp: on_device_discovered_def discovery_valid_uuid split: if_splits)

lemma create_conn:
  "fst (create h fd role w) = w_next_session_id w"
  "w_conns (snd (create h fd role w)) (w_next_session_id w) =
     Some \<lparr>c_socket_fd = fd, c_role = role, c_handshake_deadline = io_now (h_io h (w_tick w)) + HANDSHAKE_TIMEOUT,
       c_started = False, c_stopping = False, c_cleaned_up = False, c_ready = False, c_peer_preface_received = False,
       c_local_preface_sent = False, c_peer_hello_received = False, c_authorized_peer = None,
       c_record_parser = new_parser, c_wire = [], c_shutdowns = 0, c_closes = 0\<rparr>"
  by (simp_all add: create_def next_io_def Let_def register_connection_def put_conn_def)

text \<open>A new session is owned by its worker, or already closed because there is no worker.\<close>

lemma open_session_conn:
  assumes "open_session h env fd role w = (sid, w1)"
  shows "sid = w_next_session_id w \<and> (\<exists>c. w_conns w1 sid = Some c \<and> c_socket_fd c = fd \<and> c_role c = role \<and>
    c_started c \<and> \<not> c_ready c \<and> c_closes c = (if ne_threads env then 0 else 1))"
proof -
  obtain w0 where w0: "create h fd role w = (w_next_session_id w, w0)"
    using create_conn(1) [of h fd role w] by (metis prod.collapse)
  moreover from w0 have "sid = w_next_session_id w" using assms by (auto simp: open_session_def split: prod.splits)
  ultimately show ?thesis
    using assms create_conn(2) [of h fd role w]
    by (auto simp: open_session_def begin_start_def Let_def finalize_disconnect_def request_disconnect_def
        unregister_connection_def put_conn_def split: if_splits)
qed

section \<open>Properties\<close>

text \<open>C35. At most one connection attempt per device: under every interleaving of discovery callbacks and
  attempts that end, with any registry contents, the attempts under way have distinct device ids,
  which are exactly the pending ids, all syntactically valid UUIDs and never the local id; and a
  callback starts an attempt exactly if its id is valid, foreign, not connected and not pending,
  so an id can be tried again once its attempt has ended.\<close>

theorem discovery_single_attempt:
  assumes "discovery_run my_id P as"
  shows "distinct (map fst as) \<and> P = fst ` set as \<and> (\<forall>d \<in> P. is_valid_uuid d \<and> d \<noteq> my_id) \<and>
    (\<forall>registry device. fst (on_device_discovered my_id registry device P) =
      (if is_valid_uuid (dd_device_id device) \<and> dd_device_id device \<noteq> my_id \<and>
          \<not> is_already_connected (dd_device_id device) registry \<and> dd_device_id device \<notin> fst ` set as
       then Some (dd_ip_address device, dd_port device) else None))"
  using discovery_run_inv [OF assms] by (auto simp: on_device_discovered_def discovery_valid_uuid)


text \<open>
  Mixed case.  An identity file may hold an upper-case UUID, but peers know the device by the
  lower-case text of the same UUID.  Then both ends can prefer their own outgoing connection, and
  the rule that keeps one of two duplicate connections picks different ones.
\<close>

definition upper_id :: string where
  "upper_id = ''B0000000-0000-4000-8000-000000000000''"

definition lower_id :: string where
  "lower_id = ''a0000000-0000-4000-8000-000000000000''"

lemma mixed_case_identity_diverges:
  "is_valid_uuid upper_id \<and>
   (\<exists>u. trust_uuid_from_string upper_id = Inr u \<and>
      preferred_direction upper_id lower_id True \<and> preferred_direction lower_id (trust_uuid_to_string u) True)"
proof -
  have "is_valid_uuid upper_id" by code_simp
  moreover have "case trust_uuid_from_string upper_id of Inl _ \<Rightarrow> False
      | Inr u \<Rightarrow> preferred_direction upper_id lower_id True \<and> preferred_direction lower_id (trust_uuid_to_string u) True"
    by code_simp
  ultimately show ?thesis by (auto split: sum.splits)
qed

section \<open>Witnesses\<close>

definition sample_discovered :: DiscoveredDevice where
  "sample_discovered = \<lparr>dd_device_id = lower_id, dd_device_name = ''peer'', dd_ip_address = ''10.0.0.2'', dd_port = 42666\<rparr>"

theorem discovery_single_attempt_witness:
  "fst (on_device_discovered ''local'' [] sample_discovered {lower_id}) = None"
proof -
  have "on_device_discovered ''local'' [] sample_discovered {} = (Some (''10.0.0.2'', 42666), {lower_id})"
    by code_simp
  from discovery_attempt [OF discovery_start this] discovery_single_attempt [of "''local''" "{lower_id}"]
  show ?thesis by (auto simp: sample_discovered_def)
qed

definition sample_net :: net_env where
  "sample_net = \<lparr>ne_socket = 5, ne_inet_pton = 0, ne_connect = 0, ne_accept = 7, ne_threads = True\<rparr>"


end
