(* ===== verification/Noise.thy ===== *)
theory Noise
  imports Ownership
begin

text \<open>
  Encrypted sessions: the boundary \<open>src/core/noise/clatter_ffi/src/lib.rs\<close> to the Rust library that
  implements the Noise protocol, with the header \<open>gasoline_clatter_ffi.h\<close>, and the owner of a handle,
  \<open>src/core/noise/noise_session.{hpp,cpp}\<close>.  The library (\<open>clatter\<close>) is a parameter: its calls return,
  fail or panic, and leave the object in some state; the random numbers a handshake will draw are
  part of its state.  A buffer argument is its address and its content or capacity, so that the tests
  for null pointers, address wrap and overlap are those of the code; a call reports what it stored in
  the output length, if anything, and the bytes it produced.  Handles live in a heap; a call through
  a pointer that is neither null nor allocated is undefined behaviour and sets \<open>nw_invalid\<close>.
\<close>

section \<open>The boundary to the library\<close>

datatype gasoline_noise_result =
    NOISE_OK
  | NOISE_INVALID_ARGUMENT
  | NOISE_INVALID_STATE
  | NOISE_BUFFER_TOO_SMALL
  | NOISE_OVERSIZED
  | NOISE_CRYPTO_ERROR
  | NOISE_PANIC
  | NOISE_INTERNAL_ERROR

definition HASH_SIZE :: nat where "HASH_SIZE = 32"
definition TAG_SIZE :: nat where "TAG_SIZE = 16"
definition MAX_MESSAGE :: nat where "MAX_MESSAGE = 65535"
definition MAX_PLAINTEXT :: nat where "MAX_PLAINTEXT = 65519"
definition MAX_PROLOGUE :: nat where "MAX_PROLOGUE = 4096"

datatype HandshakeError = HsInvalidState | HsErrorState | HsBufferTooSmall | HsInvalidMessage | HsOther

datatype TransportError = TrBufferTooSmall | TrTooShort | TrOneWayViolation | TrCipher

text \<open>How a Rust call ends.\<close>

datatype ('e, 'a) rust_result = Returned 'a | Failing 'e | Panicked

record ('h, 't) clatter =
  handshake_new :: "string \<Rightarrow> string \<Rightarrow> bool \<Rightarrow> (HandshakeError, 'h) rust_result"
  get_next_message_overhead :: "'h \<Rightarrow> (HandshakeError, nat) rust_result"
  write_message :: "string \<Rightarrow> nat \<Rightarrow> 'h \<Rightarrow> (HandshakeError, string) rust_result \<times> 'h"
  read_message :: "string \<Rightarrow> nat \<Rightarrow> 'h \<Rightarrow> (HandshakeError, string) rust_result \<times> 'h"
  is_finished :: "'h \<Rightarrow> bool"
  get_hash :: "'h \<Rightarrow> string"
  finalize_handshake :: "'h \<Rightarrow> (HandshakeError, 't) rust_result"
  transport_send :: "string \<Rightarrow> nat \<Rightarrow> 't \<Rightarrow> (TransportError, string) rust_result \<times> 't"
  transport_receive :: "string \<Rightarrow> nat \<Rightarrow> 't \<Rightarrow> (TransportError, string) rust_result \<times> 't"
  get_handshake_hash :: "'t \<Rightarrow> string"
  transport_rekey_sender :: "'t \<Rightarrow> (TransportError, unit) rust_result \<times> 't"
  transport_rekey_receiver :: "'t \<Rightarrow> (TransportError, unit) rust_result \<times> 't"

datatype ('h, 't) SessionState = StHandshake 'h | StTransport 't | StFailed

text \<open>\<open>nh_poisoned\<close>: a panic while the mutex was held; every later \<open>lock\<close> fails.\<close>

record ('h, 't) gasoline_noise_handle =
  nh_state :: "('h, 't) SessionState"
  nh_poisoned :: bool

record noise_reply =
  nr_result :: gasoline_noise_result
  nr_len :: "nat option"
  nr_bytes :: string

definition guard :: "nat option \<Rightarrow> (gasoline_noise_result, string) rust_result \<Rightarrow> noise_reply" where
  "guard stored r =
     (case r of
        Returned bytes \<Rightarrow> \<lparr>nr_result = NOISE_OK, nr_len = Some (length bytes), nr_bytes = bytes\<rparr>
      | Failing e \<Rightarrow> \<lparr>nr_result = e, nr_len = stored, nr_bytes = []\<rparr>
      | Panicked \<Rightarrow> \<lparr>nr_result = NOISE_PANIC, nr_len = stored, nr_bytes = []\<rparr>)"

definition map_handshake_error :: "HandshakeError \<Rightarrow> gasoline_noise_result" where
  "map_handshake_error e =
     (case e of
        HsInvalidState \<Rightarrow> NOISE_INVALID_STATE
      | HsErrorState \<Rightarrow> NOISE_INVALID_STATE
      | HsBufferTooSmall \<Rightarrow> NOISE_BUFFER_TOO_SMALL
      | HsInvalidMessage \<Rightarrow> NOISE_CRYPTO_ERROR
      | HsOther \<Rightarrow> NOISE_CRYPTO_ERROR)"

definition map_transport_error :: "TransportError \<Rightarrow> gasoline_noise_result" where
  "map_transport_error e =
     (case e of
        TrBufferTooSmall \<Rightarrow> NOISE_BUFFER_TOO_SMALL
      | TrTooShort \<Rightarrow> NOISE_INVALID_ARGUMENT
      | TrOneWayViolation \<Rightarrow> NOISE_INVALID_STATE
      | TrCipher \<Rightarrow> NOISE_CRYPTO_ERROR)"

definition map_err :: "('e \<Rightarrow> 'f) \<Rightarrow> ('e, 'a) rust_result \<Rightarrow> ('f, 'a) rust_result" where
  "map_err f r = (case r of Returned x \<Rightarrow> Returned x | Failing e \<Rightarrow> Failing (f e) | Panicked \<Rightarrow> Panicked)"

subsection \<open>Pointers\<close>

record const_buffer =
  cb_addr :: nat
  cb_data :: string

record mut_buffer =
  mb_addr :: nat
  mb_capacity :: nat

text \<open>\<open>checked_add\<close> on \<open>usize\<close>.\<close>

definition checked_add :: "nat \<Rightarrow> nat \<Rightarrow> nat option" where
  "checked_add a b = (if a + b < 2 ^ 64 then Some (a + b) else None)"

definition valid_buffer :: "nat \<Rightarrow> nat \<Rightarrow> bool" where
  "valid_buffer data len \<longleftrightarrow> \<not> (len \<noteq> 0 \<and> (data = 0 \<or> checked_add data len = None))"

definition valid_output_parameter :: "nat \<Rightarrow> bool" where
  "valid_output_parameter data \<longleftrightarrow> \<not> (data = 0 \<or> data mod 8 \<noteq> 0 \<or> checked_add data 8 = None)"

definition ranges_overlap :: "nat \<Rightarrow> nat \<Rightarrow> nat \<Rightarrow> nat \<Rightarrow> bool" where
  "ranges_overlap a a_len b b_len =
     (if a_len = 0 \<or> b_len = 0 then False
      else case checked_add a a_len of
             None \<Rightarrow> True
           | Some a_end \<Rightarrow>
               (case checked_add b b_len of
                  None \<Rightarrow> True
                | Some b_end \<Rightarrow> a < b_end \<and> b < a_end))"

text \<open>\<open>handle_ref\<close>, the lock and the release of the lock, which a panic poisons.\<close>

definition with_handle ::
  "(('h, 't) SessionState \<Rightarrow> (gasoline_noise_result, 'a) rust_result \<times> ('h, 't) SessionState) \<Rightarrow>
   ('h, 't) gasoline_noise_handle option \<Rightarrow>
   (gasoline_noise_result, 'a) rust_result \<times> ('h, 't) gasoline_noise_handle option" where
  "with_handle body handle =
     (case handle of
        None \<Rightarrow> (Failing NOISE_INVALID_ARGUMENT, None)
      | Some g \<Rightarrow>
          if nh_poisoned g then (Failing NOISE_INTERNAL_ERROR, Some g)
          else (case body (nh_state g) of (r, s) \<Rightarrow>
                  (r, Some \<lparr>nh_state = s, nh_poisoned = (case r of Panicked \<Rightarrow> True | _ \<Rightarrow> False)\<rparr>)))"

subsection \<open>Operations on a handle\<close>

text \<open>\<open>create\<close>: the new handle, if any; \<open>*out_handle\<close> is cleared before anything can fail.\<close>

definition noise_create ::
  "('h, 't) clatter \<Rightarrow> string \<Rightarrow> const_buffer \<Rightarrow> bool \<Rightarrow>
   gasoline_noise_result \<times> ('h, 't) gasoline_noise_handle option" where
  "noise_create C entropy prologue initiator =
     (if length (cb_data prologue) > MAX_PROLOGUE then (NOISE_OVERSIZED, None)
      else if \<not> valid_buffer (cb_addr prologue) (length (cb_data prologue)) then (NOISE_INVALID_ARGUMENT, None)
      else case handshake_new C entropy (cb_data prologue) initiator of
             Returned hs \<Rightarrow> (NOISE_OK, Some \<lparr>nh_state = StHandshake hs, nh_poisoned = False\<rparr>)
           | Failing e \<Rightarrow> (map_handshake_error e, None)
           | Panicked \<Rightarrow> (NOISE_PANIC, None))"

definition handshake_buffers_ok :: "const_buffer \<Rightarrow> mut_buffer \<Rightarrow> nat \<Rightarrow> bool" where
  "handshake_buffers_ok inp out output_len \<longleftrightarrow>
     valid_output_parameter output_len \<and>
     valid_buffer (cb_addr inp) (length (cb_data inp)) \<and>
     valid_buffer (mb_addr out) (mb_capacity out) \<and>
     \<not> (ranges_overlap (cb_addr inp) (length (cb_data inp)) (mb_addr out) (mb_capacity out) \<or>
        ranges_overlap (cb_addr inp) (length (cb_data inp)) output_len 8 \<or>
        ranges_overlap (mb_addr out) (mb_capacity out) output_len 8)"

definition gasoline_noise_handshake_write ::
  "('h, 't) clatter \<Rightarrow> const_buffer \<Rightarrow> mut_buffer \<Rightarrow> nat \<Rightarrow> ('h, 't) gasoline_noise_handle option \<Rightarrow>
   noise_reply \<times> ('h, 't) gasoline_noise_handle option" where
  "gasoline_noise_handshake_write C payload out output_len handle =
     (if \<not> handshake_buffers_ok payload out output_len
      then (guard None (Failing NOISE_INVALID_ARGUMENT), handle)
      else if length (cb_data payload) > MAX_MESSAGE \<or> mb_capacity out > MAX_MESSAGE
      then (guard (Some 0) (Failing NOISE_OVERSIZED), handle)
      else apfst (guard (Some 0)) (with_handle (\<lambda>s.
        case s of
          StHandshake hs \<Rightarrow>
            (case get_next_message_overhead C hs of
               Failing e \<Rightarrow> (Failing (map_handshake_error e), s)
             | Panicked \<Rightarrow> (Panicked, s)
             | Returned overhead \<Rightarrow>
                 (case checked_add (length (cb_data payload)) overhead of
                    None \<Rightarrow> (Failing NOISE_OVERSIZED, s)
                  | Some required \<Rightarrow>
                      if required > MAX_MESSAGE then (Failing NOISE_OVERSIZED, s)
                      else if mb_capacity out < required then (Failing NOISE_BUFFER_TOO_SMALL, s)
                      else map_prod (map_err map_handshake_error) StHandshake
                             (write_message C (cb_data payload) (mb_capacity out) hs)))
        | _ \<Rightarrow> (Failing NOISE_INVALID_STATE, s)) handle))"

definition gasoline_noise_handshake_read ::
  "('h, 't) clatter \<Rightarrow> const_buffer \<Rightarrow> mut_buffer \<Rightarrow> nat \<Rightarrow> ('h, 't) gasoline_noise_handle option \<Rightarrow>
   noise_reply \<times> ('h, 't) gasoline_noise_handle option" where
  "gasoline_noise_handshake_read C message out payload_len handle =
     (if \<not> handshake_buffers_ok message out payload_len
      then (guard None (Failing NOISE_INVALID_ARGUMENT), handle)
      else if length (cb_data message) > MAX_MESSAGE \<or> mb_capacity out > MAX_MESSAGE
      then (guard (Some 0) (Failing NOISE_OVERSIZED), handle)
      else apfst (guard (Some 0)) (with_handle (\<lambda>s.
        case s of
          StHandshake hs \<Rightarrow>
            (case get_next_message_overhead C hs of
               Failing e \<Rightarrow> (Failing (map_handshake_error e), s)
             | Panicked \<Rightarrow> (Panicked, s)
             | Returned overhead \<Rightarrow>
                 if length (cb_data message) < overhead then (Failing NOISE_CRYPTO_ERROR, s)
                 else if mb_capacity out < length (cb_data message) - overhead
                 then (Failing NOISE_BUFFER_TOO_SMALL, s)
                 else map_prod (map_err map_handshake_error) StHandshake
                        (read_message C (cb_data message) (mb_capacity out) hs))
        | _ \<Rightarrow> (Failing NOISE_INVALID_STATE, s)) handle))"

definition gasoline_noise_handshake_is_complete ::
  "('h, 't) clatter \<Rightarrow> ('h, 't) gasoline_noise_handle option \<Rightarrow>
   (gasoline_noise_result, bool) rust_result \<times> ('h, 't) gasoline_noise_handle option" where
  "gasoline_noise_handshake_is_complete C handle =
     with_handle (\<lambda>s.
       case s of
         StHandshake hs \<Rightarrow> (Returned (is_finished C hs), s)
       | StTransport t \<Rightarrow> (Returned True, s)
       | StFailed \<Rightarrow> (Failing NOISE_INVALID_STATE, s)) handle"

text \<open>\<open>copy_from_slice\<close> panics when the two slices differ in length.\<close>

definition copy_hash :: "string \<Rightarrow> (gasoline_noise_result, string) rust_result" where
  "copy_hash hash = (if length hash = HASH_SIZE then Returned hash else Panicked)"

definition gasoline_noise_copy_handshake_hash ::
  "('h, 't) clatter \<Rightarrow> mut_buffer \<Rightarrow> ('h, 't) gasoline_noise_handle option \<Rightarrow>
   noise_reply \<times> ('h, 't) gasoline_noise_handle option" where
  "gasoline_noise_copy_handshake_hash C out handle =
     (if mb_capacity out < HASH_SIZE then (guard None (Failing NOISE_BUFFER_TOO_SMALL), handle)
      else if \<not> valid_buffer (mb_addr out) HASH_SIZE then (guard None (Failing NOISE_INVALID_ARGUMENT), handle)
      else apfst (guard None) (with_handle (\<lambda>s.
        case s of
          StHandshake hs \<Rightarrow>
            if is_finished C hs then (copy_hash (get_hash C hs), s) else (Failing NOISE_INVALID_STATE, s)
        | StTransport t \<Rightarrow> (copy_hash (get_handshake_hash C t), s)
        | StFailed \<Rightarrow> (Failing NOISE_INVALID_STATE, s)) handle))"

text \<open>The state is \<open>Failed\<close> while \<open>finalize\<close> consumes the handshake, and stays so unless it succeeds.\<close>

definition gasoline_noise_enter_transport ::
  "('h, 't) clatter \<Rightarrow> ('h, 't) gasoline_noise_handle option \<Rightarrow>
   (gasoline_noise_result, unit) rust_result \<times> ('h, 't) gasoline_noise_handle option" where
  "gasoline_noise_enter_transport C handle =
     with_handle (\<lambda>s.
       case s of
         StHandshake hs \<Rightarrow>
           if \<not> is_finished C hs then (Failing NOISE_INVALID_STATE, StHandshake hs)
           else (case finalize_handshake C hs of
                   Returned t \<Rightarrow> (Returned (), StTransport t)
                 | Failing e \<Rightarrow> (Failing (map_handshake_error e), StFailed)
                 | Panicked \<Rightarrow> (Panicked, StFailed))
       | _ \<Rightarrow> (Failing NOISE_INVALID_STATE, s)) handle"

definition gasoline_noise_transport_encrypt ::
  "('h, 't) clatter \<Rightarrow> const_buffer \<Rightarrow> mut_buffer \<Rightarrow> nat \<Rightarrow> ('h, 't) gasoline_noise_handle option \<Rightarrow>
   noise_reply \<times> ('h, 't) gasoline_noise_handle option" where
  "gasoline_noise_transport_encrypt C plaintext out output_len handle =
     (if output_len = 0 then (guard None (Failing NOISE_INVALID_ARGUMENT), handle)
      else if length (cb_data plaintext) > MAX_PLAINTEXT \<or> mb_capacity out > MAX_MESSAGE
      then (guard (Some 0) (Failing NOISE_OVERSIZED), handle)
      else if mb_capacity out < length (cb_data plaintext) + TAG_SIZE
      then (guard (Some 0) (Failing NOISE_BUFFER_TOO_SMALL), handle)
      else if ranges_overlap (cb_addr plaintext) (length (cb_data plaintext)) (mb_addr out) (mb_capacity out)
      then (guard (Some 0) (Failing NOISE_INVALID_ARGUMENT), handle)
      else if \<not> (valid_buffer (cb_addr plaintext) (length (cb_data plaintext)) \<and>
                  valid_buffer (mb_addr out) (mb_capacity out))
      then (guard (Some 0) (Failing NOISE_INVALID_ARGUMENT), handle)
      else apfst (guard (Some 0)) (with_handle (\<lambda>s.
        case s of
          StTransport t \<Rightarrow>
            map_prod (map_err map_transport_error) StTransport
              (transport_send C (cb_data plaintext) (mb_capacity out) t)
        | _ \<Rightarrow> (Failing NOISE_INVALID_STATE, s)) handle))"

text \<open>A rejected ciphertext is terminal.\<close>

definition gasoline_noise_transport_decrypt ::
  "('h, 't) clatter \<Rightarrow> const_buffer \<Rightarrow> mut_buffer \<Rightarrow> nat \<Rightarrow> ('h, 't) gasoline_noise_handle option \<Rightarrow>
   noise_reply \<times> ('h, 't) gasoline_noise_handle option" where
  "gasoline_noise_transport_decrypt C ciphertext out output_len handle =
     (if output_len = 0 then (guard None (Failing NOISE_INVALID_ARGUMENT), handle)
      else if length (cb_data ciphertext) > MAX_MESSAGE \<or> mb_capacity out > MAX_PLAINTEXT
      then (guard (Some 0) (Failing NOISE_OVERSIZED), handle)
      else if length (cb_data ciphertext) < TAG_SIZE
      then (guard (Some 0) (Failing NOISE_INVALID_ARGUMENT), handle)
      else if mb_capacity out < length (cb_data ciphertext) - TAG_SIZE
      then (guard (Some 0) (Failing NOISE_BUFFER_TOO_SMALL), handle)
      else if ranges_overlap (cb_addr ciphertext) (length (cb_data ciphertext)) (mb_addr out) (mb_capacity out)
      then (guard (Some 0) (Failing NOISE_INVALID_ARGUMENT), handle)
      else if \<not> (valid_buffer (cb_addr ciphertext) (length (cb_data ciphertext)) \<and>
                  valid_buffer (mb_addr out) (mb_capacity out))
      then (guard (Some 0) (Failing NOISE_INVALID_ARGUMENT), handle)
      else apfst (guard (Some 0)) (with_handle (\<lambda>s.
        case s of
          StTransport t \<Rightarrow>
            (case transport_receive C (cb_data ciphertext) (mb_capacity out) t of
               (Returned bytes, t1) \<Rightarrow> (Returned bytes, StTransport t1)
             | (Failing e, _) \<Rightarrow> (Failing (map_transport_error e), StFailed)
             | (Panicked, t1) \<Rightarrow> (Panicked, StTransport t1))
        | _ \<Rightarrow> (Failing NOISE_INVALID_STATE, s)) handle))"

definition gasoline_noise_rekey_sender ::
  "('h, 't) clatter \<Rightarrow> ('h, 't) gasoline_noise_handle option \<Rightarrow>
   (gasoline_noise_result, unit) rust_result \<times> ('h, 't) gasoline_noise_handle option" where
  "gasoline_noise_rekey_sender C handle =
     with_handle (\<lambda>s.
       case s of
         StTransport t \<Rightarrow> map_prod (map_err map_transport_error) StTransport (transport_rekey_sender C t)
       | _ \<Rightarrow> (Failing NOISE_INVALID_STATE, s)) handle"

definition gasoline_noise_rekey_receiver ::
  "('h, 't) clatter \<Rightarrow> ('h, 't) gasoline_noise_handle option \<Rightarrow>
   (gasoline_noise_result, unit) rust_result \<times> ('h, 't) gasoline_noise_handle option" where
  "gasoline_noise_rekey_receiver C handle =
     with_handle (\<lambda>s.
       case s of
         StTransport t \<Rightarrow> map_prod (map_err map_transport_error) StTransport (transport_rekey_receiver C t)
       | _ \<Rightarrow> (Failing NOISE_INVALID_STATE, s)) handle"

section \<open>The owner of a handle\<close>

datatype NoiseError = NoiseError string gasoline_noise_result

definition result_name :: "gasoline_noise_result \<Rightarrow> string" where
  "result_name r =
     (case r of
        NOISE_OK \<Rightarrow> ''ok''
      | NOISE_INVALID_ARGUMENT \<Rightarrow> ''invalid argument''
      | NOISE_INVALID_STATE \<Rightarrow> ''invalid state''
      | NOISE_BUFFER_TOO_SMALL \<Rightarrow> ''buffer too small''
      | NOISE_OVERSIZED \<Rightarrow> ''oversized input''
      | NOISE_CRYPTO_ERROR \<Rightarrow> ''cryptographic error''
      | NOISE_PANIC \<Rightarrow> ''contained Rust panic''
      | NOISE_INTERNAL_ERROR \<Rightarrow> ''internal error'')"

text \<open>\<open>what()\<close> of the exception.\<close>

definition error_message :: "NoiseError \<Rightarrow> string" where
  "error_message e = (case e of NoiseError operation result \<Rightarrow> operation @ '': '' @ result_name result)"

definition check :: "string \<Rightarrow> gasoline_noise_result \<Rightarrow> NoiseError + unit" where
  "check operation result = (if result \<noteq> NOISE_OK then Inl (NoiseError operation result) else Inr ())"

definition check_outcome :: "string \<Rightarrow> (gasoline_noise_result, 'a) rust_result \<Rightarrow> NoiseError + 'a" where
  "check_outcome operation r =
     (case r of
        Returned x \<Rightarrow> Inr x
      | Failing e \<Rightarrow> Inl (NoiseError operation e)
      | Panicked \<Rightarrow> Inl (NoiseError operation NOISE_PANIC))"

text \<open>
  \<open>NoiseSession\<close> is its \<open>handle_\<close>, \<open>None\<close> for null.  A \<open>place\<close> gives the addresses of the input's data, of
  the output's data and of \<open>written\<close> for an input and an output of given sizes.
\<close>

type_synonym NoiseSession = "nat option"

record noise_frame =
  fr_in :: nat
  fr_out :: nat
  fr_len :: nat

type_synonym place = "nat \<Rightarrow> nat \<Rightarrow> noise_frame"

record ('h, 't) noise_heap =
  nw_handles :: "nat \<Rightarrow> ('h, 't) gasoline_noise_handle option"
  nw_invalid :: bool

definition ffi_call ::
  "(('h, 't) gasoline_noise_handle option \<Rightarrow> 'r \<times> ('h, 't) gasoline_noise_handle option) \<Rightarrow> NoiseSession \<Rightarrow>
   ('h, 't) noise_heap \<Rightarrow> 'r \<times> ('h, 't) noise_heap" where
  "ffi_call f p w =
     (case p of
        None \<Rightarrow> (fst (f None), w)
      | Some a \<Rightarrow>
          (case nw_handles w a of
             None \<Rightarrow> (fst (f None), w\<lparr>nw_invalid := True\<rparr>)
           | Some g \<Rightarrow> (case f (Some g) of (r, g1) \<Rightarrow> (r, w\<lparr>nw_handles := (nw_handles w)(a := g1)\<rparr>))))"

text \<open>The output vector starts as zeros; \<open>resize\<close> cuts it or extends it with zeros.\<close>

definition resize :: "nat \<Rightarrow> string \<Rightarrow> string" where
  "resize n xs = take n xs @ replicate (n - length xs) (CHR 0x00)"

definition take_output :: "string \<Rightarrow> nat \<Rightarrow> noise_reply \<Rightarrow> NoiseError + string" where
  "take_output operation capacity r =
     rbind (check operation (nr_result r)) (\<lambda>_.
       Inr (resize (case nr_len r of None \<Rightarrow> 0 | Some n \<Rightarrow> n)
              (nr_bytes r @ replicate (capacity - length (nr_bytes r)) (CHR 0x00))))"

definition NoiseSession_create ::
  "string \<Rightarrow> bool \<Rightarrow> ('h, 't) clatter \<Rightarrow> string \<Rightarrow> place \<Rightarrow> nat \<Rightarrow> string \<Rightarrow> ('h, 't) noise_heap \<Rightarrow>
   (NoiseError + NoiseSession) \<times> ('h, 't) noise_heap" where
  "NoiseSession_create operation init C entropy place fresh prologue w =
     (case noise_create C entropy \<lparr>cb_addr = fr_in (place (length prologue) 0), cb_data = prologue\<rparr> init of
        (result, handle) \<Rightarrow>
          (case check operation result of
             Inl e \<Rightarrow> (Inl e, w)
           | Inr _ \<Rightarrow>
               (case handle of
                  None \<Rightarrow> (Inr None, w)
                | Some g \<Rightarrow> (Inr (Some fresh), w\<lparr>nw_handles := (nw_handles w)(fresh \<mapsto> g)\<rparr>))))"

definition initiator ::
  "('h, 't) clatter \<Rightarrow> string \<Rightarrow> place \<Rightarrow> nat \<Rightarrow> string \<Rightarrow> ('h, 't) noise_heap \<Rightarrow>
   (NoiseError + NoiseSession) \<times> ('h, 't) noise_heap" where
  "initiator = NoiseSession_create ''create initiator'' True"

definition responder ::
  "('h, 't) clatter \<Rightarrow> string \<Rightarrow> place \<Rightarrow> nat \<Rightarrow> string \<Rightarrow> ('h, 't) noise_heap \<Rightarrow>
   (NoiseError + NoiseSession) \<times> ('h, 't) noise_heap" where
  "responder = NoiseSession_create ''create responder'' False"

text \<open>\<open>gasoline_noise_destroy\<close>, called by the destructor and by the move assignment.\<close>

definition gasoline_noise_destroy :: "NoiseSession \<Rightarrow> ('h, 't) noise_heap \<Rightarrow> ('h, 't) noise_heap" where
  "gasoline_noise_destroy p w =
     (case p of
        None \<Rightarrow> w
      | Some a \<Rightarrow>
          if nw_handles w a = None then w\<lparr>nw_invalid := True\<rparr>
          else w\<lparr>nw_handles := (nw_handles w)(a := None)\<rparr>)"

definition write_handshake ::
  "('h, 't) clatter \<Rightarrow> place \<Rightarrow> string \<Rightarrow> NoiseSession \<Rightarrow> ('h, 't) noise_heap \<Rightarrow>
   (NoiseError + string) \<times> ('h, 't) noise_heap" where
  "write_handshake C place payload p w =
     (if length payload > MAX_MESSAGE then (Inl (NoiseError ''write handshake'' NOISE_OVERSIZED), w)
      else let fr = place (length payload) MAX_MESSAGE
           in apfst (take_output ''write handshake'' MAX_MESSAGE) (ffi_call
                (gasoline_noise_handshake_write C \<lparr>cb_addr = fr_in fr, cb_data = payload\<rparr>
                   \<lparr>mb_addr = fr_out fr, mb_capacity = MAX_MESSAGE\<rparr> (fr_len fr)) p w))"

definition read_handshake ::
  "('h, 't) clatter \<Rightarrow> place \<Rightarrow> string \<Rightarrow> NoiseSession \<Rightarrow> ('h, 't) noise_heap \<Rightarrow>
   (NoiseError + string) \<times> ('h, 't) noise_heap" where
  "read_handshake C place message p w =
     (if length message > MAX_MESSAGE then (Inl (NoiseError ''read handshake'' NOISE_OVERSIZED), w)
      else let fr = place (length message) (length message)
           in apfst (take_output ''read handshake'' (length message)) (ffi_call
                (gasoline_noise_handshake_read C \<lparr>cb_addr = fr_in fr, cb_data = message\<rparr>
                   \<lparr>mb_addr = fr_out fr, mb_capacity = length message\<rparr> (fr_len fr)) p w))"

definition handshake_complete ::
  "('h, 't) clatter \<Rightarrow> NoiseSession \<Rightarrow> ('h, 't) noise_heap \<Rightarrow> (NoiseError + bool) \<times> ('h, 't) noise_heap" where
  "handshake_complete C p w =
     apfst (check_outcome ''check handshake'') (ffi_call (gasoline_noise_handshake_is_complete C) p w)"

definition take_hash :: "string \<Rightarrow> noise_reply \<Rightarrow> NoiseError + string" where
  "take_hash operation r = rbind (check operation (nr_result r)) (\<lambda>_. Inr (nr_bytes r))"

definition handshake_hash ::
  "('h, 't) clatter \<Rightarrow> place \<Rightarrow> NoiseSession \<Rightarrow> ('h, 't) noise_heap \<Rightarrow>
   (NoiseError + string) \<times> ('h, 't) noise_heap" where
  "handshake_hash C place p w =
     apfst (take_hash ''copy handshake hash'')
       (ffi_call (gasoline_noise_copy_handshake_hash C
          \<lparr>mb_addr = fr_out (place 0 HASH_SIZE), mb_capacity = HASH_SIZE\<rparr>) p w)"

definition enter_transport ::
  "('h, 't) clatter \<Rightarrow> NoiseSession \<Rightarrow> ('h, 't) noise_heap \<Rightarrow> (NoiseError + unit) \<times> ('h, 't) noise_heap" where
  "enter_transport C p w =
     apfst (check_outcome ''enter transport'') (ffi_call (gasoline_noise_enter_transport C) p w)"

definition encrypt ::
  "('h, 't) clatter \<Rightarrow> place \<Rightarrow> string \<Rightarrow> NoiseSession \<Rightarrow> ('h, 't) noise_heap \<Rightarrow>
   (NoiseError + string) \<times> ('h, 't) noise_heap" where
  "encrypt C place plaintext p w =
     (if length plaintext > MAX_PLAINTEXT then (Inl (NoiseError ''encrypt'' NOISE_OVERSIZED), w)
      else let capacity = length plaintext + TAG_SIZE; fr = place (length plaintext) capacity
           in apfst (take_output ''encrypt'' capacity) (ffi_call
                (gasoline_noise_transport_encrypt C \<lparr>cb_addr = fr_in fr, cb_data = plaintext\<rparr>
                   \<lparr>mb_addr = fr_out fr, mb_capacity = capacity\<rparr> (fr_len fr)) p w))"

definition decrypt ::
  "('h, 't) clatter \<Rightarrow> place \<Rightarrow> string \<Rightarrow> NoiseSession \<Rightarrow> ('h, 't) noise_heap \<Rightarrow>
   (NoiseError + string) \<times> ('h, 't) noise_heap" where
  "decrypt C place ciphertext p w =
     (if length ciphertext > MAX_MESSAGE then (Inl (NoiseError ''decrypt'' NOISE_OVERSIZED), w)
      else let maximum_plaintext = (if length ciphertext \<ge> TAG_SIZE then length ciphertext - TAG_SIZE else 0);
               fr = place (length ciphertext) maximum_plaintext
           in apfst (take_output ''decrypt'' maximum_plaintext) (ffi_call
                (gasoline_noise_transport_decrypt C \<lparr>cb_addr = fr_in fr, cb_data = ciphertext\<rparr>
                   \<lparr>mb_addr = fr_out fr, mb_capacity = maximum_plaintext\<rparr> (fr_len fr)) p w))"

definition rekey_sender ::
  "('h, 't) clatter \<Rightarrow> NoiseSession \<Rightarrow> ('h, 't) noise_heap \<Rightarrow> (NoiseError + unit) \<times> ('h, 't) noise_heap" where
  "rekey_sender C p w = apfst (check_outcome ''rekey sender'') (ffi_call (gasoline_noise_rekey_sender C) p w)"

definition rekey_receiver ::
  "('h, 't) clatter \<Rightarrow> NoiseSession \<Rightarrow> ('h, 't) noise_heap \<Rightarrow> (NoiseError + unit) \<times> ('h, 't) noise_heap" where
  "rekey_receiver C p w = apfst (check_outcome ''rekey receiver'') (ffi_call (gasoline_noise_rekey_receiver C) p w)"

subsection \<open>A client of sessions\<close>

datatype noise_call =
    WriteHandshake string
  | ReadHandshake string
  | HandshakeComplete
  | HandshakeHash
  | EnterTransport
  | Encrypt string
  | Decrypt string
  | RekeySender
  | RekeyReceiver

datatype noise_value = NvBytes string | NvFlag bool | NvUnit

definition call_session ::
  "('h, 't) clatter \<Rightarrow> place \<Rightarrow> noise_call \<Rightarrow> NoiseSession \<Rightarrow> ('h, 't) noise_heap \<Rightarrow>
   (NoiseError + noise_value) \<times> ('h, 't) noise_heap" where
  "call_session C place c p w =
     (case c of
        WriteHandshake payload \<Rightarrow> apfst (map_sum id NvBytes) (write_handshake C place payload p w)
      | ReadHandshake message \<Rightarrow> apfst (map_sum id NvBytes) (read_handshake C place message p w)
      | HandshakeComplete \<Rightarrow> apfst (map_sum id NvFlag) (handshake_complete C p w)
      | HandshakeHash \<Rightarrow> apfst (map_sum id NvBytes) (handshake_hash C place p w)
      | EnterTransport \<Rightarrow> apfst (map_sum id (\<lambda>_. NvUnit)) (enter_transport C p w)
      | Encrypt plaintext \<Rightarrow> apfst (map_sum id NvBytes) (encrypt C place plaintext p w)
      | Decrypt ciphertext \<Rightarrow> apfst (map_sum id NvBytes) (decrypt C place ciphertext p w)
      | RekeySender \<Rightarrow> apfst (map_sum id (\<lambda>_. NvUnit)) (rekey_sender C p w)
      | RekeyReceiver \<Rightarrow> apfst (map_sum id (\<lambda>_. NvUnit)) (rekey_receiver C p w))"

fun run_calls ::
  "('h, 't) clatter \<Rightarrow> (place \<times> noise_call) list \<Rightarrow> NoiseSession \<Rightarrow> ('h, 't) noise_heap \<Rightarrow>
   (NoiseError + noise_value) list" where
  "run_calls C [] p w = []"
| "run_calls C ((place, c) # cs) p w =
     (case call_session C place c p w of (r, w1) \<Rightarrow> r # run_calls C cs p w1)"

text \<open>The session objects of a program by name, and its heap.\<close>

record ('h, 't) noise_program =
  np_objects :: "nat \<Rightarrow> NoiseSession option"
  np_heap :: "('h, 't) noise_heap"

definition construct ::
  "((NoiseError + NoiseSession) \<times> ('h, 't) noise_heap) \<Rightarrow> nat \<Rightarrow> ('h, 't) noise_program \<Rightarrow>
   ('h, 't) noise_program" where
  "construct r x s =
     (case r of
        (Inl _, w) \<Rightarrow> s\<lparr>np_heap := w\<rparr>
      | (Inr p, w) \<Rightarrow> s\<lparr>np_objects := (np_objects s)(x \<mapsto> p), np_heap := w\<rparr>)"

text \<open>\<open>std::exchange(other.handle_, nullptr)\<close>.\<close>

definition move_construct :: "nat \<Rightarrow> nat \<Rightarrow> ('h, 't) noise_program \<Rightarrow> ('h, 't) noise_program" where
  "move_construct x other s =
     (case np_objects s other of
        None \<Rightarrow> s
      | Some p \<Rightarrow> s\<lparr>np_objects := (np_objects s)(other \<mapsto> None, x \<mapsto> p)\<rparr>)"

definition move_assign :: "nat \<Rightarrow> nat \<Rightarrow> ('h, 't) noise_program \<Rightarrow> ('h, 't) noise_program" where
  "move_assign x other s =
     (case (np_objects s x, np_objects s other) of
        (Some mine, Some p) \<Rightarrow>
          if x \<noteq> other
          then s\<lparr>np_objects := (np_objects s)(other \<mapsto> None, x \<mapsto> p),
                 np_heap := gasoline_noise_destroy mine (np_heap s)\<rparr>
          else s
      | _ \<Rightarrow> s)"

definition destruct :: "nat \<Rightarrow> ('h, 't) noise_program \<Rightarrow> ('h, 't) noise_program" where
  "destruct x s =
     (case np_objects s x of
        None \<Rightarrow> s
      | Some p \<Rightarrow> s\<lparr>np_objects := (np_objects s)(x := None), np_heap := gasoline_noise_destroy p (np_heap s)\<rparr>)"

definition call_object ::
  "('h, 't) clatter \<Rightarrow> place \<Rightarrow> noise_call \<Rightarrow> nat \<Rightarrow> ('h, 't) noise_program \<Rightarrow> ('h, 't) noise_program" where
  "call_object C place c x s =
     (case np_objects s x of
        None \<Rightarrow> s
      | Some p \<Rightarrow> s\<lparr>np_heap := snd (call_session C place c p (np_heap s))\<rparr>)"

text \<open>Every program that constructs, moves, uses and destroys sessions; the allocator returns free addresses.\<close>

inductive noise_run :: "('h, 't) clatter \<Rightarrow> ('h, 't) noise_program \<Rightarrow> bool" for C where
  noise_start: "noise_run C \<lparr>np_objects = Map.empty, np_heap = \<lparr>nw_handles = Map.empty, nw_invalid = False\<rparr>\<rparr>"
| noise_initiator: "noise_run C s \<Longrightarrow> np_objects s x = None \<Longrightarrow> nw_handles (np_heap s) fresh = None \<Longrightarrow>
    noise_run C (construct (initiator C entropy place fresh prologue (np_heap s)) x s)"
| noise_responder: "noise_run C s \<Longrightarrow> np_objects s x = None \<Longrightarrow> nw_handles (np_heap s) fresh = None \<Longrightarrow>
    noise_run C (construct (responder C entropy place fresh prologue (np_heap s)) x s)"
| noise_move_construct: "noise_run C s \<Longrightarrow> np_objects s x = None \<Longrightarrow> noise_run C (move_construct x other s)"
| noise_move_assign: "noise_run C s \<Longrightarrow> noise_run C (move_assign x other s)"
| noise_destruct: "noise_run C s \<Longrightarrow> noise_run C (destruct x s)"
| noise_call: "noise_run C s \<Longrightarrow> noise_run C (call_object C place c x s)"

section \<open>The contract of the operations\<close>

text \<open>
  A dead handle was poisoned by a panic or is in the failed state.  Every operation keeps the handle
  allocated, fails on a dead one without changing it, poisons it when it panics, and reports a null
  handle as an invalid argument.
\<close>

definition dead :: "('h, 't) gasoline_noise_handle \<Rightarrow> bool" where
  "dead g \<longleftrightarrow> nh_poisoned g \<or> nh_state g = StFailed"

locale handle_operation =
  fixes f :: "('h, 't) gasoline_noise_handle option \<Rightarrow> 'r \<times> ('h, 't) gasoline_noise_handle option"
    and result :: "'r \<Rightarrow> NoiseError + 'v"
  assumes keeps_handle: "\<exists>g1. snd (f (Some g)) = Some g1"
    and dead_unchanged: "dead g \<Longrightarrow> snd (f (Some g)) = Some g"
    and dead_fails: "dead g \<Longrightarrow> \<exists>e. result (fst (f (Some g))) = Inl e"
    and panic_kills: "result (fst (f (Some g))) = Inl (NoiseError op NOISE_PANIC) \<Longrightarrow>
      snd (f (Some g)) = Some g1 \<Longrightarrow> dead g1"
    and null_reported: "\<exists>op e. result (fst (f None)) = Inl (NoiseError op e) \<and> e \<noteq> NOISE_PANIC \<and> e \<noteq> NOISE_CRYPTO_ERROR"
begin

lemma call_keeps_heap:
  assumes "\<And>a. p = Some a \<Longrightarrow> nw_handles w a \<noteq> None"
  shows "dom (nw_handles (snd (ffi_call f p w))) = dom (nw_handles w)"
    and "nw_invalid (snd (ffi_call f p w)) = nw_invalid w"
proof -
  show "dom (nw_handles (snd (ffi_call f p w))) = dom (nw_handles w)"
  proof (cases p)
    case (Some a)
    then obtain g where g: "nw_handles w a = Some g" using assms by blast
    obtain g1 where "snd (f (Some g)) = Some g1" using keeps_handle by blast
    then show ?thesis using Some g by (auto simp: ffi_call_def split: prod.splits)
  qed (simp add: ffi_call_def)
  show "nw_invalid (snd (ffi_call f p w)) = nw_invalid w"
    using assms by (auto simp: ffi_call_def split: prod.splits option.splits)
qed

lemma call_dead:
  assumes "nw_handles w a = Some g" and "dead g"
  shows "\<exists>e. result (fst (ffi_call f (Some a) w)) = Inl e"
    and "nw_handles (snd (ffi_call f (Some a) w)) a = Some g"
  using assms dead_unchanged [of g] dead_fails [of g]
  by (auto simp: ffi_call_def split: prod.splits)

lemma call_panic:
  assumes "result (fst (ffi_call f p w)) = Inl (NoiseError op NOISE_PANIC)"
  shows "\<exists>a g. p = Some a \<and> nw_handles (snd (ffi_call f p w)) a = Some g \<and> dead g"
proof -
  obtain a g where p: "p = Some a" and g: "nw_handles w a = Some g"
    using assms null_reported by (auto simp: ffi_call_def split: option.splits)
  obtain g1 where g1: "snd (f (Some g)) = Some g1" using keeps_handle by blast
  then have "dead g1"
    using assms p g panic_kills [of g op g1] by (auto simp: ffi_call_def split: prod.splits)
  then show ?thesis using p g g1 by (auto simp: ffi_call_def split: prod.splits)
qed

end

lemma take_output_guard:
  "take_output op cap (guard st r) =
     (case r of
        Returned bytes \<Rightarrow> Inr bytes
      | Failing e \<Rightarrow> if e = NOISE_OK then Inr (resize (case st of None \<Rightarrow> 0 | Some n \<Rightarrow> n) (replicate cap (CHR 0x00)))
                     else Inl (NoiseError op e)
      | Panicked \<Rightarrow> Inl (NoiseError op NOISE_PANIC))"
  by (auto simp: take_output_def guard_def check_def resize_def split: rust_result.splits)

lemma take_hash_guard:
  "take_hash op (guard st r) =
     (case r of
        Returned bytes \<Rightarrow> Inr bytes
      | Failing e \<Rightarrow> if e = NOISE_OK then Inr [] else Inl (NoiseError op e)
      | Panicked \<Rightarrow> Inl (NoiseError op NOISE_PANIC))"
  by (auto simp: take_hash_def guard_def check_def split: rust_result.splits)

lemma map_errors_proper [simp]:
  "map_handshake_error e \<noteq> NOISE_OK" "map_handshake_error e \<noteq> NOISE_PANIC"
  "map_transport_error x \<noteq> NOISE_OK" "map_transport_error x \<noteq> NOISE_PANIC"
  "NOISE_OK \<noteq> map_handshake_error e" "NOISE_OK \<noteq> map_transport_error x"
  by (simp_all add: map_handshake_error_def map_transport_error_def split: HandshakeError.splits TransportError.splits)

lemmas operation_simps = with_handle_def dead_def take_output_guard check_outcome_def map_err_def apfst_def
  map_prod_def

lemmas operation_splits = option.splits rust_result.splits prod.splits SessionState.splits if_splits

interpretation op_write: handle_operation "gasoline_noise_handshake_write C payload out olen" "take_output op cap"
  by unfold_locales (auto simp: gasoline_noise_handshake_write_def operation_simps split: operation_splits)

interpretation op_read: handle_operation "gasoline_noise_handshake_read C message out olen" "take_output op cap"
  by unfold_locales (auto simp: gasoline_noise_handshake_read_def operation_simps split: operation_splits)

interpretation op_complete: handle_operation "gasoline_noise_handshake_is_complete C" "check_outcome op"
  by unfold_locales (auto simp: gasoline_noise_handshake_is_complete_def operation_simps split: operation_splits)

interpretation op_hash: handle_operation "gasoline_noise_copy_handshake_hash C out" "take_hash op"
  by unfold_locales
    (auto simp: gasoline_noise_copy_handshake_hash_def copy_hash_def take_hash_guard operation_simps split: operation_splits)

interpretation op_enter: handle_operation "gasoline_noise_enter_transport C" "check_outcome op"
  by unfold_locales (auto simp: gasoline_noise_enter_transport_def operation_simps split: operation_splits)

interpretation op_encrypt: handle_operation "gasoline_noise_transport_encrypt C plaintext out olen" "take_output op cap"
  by unfold_locales (auto simp: gasoline_noise_transport_encrypt_def operation_simps split: operation_splits)

interpretation op_decrypt: handle_operation "gasoline_noise_transport_decrypt C ciphertext out olen" "take_output op cap"
  by unfold_locales (auto simp: gasoline_noise_transport_decrypt_def operation_simps split: operation_splits)

interpretation op_rekey_sender: handle_operation "gasoline_noise_rekey_sender C" "check_outcome op"
  by unfold_locales (auto simp: gasoline_noise_rekey_sender_def operation_simps split: operation_splits)

interpretation op_rekey_receiver: handle_operation "gasoline_noise_rekey_receiver C" "check_outcome op"
  by unfold_locales (auto simp: gasoline_noise_rekey_receiver_def operation_simps split: operation_splits)

lemmas session_defs = call_session_def write_handshake_def read_handshake_def handshake_complete_def
  handshake_hash_def enter_transport_def encrypt_def decrypt_def rekey_sender_def rekey_receiver_def Let_def

lemma map_sum_eq_Inl [simp]: "map_sum id f x = Inl e \<longleftrightarrow> x = Inl e"
  by (cases x) auto

section \<open>Ownership\<close>

lemma call_session_heap:
  assumes "\<And>a. p = Some a \<Longrightarrow> nw_handles w a \<noteq> None"
  shows "dom (nw_handles (snd (call_session C place c p w))) = dom (nw_handles w)"
    and "nw_invalid (snd (call_session C place c p w)) = nw_invalid w"
  by (cases c; simp add: session_defs assms op_write.call_keeps_heap op_read.call_keeps_heap
      op_complete.call_keeps_heap op_hash.call_keeps_heap op_enter.call_keeps_heap op_encrypt.call_keeps_heap
      op_decrypt.call_keeps_heap op_rekey_sender.call_keeps_heap op_rekey_receiver.call_keeps_heap)+

text \<open>Sessions are move-only owners of handles.\<close>

interpretation sessions: move_only np_objects "\<lambda>s. dom (nw_handles (np_heap s))" "\<lambda>s. nw_invalid (np_heap s)"
  move_construct move_assign destruct
  by unfold_locales
    (auto simp: move_construct_def move_assign_def destruct_def gasoline_noise_destroy_def holds_def split: option.splits)

definition owned :: "('h, 't) noise_program \<Rightarrow> bool" where
  "owned s \<longleftrightarrow> exclusive (np_objects s) (dom (nw_handles (np_heap s))) \<and> \<not> nw_invalid (np_heap s)"

lemma NoiseSession_create_cases:
  obtains (refused) e where "NoiseSession_create op init C entropy place fresh prologue w = (Inl e, w)"
  | (null) "NoiseSession_create op init C entropy place fresh prologue w = (Inr None, w)"
  | (allocated) g where "NoiseSession_create op init C entropy place fresh prologue w =
      (Inr (Some fresh), w\<lparr>nw_handles := (nw_handles w)(fresh \<mapsto> g)\<rparr>)"
  by (cases "NoiseSession_create op init C entropy place fresh prologue w")
    (auto simp: NoiseSession_create_def split: prod.splits sum.splits option.splits)

lemma owned_construct:
  assumes "owned s" and "np_objects s x = None" and "nw_handles (np_heap s) fresh = None"
  shows "owned (construct (NoiseSession_create op init C entropy place fresh prologue (np_heap s)) x s)"
proof -
  have own: "exclusive (np_objects s) (dom (nw_handles (np_heap s)))" "\<And>a. \<not> holds (np_objects s) x a"
    using assms(1,2) by (simp_all add: owned_def holds_def)
  show ?thesis
  proof (cases rule: NoiseSession_create_cases [of op init C entropy place fresh prologue "np_heap s"])
    case refused
    with assms(1) show ?thesis by (simp add: construct_def owned_def)
  next
    case null
    with assms(1) exclusive_idle [OF own, of "Some None"] show ?thesis by (simp add: construct_def owned_def)
  next
    case (allocated g)
    with assms(1,3) exclusive_acquire [OF own, of fresh] show ?thesis by (simp add: construct_def owned_def domIff)
  qed
qed

lemma owned_call: "owned s \<Longrightarrow> owned (call_object C place c x s)"
proof (cases "np_objects s x")
  case (Some p)
  assume own: "owned s"
  have alloc: "nw_handles (np_heap s) a \<noteq> None" if "p = Some a" for a
    using exclusive_live [of "np_objects s" _ x a] own Some that by (auto simp: owned_def holds_def)
  show ?thesis
    using own Some call_session_heap [of p "np_heap s" C place c, OF alloc]
    by (simp add: owned_def call_object_def)
qed (simp add: call_object_def)

lemma noise_run_owned: "noise_run C s \<Longrightarrow> owned s"
proof (induction rule: noise_run.induct)
  case noise_start
  show ?case by (simp add: owned_def exclusive_empty)
next
  case (noise_move_construct s x other)
  then show ?case by (simp add: owned_def sessions.construct_exclusive)
next
  case (noise_move_assign s x other)
  then show ?case by (simp add: owned_def sessions.assign_exclusive)
next
  case (noise_destruct s x)
  then show ?case by (simp add: owned_def sessions.destruct_exclusive)
qed (simp_all add: owned_construct initiator_def responder_def owned_call)

section \<open>Failure is terminal\<close>

lemma call_session_dead:
  assumes "nw_handles w a = Some g" and "dead g"
  shows "(\<exists>e. fst (call_session C place c (Some a) w) = Inl e) \<and>
    nw_handles (snd (call_session C place c (Some a) w)) a = Some g"
  using op_write.call_dead [OF assms] op_read.call_dead [OF assms] op_complete.call_dead [OF assms]
    op_hash.call_dead [OF assms] op_enter.call_dead [OF assms] op_encrypt.call_dead [OF assms]
    op_decrypt.call_dead [OF assms] op_rekey_sender.call_dead [OF assms] op_rekey_receiver.call_dead [OF assms]
  by (cases c) (simp_all add: session_defs assms(1))

lemma run_calls_dead:
  assumes "nw_handles w a = Some g" and "dead g" and "r \<in> set (run_calls C cs (Some a) w)"
  shows "\<exists>e. r = Inl e"
  using assms
proof (induction cs arbitrary: w)
  case (Cons pc cs)
  obtain place c where pc: "pc = (place, c)" by (cases pc)
  show ?case
    using Cons call_session_dead [OF Cons.prems(1,2), of C place c]
    by (cases "call_session C place c (Some a) w") (auto simp: pc)
qed simp

lemma call_session_panic:
  assumes "fst (call_session C place c p w) = Inl (NoiseError op NOISE_PANIC)"
  shows "\<exists>a g. p = Some a \<and> nw_handles (snd (call_session C place c p w)) a = Some g \<and> dead g"
  using assms
  by (cases c) (auto simp: session_defs split: if_splits
      dest: op_write.call_panic op_read.call_panic op_complete.call_panic op_hash.call_panic op_enter.call_panic
        op_encrypt.call_panic op_decrypt.call_panic op_rekey_sender.call_panic op_rekey_receiver.call_panic)

lemma decrypt_crypto_error:
  assumes "fst (decrypt C place ct p w) = Inl (NoiseError op NOISE_CRYPTO_ERROR)"
  shows "\<exists>a g. p = Some a \<and> nw_handles (snd (decrypt C place ct p w)) a = Some g \<and> dead g"
proof -
  let ?f = "gasoline_noise_transport_decrypt C \<lparr>cb_addr = fr_in (place (length ct) (length ct - TAG_SIZE)), cb_data = ct\<rparr>
    \<lparr>mb_addr = fr_out (place (length ct) (length ct - TAG_SIZE)), mb_capacity = length ct - TAG_SIZE\<rparr>
    (fr_len (place (length ct) (length ct - TAG_SIZE)))"
  have max: "(if length ct \<ge> TAG_SIZE then length ct - TAG_SIZE else 0) = length ct - TAG_SIZE" by simp
  have eq: "decrypt C place ct p w = apfst (take_output ''decrypt'' (length ct - TAG_SIZE)) (ffi_call ?f p w)"
    using assms unfolding decrypt_def max Let_def by (simp split: if_splits)
  obtain a g where p: "p = Some a" and g: "nw_handles w a = Some g"
    using assms op_decrypt.null_reported [of "''decrypt''" "length ct - TAG_SIZE" C]
    unfolding eq by (auto simp: ffi_call_def split: option.splits) (metis sum.inject(1) NoiseError.inject)+
  show ?thesis
    using assms p g unfolding eq
    by (auto simp: ffi_call_def gasoline_noise_transport_decrypt_def operation_simps split: operation_splits)
qed

section \<open>Messages between two sessions\<close>

text \<open>Live objects are not null, do not wrap around the address space and do not overlap.\<close>

definition place_ok :: "place \<Rightarrow> bool" where
  "place_ok place \<longleftrightarrow> (\<forall>n \<le> MAX_MESSAGE. \<forall>m \<le> MAX_MESSAGE.
     (case place n m of fr \<Rightarrow>
        valid_output_parameter (fr_len fr) \<and> valid_buffer (fr_in fr) n \<and> valid_buffer (fr_out fr) m \<and>
        \<not> ranges_overlap (fr_in fr) n (fr_out fr) m \<and> \<not> ranges_overlap (fr_in fr) n (fr_len fr) 8 \<and>
        \<not> ranges_overlap (fr_out fr) m (fr_len fr) 8))"

text \<open>
  What the library documents of the two transport states that a handshake gives: \<open>chan k q s r\<close> says that \<open>s\<close>
  can send \<open>k\<close> more messages and that the ciphertexts of \<open>q\<close>, with their plaintexts, are on their way to \<open>r\<close>.
\<close>

definition transport_contract ::
  "('h, 't) clatter \<Rightarrow> (nat \<Rightarrow> (string \<times> string) list \<Rightarrow> 't \<Rightarrow> 't \<Rightarrow> bool) \<Rightarrow> bool" where
  "transport_contract C chan \<longleftrightarrow>
     (\<forall>k q s r m cap. chan (Suc k) q s r \<and> length m \<le> MAX_PLAINTEXT \<and> length m + TAG_SIZE \<le> cap \<longrightarrow>
        (\<exists>c s1. transport_send C m cap s = (Returned c, s1) \<and> length c = length m + TAG_SIZE \<and>
           chan k (q @ [(c, m)]) s1 r)) \<and>
     (\<forall>k q s r c m cap. chan k ((c, m) # q) s r \<and> length m \<le> cap \<longrightarrow>
        (\<exists>r1. transport_receive C c cap r = (Returned m, r1) \<and> chan k q s r1))"

definition established :: "nat \<Rightarrow> 't \<Rightarrow> ('h, 't) noise_heap \<Rightarrow> bool" where
  "established a t w \<longleftrightarrow> nw_handles w a = Some \<lparr>nh_state = StTransport t, nh_poisoned = False\<rparr>"

lemma place_okD:
  assumes "place_ok place" and "n \<le> MAX_MESSAGE" and "m \<le> MAX_MESSAGE"
  shows "fr_len (place n m) \<noteq> 0" and "valid_buffer (fr_in (place n m)) n" and "valid_buffer (fr_out (place n m)) m"
    and "\<not> ranges_overlap (fr_in (place n m)) n (fr_out (place n m)) m"
  using assms unfolding place_ok_def valid_output_parameter_def by auto

lemma size_limits: "n \<le> MAX_PLAINTEXT \<longleftrightarrow> n + TAG_SIZE \<le> MAX_MESSAGE" "MAX_PLAINTEXT \<le> MAX_MESSAGE"
  by (simp_all add: MAX_PLAINTEXT_def MAX_MESSAGE_def TAG_SIZE_def)

lemma encrypt_established:
  assumes "place_ok place" and "established a t w" and "length m \<le> MAX_PLAINTEXT"
    and "transport_send C m (length m + TAG_SIZE) t = (Returned c, t1)"
  shows "encrypt C place m (Some a) w =
    (Inr c, w\<lparr>nw_handles := (nw_handles w)(a \<mapsto> \<lparr>nh_state = StTransport t1, nh_poisoned = False\<rparr>)\<rparr>)"
proof -
  have n: "length m \<le> MAX_MESSAGE" "length m + TAG_SIZE \<le> MAX_MESSAGE"
    using assms(3) size_limits by (auto intro: le_trans)
  show ?thesis
    using assms place_okD [OF assms(1) n] n
    by (simp add: encrypt_def Let_def ffi_call_def established_def gasoline_noise_transport_encrypt_def
        operation_simps)
qed

lemma decrypt_established:
  assumes "place_ok place" and "established b t w" and "length c = length m + TAG_SIZE"
    and "length m \<le> MAX_PLAINTEXT" and "transport_receive C c (length m) t = (Returned m, t1)"
  shows "decrypt C place c (Some b) w =
    (Inr m, w\<lparr>nw_handles := (nw_handles w)(b \<mapsto> \<lparr>nh_state = StTransport t1, nh_poisoned = False\<rparr>)\<rparr>)"
proof -
  have n: "length c \<le> MAX_MESSAGE" "length m \<le> MAX_MESSAGE"
    using assms(3,4) size_limits by (auto intro: le_trans)
  show ?thesis
    using assms place_okD [OF assms(1) n] n
    by (simp add: decrypt_def Let_def ffi_call_def established_def gasoline_noise_transport_decrypt_def
        operation_simps)
qed

datatype traffic = SendMessage string | DeliverNext

text \<open>One session encrypts, the other decrypts what is on its way in order, at any time.\<close>

fun exchange ::
  "('h, 't) clatter \<Rightarrow> NoiseSession \<Rightarrow> NoiseSession \<Rightarrow> (place \<times> traffic) list \<Rightarrow> string list \<Rightarrow>
   ('h, 't) noise_heap \<Rightarrow> NoiseError + string list \<times> string list" where
  "exchange C p q [] flight w = Inr ([], flight)"
| "exchange C p q ((place, SendMessage m) # es) flight w =
     (case encrypt C place m p w of
        (Inl e, _) \<Rightarrow> Inl e
      | (Inr c, w1) \<Rightarrow> exchange C p q es (flight @ [c]) w1)"
| "exchange C p q ((place, DeliverNext) # es) [] w = exchange C p q es [] w"
| "exchange C p q ((place, DeliverNext) # es) (c # flight) w =
     (case decrypt C place c q w of
        (Inl e, _) \<Rightarrow> Inl e
      | (Inr m, w1) \<Rightarrow> rbind (exchange C p q es flight w1) (\<lambda>(received, rest). Inr (m # received, rest)))"

fun sent_messages :: "(place \<times> traffic) list \<Rightarrow> string list" where
  "sent_messages [] = []"
| "sent_messages ((_, SendMessage m) # es) = m # sent_messages es"
| "sent_messages ((_, DeliverNext) # es) = sent_messages es"

lemma exchange_in_order:
  assumes "transport_contract C chan" and "a \<noteq> b"
    and "chan k q s r" and "established a s w" and "established b r w"
    and "\<forall>(place, e) \<in> set es. place_ok place"
    and "\<forall>m \<in> set (sent_messages es). length m \<le> MAX_PLAINTEXT"
    and "\<forall>(c, m) \<in> set q. length c = length m + TAG_SIZE \<and> length m \<le> MAX_PLAINTEXT"
    and "length (sent_messages es) \<le> k"
  shows "\<exists>received rest undelivered. exchange C (Some a) (Some b) es (map fst q) w = Inr (received, rest) \<and>
    map snd q @ sent_messages es = received @ undelivered \<and> length undelivered = length rest"
  using assms(3-)
proof (induction es arbitrary: k q s r w)
  case Nil
  then show ?case by simp
next
  case (Cons e es)
  obtain place t where e: "e = (place, t)" by (cases e)
  have ok: "place_ok place" using Cons.prems(4) e by simp
  show ?case
  proof (cases t)
    case (SendMessage m)
    then obtain k1 where k: "k = Suc k1" "length (sent_messages es) \<le> k1"
      using Cons.prems(7) e by (cases k) auto
    have m: "length m \<le> MAX_PLAINTEXT" using Cons.prems(5) e SendMessage by simp
    obtain c s1 where c: "transport_send C m (length m + TAG_SIZE) s = (Returned c, s1)"
      "length c = length m + TAG_SIZE" "chan k1 (q @ [(c, m)]) s1 r"
      using assms(1) Cons.prems(1) m k unfolding transport_contract_def by blast
    let ?w = "w\<lparr>nw_handles := (nw_handles w)(a \<mapsto> \<lparr>nh_state = StTransport s1, nh_poisoned = False\<rparr>)\<rparr>"
    have "\<exists>received rest undelivered.
        exchange C (Some a) (Some b) es (map fst (q @ [(c, m)])) ?w = Inr (received, rest) \<and>
        map snd (q @ [(c, m)]) @ sent_messages es = received @ undelivered \<and> length undelivered = length rest"
      using Cons.prems(3-6) assms(2) m c k(2) e SendMessage
      by (intro Cons.IH [OF c(3)]) (auto simp: established_def)
    then show ?thesis
      using encrypt_established [OF ok Cons.prems(2) m c(1)] by (simp add: e SendMessage)
  next
    case DeliverNext
    show ?thesis
    proof (cases q)
      case Nil
      then show ?thesis using Cons.prems Cons.IH [of k "[]" s r w] by (auto simp: e DeliverNext)
    next
      case (Cons cm q1)
      obtain c m where cm: "cm = (c, m)" by (cases cm)
      have len: "length c = length m + TAG_SIZE" "length m \<le> MAX_PLAINTEXT"
        using Cons.prems(6) Cons cm by auto
      obtain r1 where r1: "transport_receive C c (length m) r = (Returned m, r1)" "chan k q1 s r1"
        using assms(1) Cons.prems(1) Cons cm unfolding transport_contract_def by blast
      let ?w = "w\<lparr>nw_handles := (nw_handles w)(b \<mapsto> \<lparr>nh_state = StTransport r1, nh_poisoned = False\<rparr>)\<rparr>"
      have "\<exists>received rest undelivered.
          exchange C (Some a) (Some b) es (map fst q1) ?w = Inr (received, rest) \<and>
          map snd q1 @ sent_messages es = received @ undelivered \<and> length undelivered = length rest"
        using Cons.prems(2-7) assms(2) Cons e DeliverNext
        by (intro Cons.IH [OF r1(2)]) (auto simp: established_def)
      then show ?thesis
        using decrypt_established [OF ok Cons.prems(3) len r1(1)] by (auto simp: e DeliverNext Cons cm)
    qed
  qed
qed

section \<open>Properties\<close>

text \<open>A cipher that appends a constant tag, to run the definitions on concrete inputs.\<close>

definition plain_clatter :: "(unit, nat) clatter" where
  "plain_clatter =
     \<lparr>handshake_new = (\<lambda>_ _ _. Returned ()), get_next_message_overhead = (\<lambda>_. Returned 0),
      write_message = (\<lambda>m _ hs. (Returned m, hs)), read_message = (\<lambda>m _ hs. (Returned m, hs)),
      is_finished = (\<lambda>_. True), get_hash = (\<lambda>_. replicate 32 (CHR ''h'')), finalize_handshake = (\<lambda>_. Returned 0),
      transport_send = (\<lambda>m _ n. (Returned (m @ replicate 16 (CHR ''t'')), Suc n)),
      transport_receive = (\<lambda>c _ n.
        if drop (length c - 16) c = replicate 16 (CHR ''t'') then (Returned (take (length c - 16) c), Suc n)
        else (Failing TrCipher, n)),
      get_handshake_hash = (\<lambda>_. replicate 32 (CHR ''h'')),
      transport_rekey_sender = (\<lambda>n. (Returned (), n)), transport_rekey_receiver = (\<lambda>n. (Returned (), n))\<rparr>"

definition plain_chan :: "nat \<Rightarrow> (string \<times> string) list \<Rightarrow> nat \<Rightarrow> nat \<Rightarrow> bool" where
  "plain_chan k q s r \<longleftrightarrow> (\<forall>(c, m) \<in> set q. c = m @ replicate 16 (CHR ''t''))"

definition sample_place :: place where
  "sample_place n m = \<lparr>fr_in = 1048576, fr_out = 2097152, fr_len = 4194304\<rparr>"

definition sample_sessions :: "(unit, nat) noise_heap" where
  "sample_sessions =
     \<lparr>nw_handles = [7 \<mapsto> \<lparr>nh_state = StTransport 0, nh_poisoned = False\<rparr>,
                   8 \<mapsto> \<lparr>nh_state = StTransport 0, nh_poisoned = False\<rparr>], nw_invalid = False\<rparr>"

lemma sample_place_ok: "place_ok sample_place"
  by (auto simp: place_ok_def sample_place_def valid_output_parameter_def valid_buffer_def checked_add_def
      ranges_overlap_def MAX_MESSAGE_def)

lemma plain_contract: "transport_contract plain_clatter plain_chan"
  by (auto simp: transport_contract_def plain_clatter_def plain_chan_def TAG_SIZE_def)

text \<open>C19. A program may construct sessions, move them, assign over them (also to themselves), use and destroy
  them in any order: no freed or foreign handle is ever passed to the library, and at every moment
  each allocated handle belongs to exactly one session object, so none is leaked and none freed twice.\<close>

theorem noise_handles_owned:
  assumes "noise_run C s"
  shows "\<not> nw_invalid (np_heap s) \<and>
    (\<forall>a. nw_handles (np_heap s) a \<noteq> None \<longleftrightarrow> (\<exists>!x. np_objects s x = Some (Some a)))"
proof -
  have own: "exclusive (np_objects s) (dom (nw_handles (np_heap s)))" "\<not> nw_invalid (np_heap s)"
    using noise_run_owned [OF assms] by (simp_all add: owned_def)
  then show ?thesis using exclusive_unique [OF own(1)] by (simp add: domIff)
qed

definition sample_program :: "(unit, nat) noise_program" where
  "sample_program =
     (let s0 = \<lparr>np_objects = Map.empty, np_heap = \<lparr>nw_handles = Map.empty, nw_invalid = False\<rparr>\<rparr>;
          s1 = construct (initiator plain_clatter ''e'' sample_place 7 ''p'' (np_heap s0)) 0 s0;
          s2 = construct (responder plain_clatter ''f'' sample_place 8 ''p'' (np_heap s1)) 1 s1
      in move_assign 0 1 s2)"

lemma sample_program_run: "noise_run plain_clatter sample_program"
proof -
  let ?s0 = "\<lparr>np_objects = Map.empty, np_heap = \<lparr>nw_handles = Map.empty, nw_invalid = False\<rparr>\<rparr> :: (unit, nat) noise_program"
  let ?s1 = "construct (initiator plain_clatter ''e'' sample_place 7 ''p'' (np_heap ?s0)) 0 ?s0"
  have "noise_run plain_clatter ?s1"
    by (intro noise_initiator noise_start) simp_all
  then have "noise_run plain_clatter (construct (responder plain_clatter ''f'' sample_place 8 ''p'' (np_heap ?s1)) 1 ?s1)"
    by (rule noise_responder)
      (simp_all add: construct_def initiator_def NoiseSession_create_def noise_create_def plain_clatter_def
        MAX_PROLOGUE_def valid_buffer_def sample_place_def checked_add_def check_def)
  then show ?thesis unfolding sample_program_def Let_def by (rule noise_move_assign)
qed

theorem noise_handles_owned_witness:
  "\<not> nw_invalid (np_heap sample_program) \<and>
   (nw_handles (np_heap sample_program) 8 \<noteq> None \<longleftrightarrow> (\<exists>!x. np_objects sample_program x = Some (Some 8)))"
  using noise_handles_owned [OF sample_program_run] by simp

text \<open>C18. When decrypting reports a cryptographic error, or any operation a contained panic, every later
  operation on that session fails, whatever its arguments: nothing is encrypted or decrypted again.\<close>

theorem noise_failure_terminal:
  assumes "fst (call_session C place c p w) = Inl (NoiseError op e)"
    and "e = NOISE_PANIC \<or> e = NOISE_CRYPTO_ERROR \<and> c = Decrypt ct"
    and "r \<in> set (run_calls C cs p (snd (call_session C place c p w)))"
  shows "\<not> is_ok r"
proof -
  have "\<exists>a g. p = Some a \<and> nw_handles (snd (call_session C place c p w)) a = Some g \<and> dead g"
  proof (cases "e = NOISE_PANIC")
    case True
    then show ?thesis using assms(1) call_session_panic by blast
  next
    case False
    then have c: "c = Decrypt ct" "e = NOISE_CRYPTO_ERROR" using assms(2) by auto
    then have "fst (decrypt C place ct p w) = Inl (NoiseError op NOISE_CRYPTO_ERROR)"
      using assms(1) by (simp add: call_session_def)
    then show ?thesis using c(1) decrypt_crypto_error by (fastforce simp: call_session_def)
  qed
  then obtain a g where "p = Some a" "nw_handles (snd (call_session C place c p w)) a = Some g" "dead g" by blast
  then show ?thesis using run_calls_dead assms(3) by fastforce
qed

theorem noise_failure_terminal_witness:
  "\<not> is_ok (run_calls plain_clatter [(sample_place, Encrypt ''later'')] (Some 7)
     (snd (call_session plain_clatter sample_place (Decrypt (replicate 17 (CHR ''x''))) (Some 7) sample_sessions)) ! 0)"
proof (rule noise_failure_terminal [where e = NOISE_CRYPTO_ERROR and cs = "[(sample_place, Encrypt ''later'')]" and
      ct = "replicate 17 (CHR ''x'')"])
  show "fst (call_session plain_clatter sample_place (Decrypt (replicate 17 (CHR ''x''))) (Some 7) sample_sessions) =
      Inl (NoiseError ''decrypt'' NOISE_CRYPTO_ERROR)"
    by (simp add: session_defs ffi_call_def sample_sessions_def gasoline_noise_transport_decrypt_def operation_simps
        sample_place_def valid_buffer_def checked_add_def ranges_overlap_def plain_clatter_def MAX_MESSAGE_def
        MAX_PLAINTEXT_def TAG_SIZE_def map_transport_error_def replicate_eq_replicate)
qed (simp_all split: prod.splits)

text \<open>C20. Two sessions in the transport phase whose library states belong together: messages of at most 65519 bytes
  sent by one and delivered to the other in order, at any time, never fail and arrive unchanged and in the order sent;
  what was not received is still on its way.\<close>

theorem noise_messages_delivered:
  assumes "transport_contract C chan" and "chan k [] s r" and "a \<noteq> b"
    and "established a s w" and "established b r w"
    and "\<forall>(place, e) \<in> set es. place_ok place"
    and "\<forall>m \<in> set (sent_messages es). length m \<le> MAX_PLAINTEXT"
    and "length (sent_messages es) \<le> k"
  shows "\<exists>received rest. exchange C (Some a) (Some b) es [] w = Inr (received, rest) \<and>
    received = take (length received) (sent_messages es) \<and>
    length received + length rest = length (sent_messages es)"
  using exchange_in_order [OF assms(1) assms(3) assms(2) assms(4-7)] assms(8) by fastforce

theorem noise_messages_delivered_witness:
  "\<exists>received rest. exchange plain_clatter (Some 7) (Some 8)
       [(sample_place, SendMessage ''one''), (sample_place, SendMessage []), (sample_place, DeliverNext)] []
       sample_sessions = Inr (received, rest) \<and>
     received = take (length received) [''one'', []] \<and> length received + length rest = 2"
  using noise_messages_delivered [OF plain_contract, of 2 0 0 7 8 sample_sessions
      "[(sample_place, SendMessage ''one''), (sample_place, SendMessage []), (sample_place, DeliverNext)]"]
  by (simp add: plain_chan_def established_def sample_sessions_def sample_place_ok MAX_PLAINTEXT_def numeral_2_eq_2)

end
