(* ===== verification/Avahi.thy ===== *)
theory Avahi
  imports Discovery
begin

text \<open>
  Discovery on the local network: \<open>src/platform/linux/discovery/avahi_browser.{hpp,cpp}\<close> and
  \<open>avahi_publisher.{hpp,cpp}\<close>, and \<open>src/core/discovery/discovery_service.cpp\<close>.  The Avahi client library is
  modelled by the objects it has handed out: a call on an object that does not exist (any more) is
  undefined behaviour and sets \<open>av_invalid\<close>.  Whether a creating call succeeds, and the address it
  returns, is an answer of the environment; the events that the library reports to the callbacks are
  a list, and \<open>start\<close> blocks until the loop is asked to quit or the events end.  Its text
  functions are parameters.  A log line only matters for the calls it makes.
\<close>

section \<open>The client library\<close>

record avahi_service =
  as_name :: string
  as_type :: string
  as_port :: "16 word"
  as_txt :: "string list"

text \<open>Each object names the object it was created from; a group has its services and whether it is committed.\<close>

datatype avahi_object =
    APoll
  | AClient nat
  | AServiceBrowser nat
  | AResolver nat
  | AGroup nat "avahi_service list" bool

record avahi =
  av_objects :: "nat \<Rightarrow> avahi_object option"
  av_quit :: bool
  av_invalid :: bool

datatype AvahiProtocol = AVAHI_PROTO_INET | AVAHI_PROTO_INET6

record AvahiAddress =
  aa_proto :: AvahiProtocol
  aa_data :: string

record avahi_api =
  avahi_address_snprint :: "AvahiAddress \<Rightarrow> string"
  avahi_string_list_find :: "string list \<Rightarrow> string \<Rightarrow> string option"
  avahi_string_list_get_pair :: "string \<Rightarrow> (string \<times> string option) option"
  avahi_string_list_add_pair :: "string list \<Rightarrow> string \<Rightarrow> string \<Rightarrow> string list"

definition use_object :: "nat option \<Rightarrow> avahi \<Rightarrow> avahi" where
  "use_object p av =
     (case p of
        None \<Rightarrow> av\<lparr>av_invalid := True\<rparr>
      | Some a \<Rightarrow> if av_objects av a = None then av\<lparr>av_invalid := True\<rparr> else av)"

text \<open>A creating call; the allocator does not return the address of a living object.\<close>

definition new_object :: "nat option \<Rightarrow> avahi_object \<Rightarrow> avahi \<Rightarrow> nat option \<times> avahi" where
  "new_object answer obj av =
     (case answer of
        None \<Rightarrow> (None, av)
      | Some a \<Rightarrow>
          if av_objects av a \<noteq> None then (None, av)
          else (Some a, av\<lparr>av_objects := (av_objects av)(a \<mapsto> obj)\<rparr>))"

definition free_object :: "nat \<Rightarrow> avahi \<Rightarrow> avahi" where
  "free_object a av =
     (case use_object (Some a) av of av1 \<Rightarrow> av1\<lparr>av_objects := (av_objects av1)(a := None)\<rparr>)"

text \<open>Freeing a client frees what was created from it.\<close>

definition child_of :: "nat \<Rightarrow> avahi_object \<Rightarrow> bool" where
  "child_of c obj =
     (case obj of AServiceBrowser d \<Rightarrow> d = c | AResolver d \<Rightarrow> d = c | AGroup d _ _ \<Rightarrow> d = c | _ \<Rightarrow> False)"

definition avahi_client_free :: "nat \<Rightarrow> avahi \<Rightarrow> avahi" where
  "avahi_client_free c av =
     free_object c (av\<lparr>av_objects := (\<lambda>a.
       case av_objects av a of None \<Rightarrow> None | Some obj \<Rightarrow> if child_of c obj then None else Some obj)\<rparr>)"

definition avahi_simple_poll_quit :: "nat \<Rightarrow> avahi \<Rightarrow> avahi" where
  "avahi_simple_poll_quit a av = (use_object (Some a) av)\<lparr>av_quit := True\<rparr>"

definition avahi_simple_poll_new :: "nat option \<Rightarrow> avahi \<Rightarrow> nat option \<times> avahi" where
  "avahi_simple_poll_new answer av =
     (case new_object answer APoll av of
        (None, av1) \<Rightarrow> (None, av1)
      | (Some a, av1) \<Rightarrow> (Some a, av1\<lparr>av_quit := False\<rparr>))"

datatype AvahiClientState = S_RUNNING | CLIENT_FAILURE | S_COLLISION | S_REGISTERING | CLIENT_CONNECTING

datatype AvahiBrowserEvent = BROWSER_NEW | BROWSER_REMOVE | BROWSER_FAILURE | BROWSER_ALL_FOR_NOW | BROWSER_CACHE_EXHAUSTED

datatype AvahiEntryGroupState = GROUP_ESTABLISHED | GROUP_COLLISION | GROUP_FAILURE | GROUP_UNCOMMITED | GROUP_REGISTERING

text \<open>\<open>avahi_simple_poll_loop\<close>: dispatches events until it was asked to quit.\<close>

fun avahi_simple_poll_loop :: "('s \<Rightarrow> avahi) \<Rightarrow> ('e \<Rightarrow> 's \<Rightarrow> 's) \<Rightarrow> 'e list \<Rightarrow> 's \<Rightarrow> 's" where
  "avahi_simple_poll_loop lib dispatch [] s = s"
| "avahi_simple_poll_loop lib dispatch (e # es) s =
     (if av_quit (lib s) then s else avahi_simple_poll_loop lib dispatch es (dispatch e s))"

section \<open>The browser\<close>

text \<open>\<open>ab_delivered\<close> has the devices passed to the callback.\<close>

record AvahiBrowser =
  ab_callback :: bool
  ab_simple_poll :: "nat option"
  ab_client :: "nat option"
  ab_browser :: "nat option"
  ab_running :: bool
  ab_delivered :: "DiscoveredDevice list"
  ab_lib :: avahi

definition on_lib :: "(avahi \<Rightarrow> avahi) \<Rightarrow> AvahiBrowser \<Rightarrow> AvahiBrowser" where
  "on_lib f s = s\<lparr>ab_lib := f (ab_lib s)\<rparr>"

text \<open>\<open>stop\<close> may be called by another thread: the flag and the pointer are read first.\<close>

definition browser_stop_begin :: "AvahiBrowser \<Rightarrow> nat option \<times> AvahiBrowser" where
  "browser_stop_begin s = (if ab_running s then ab_simple_poll s else None, s\<lparr>ab_running := False\<rparr>)"

definition browser_stop_end :: "nat option \<Rightarrow> AvahiBrowser \<Rightarrow> AvahiBrowser" where
  "browser_stop_end p s = (case p of None \<Rightarrow> s | Some a \<Rightarrow> on_lib (avahi_simple_poll_quit a) s)"

definition browser_stop :: "AvahiBrowser \<Rightarrow> AvahiBrowser" where
  "browser_stop s = (case browser_stop_begin s of (p, s1) \<Rightarrow> browser_stop_end p s1)"

definition browser_cleanup :: "AvahiBrowser \<Rightarrow> AvahiBrowser" where
  "browser_cleanup s =
     (let s1 = (case ab_browser s of None \<Rightarrow> s | Some b \<Rightarrow> (on_lib (free_object b) s)\<lparr>ab_browser := None\<rparr>);
          s2 = (case ab_client s1 of None \<Rightarrow> s1 | Some c \<Rightarrow> (on_lib (avahi_client_free c) s1)\<lparr>ab_client := None\<rparr>)
      in case ab_simple_poll s2 of
           None \<Rightarrow> s2
         | Some p \<Rightarrow> (on_lib (free_object p) s2)\<lparr>ab_simple_poll := None\<rparr>)"

definition quit_browser_poll :: "AvahiBrowser \<Rightarrow> AvahiBrowser" where
  "quit_browser_poll s =
     (case ab_simple_poll s of None \<Rightarrow> s | Some p \<Rightarrow> on_lib (avahi_simple_poll_quit p) s)"

text \<open>What a resolver reports.\<close>

record resolution =
  rs_found :: bool
  rs_name :: "string option"
  rs_address :: "AvahiAddress option"
  rs_port :: "16 word"
  rs_txt :: "string list option"

definition peer_device_id :: "avahi_api \<Rightarrow> string list option \<Rightarrow> string" where
  "peer_device_id A txt =
     (case txt of
        None \<Rightarrow> []
      | Some l \<Rightarrow>
          (case avahi_string_list_find A l ''device_id'' of
             None \<Rightarrow> []
           | Some entry \<Rightarrow>
               (case avahi_string_list_get_pair A entry of
                  None \<Rightarrow> []
                | Some (key, val) \<Rightarrow> (case val of None \<Rightarrow> [] | Some v \<Rightarrow> v))))"

text \<open>The device that a resolution is turned into, if it passes every filter.\<close>

definition resolved_device :: "avahi_api \<Rightarrow> resolution \<Rightarrow> DiscoveredDevice option" where
  "resolved_device A r =
     (case rs_address r of
        None \<Rightarrow> None
      | Some address \<Rightarrow>
          if aa_proto address \<noteq> AVAHI_PROTO_INET then None
          else let ip = avahi_address_snprint A address in
            if ip = ''127.0.0.1'' then None
            else if peer_device_id A (rs_txt r) = [] then None
            else Some \<lparr>dd_device_id = peer_device_id A (rs_txt r),
                       dd_device_name = (case rs_name r of None \<Rightarrow> ''unknown'' | Some n \<Rightarrow> n),
                       dd_ip_address = ip, dd_port = rs_port r\<rparr>)"

text \<open>The guard frees the resolver on every path.\<close>

definition resolve_callback :: "avahi_api \<Rightarrow> nat \<Rightarrow> resolution \<Rightarrow> AvahiBrowser \<Rightarrow> AvahiBrowser" where
  "resolve_callback A r res s =
     on_lib (free_object r)
       (if \<not> rs_found res
        then (case ab_client s of None \<Rightarrow> s | Some c \<Rightarrow> on_lib (use_object (Some c)) s)
        else case resolved_device A res of
               None \<Rightarrow> s
             | Some device \<Rightarrow> if ab_callback s then s\<lparr>ab_delivered := ab_delivered s @ [device]\<rparr> else s)"

definition browse_callback :: "AvahiBrowserEvent \<Rightarrow> nat option \<Rightarrow> AvahiBrowser \<Rightarrow> AvahiBrowser" where
  "browse_callback event answer s =
     (case event of
        BROWSER_NEW \<Rightarrow>
          (let s1 = on_lib (use_object (ab_client s)) s
           in case new_object answer (AResolver (case ab_client s of None \<Rightarrow> 0 | Some c \<Rightarrow> c)) (ab_lib s1) of
                (None, av) \<Rightarrow> on_lib (use_object (ab_client s)) (s1\<lparr>ab_lib := av\<rparr>)
              | (Some _, av) \<Rightarrow> s1\<lparr>ab_lib := av\<rparr>)
      | BROWSER_REMOVE \<Rightarrow> s
      | BROWSER_FAILURE \<Rightarrow> quit_browser_poll (on_lib (use_object (ab_client s)) s)
      | BROWSER_ALL_FOR_NOW \<Rightarrow> s
      | BROWSER_CACHE_EXHAUSTED \<Rightarrow> s)"

definition browser_client_callback :: "nat \<Rightarrow> AvahiClientState \<Rightarrow> nat option \<Rightarrow> AvahiBrowser \<Rightarrow> AvahiBrowser" where
  "browser_client_callback client st answer s =
     (let s1 = s\<lparr>ab_client := Some client\<rparr>
      in case st of
           S_RUNNING \<Rightarrow>
             (let s2 = (case ab_browser s1 of None \<Rightarrow> s1 | Some b \<Rightarrow> (on_lib (free_object b) s1)\<lparr>ab_browser := None\<rparr>);
                  s3 = on_lib (use_object (Some client)) s2
              in case new_object answer (AServiceBrowser client) (ab_lib s3) of
                   (None, av) \<Rightarrow> on_lib (use_object (Some client)) (s3\<lparr>ab_browser := None, ab_lib := av\<rparr>)
                 | (Some b, av) \<Rightarrow> s3\<lparr>ab_browser := Some b, ab_lib := av\<rparr>)
         | CLIENT_FAILURE \<Rightarrow> quit_browser_poll (on_lib (use_object (Some client)) s1)
         | S_COLLISION \<Rightarrow> s1
         | S_REGISTERING \<Rightarrow> s1
         | CLIENT_CONNECTING \<Rightarrow> s1)"

text \<open>
  The events of the loop.  The library calls back for living objects only: a resolver reports once
  and then is freed, so a report for anything else does not happen.
\<close>

datatype browser_event =
    BrowserClient AvahiClientState "nat option"
  | BrowserBrowse AvahiBrowserEvent "nat option"
  | BrowserResolve nat resolution
  | BrowserStop

definition browser_dispatch :: "avahi_api \<Rightarrow> browser_event \<Rightarrow> AvahiBrowser \<Rightarrow> AvahiBrowser" where
  "browser_dispatch A e s =
     (case e of
        BrowserClient st answer \<Rightarrow>
          (case ab_client s of None \<Rightarrow> s | Some c \<Rightarrow> browser_client_callback c st answer s)
      | BrowserBrowse event answer \<Rightarrow>
          (case ab_browser s of None \<Rightarrow> s | Some _ \<Rightarrow> browse_callback event answer s)
      | BrowserResolve r res \<Rightarrow>
          (case av_objects (ab_lib s) r of Some (AResolver _) \<Rightarrow> resolve_callback A r res s | _ \<Rightarrow> s)
      | BrowserStop \<Rightarrow> browser_stop s)"

text \<open>
  Answers for a start: the poll object, the client with the states it reports before
  \<open>avahi_client_new\<close> returns, and the events of the loop.
\<close>

record start_answers =
  sn_poll :: "nat option"
  sn_client :: "nat option"
  sn_states :: "(AvahiClientState \<times> nat option) list"

text \<open>\<open>start\<close> up to the loop: whether it goes on, and the state.\<close>

definition browser_open :: "bool \<Rightarrow> start_answers \<Rightarrow> AvahiBrowser \<Rightarrow> bool \<times> AvahiBrowser" where
  "browser_open callback sn s =
     (let s1 = browser_cleanup (s\<lparr>ab_callback := callback\<rparr>)
      in case avahi_simple_poll_new (sn_poll sn) (ab_lib s1) of
           (None, av) \<Rightarrow> (False, s1\<lparr>ab_simple_poll := None, ab_lib := av\<rparr>)
         | (Some p, av) \<Rightarrow>
             (let s2 = s1\<lparr>ab_simple_poll := Some p, ab_lib := use_object (Some p) av\<rparr>
              in case new_object (sn_client sn) (AClient p) (ab_lib s2) of
                   (None, av2) \<Rightarrow> (False, browser_cleanup (s2\<lparr>ab_client := None, ab_lib := av2\<rparr>))
                 | (Some c, av2) \<Rightarrow>
                     (let s3 = fold (\<lambda>(st, answer). browser_client_callback c st answer) (sn_states sn)
                                 (s2\<lparr>ab_lib := av2\<rparr>)
                      in (True, s3\<lparr>ab_client := Some c, ab_running := True\<rparr>))))"

definition browser_start ::
  "avahi_api \<Rightarrow> bool \<Rightarrow> start_answers \<Rightarrow> browser_event list \<Rightarrow> AvahiBrowser \<Rightarrow> bool \<times> AvahiBrowser" where
  "browser_start A callback sn events s =
     (case browser_open callback sn s of
        (False, s1) \<Rightarrow> (False, s1)
      | (True, s1) \<Rightarrow>
          (True, browser_cleanup (avahi_simple_poll_loop ab_lib (browser_dispatch A) events
             (on_lib (use_object (ab_simple_poll s1)) s1))))"

section \<open>The publisher\<close>

record AvahiPublisher =
  pb_device_id :: string
  pb_port :: "16 word"
  pb_simple_poll :: "nat option"
  pb_client :: "nat option"
  pb_entry_group :: "nat option"
  pb_running :: bool
  pb_lib :: avahi

definition on_publisher_lib :: "(avahi \<Rightarrow> avahi) \<Rightarrow> AvahiPublisher \<Rightarrow> AvahiPublisher" where
  "on_publisher_lib f s = s\<lparr>pb_lib := f (pb_lib s)\<rparr>"

definition publisher_stop :: "AvahiPublisher \<Rightarrow> AvahiPublisher" where
  "publisher_stop s =
     (let s1 = s\<lparr>pb_running := False\<rparr>
      in if pb_running s
         then (case pb_simple_poll s of None \<Rightarrow> s1 | Some p \<Rightarrow> on_publisher_lib (avahi_simple_poll_quit p) s1)
         else s1)"

text \<open>Changing the services of a group.\<close>

definition set_group :: "nat \<Rightarrow> (avahi_service list \<Rightarrow> avahi_service list) \<Rightarrow> bool \<Rightarrow> avahi \<Rightarrow> avahi" where
  "set_group g f commit av =
     (case av_objects av g of
        Some (AGroup c svcs _) \<Rightarrow> av\<lparr>av_objects := (av_objects av)(g \<mapsto> AGroup c (f svcs) commit)\<rparr>
      | _ \<Rightarrow> av\<lparr>av_invalid := True\<rparr>)"

definition reset_services :: "AvahiPublisher \<Rightarrow> AvahiPublisher" where
  "reset_services s =
     (case pb_entry_group s of
        None \<Rightarrow> s
      | Some g \<Rightarrow>
          (on_publisher_lib (free_object g) (on_publisher_lib (set_group g (\<lambda>_. []) False) s))
            \<lparr>pb_entry_group := None\<rparr>)"

definition publisher_cleanup :: "AvahiPublisher \<Rightarrow> AvahiPublisher" where
  "publisher_cleanup s =
     (let s1 = reset_services s;
          s2 = (case pb_client s1 of
                  None \<Rightarrow> s1
                | Some c \<Rightarrow> (on_publisher_lib (avahi_client_free c) s1)\<lparr>pb_client := None\<rparr>)
      in case pb_simple_poll s2 of
           None \<Rightarrow> s2
         | Some p \<Rightarrow> (on_publisher_lib (free_object p) s2)\<lparr>pb_simple_poll := None\<rparr>)"

text \<open>\<open>c_str()\<close>: the library reads up to the first null character.\<close>

definition c_str :: "string \<Rightarrow> string" where
  "c_str s = takeWhile (\<lambda>c. c \<noteq> CHR 0x00) s"

definition own_service :: "avahi_api \<Rightarrow> string \<Rightarrow> 16 word \<Rightarrow> avahi_service" where
  "own_service A device_id port =
     \<lparr>as_name = c_str (''Gasoline-'' @ device_id), as_type = ''_gasoline._tcp'', as_port = port,
      as_txt = avahi_string_list_add_pair A [] ''device_id'' (c_str device_id)\<rparr>"

text \<open>
  Answers for \<open>create_services\<close>: the new group, a failure of the emptiness query (a negative
  number, which counts as true), and the results of adding and committing.
\<close>

record group_answers =
  ga_new :: "nat option"
  ga_query_fails :: bool
  ga_add :: int
  ga_commit :: int

definition group_is_empty :: "nat \<Rightarrow> avahi \<Rightarrow> bool" where
  "group_is_empty g av = (case av_objects av g of Some (AGroup _ svcs _) \<Rightarrow> svcs = [] | _ \<Rightarrow> True)"

definition add_services :: "avahi_api \<Rightarrow> group_answers \<Rightarrow> nat \<Rightarrow> AvahiPublisher \<Rightarrow> AvahiPublisher" where
  "add_services A ga g s =
     (let s1 = on_publisher_lib (use_object (Some g)) s
      in if ga_query_fails ga \<or> group_is_empty g (pb_lib s1)
         then if ga_add ga < 0 then reset_services s1
              else let s2 = on_publisher_lib
                              (set_group g (\<lambda>svcs. svcs @ [own_service A (pb_device_id s1) (pb_port s1)]) False) s1
                   in if ga_commit ga < 0 then reset_services s2
                      else on_publisher_lib (set_group g (\<lambda>svcs. svcs) True) s2
         else s1)"

definition create_services :: "avahi_api \<Rightarrow> group_answers \<Rightarrow> AvahiPublisher \<Rightarrow> AvahiPublisher" where
  "create_services A ga s =
     (case pb_client s of
        None \<Rightarrow> s
      | Some c \<Rightarrow>
          (case pb_entry_group s of
             Some g \<Rightarrow> add_services A ga g s
           | None \<Rightarrow>
               (let s1 = on_publisher_lib (use_object (Some c)) s
                in case new_object (ga_new ga) (AGroup c [] False) (pb_lib s1) of
                     (None, av) \<Rightarrow> on_publisher_lib (use_object (Some c)) (s1\<lparr>pb_entry_group := None, pb_lib := av\<rparr>)
                   | (Some g, av) \<Rightarrow> add_services A ga g (s1\<lparr>pb_entry_group := Some g, pb_lib := av\<rparr>))))"

definition quit_publisher_poll :: "AvahiPublisher \<Rightarrow> AvahiPublisher" where
  "quit_publisher_poll s =
     (case pb_simple_poll s of None \<Rightarrow> s | Some p \<Rightarrow> on_publisher_lib (avahi_simple_poll_quit p) s)"

definition entry_group_callback :: "nat \<Rightarrow> AvahiEntryGroupState \<Rightarrow> AvahiPublisher \<Rightarrow> AvahiPublisher" where
  "entry_group_callback g st s =
     (case st of
        GROUP_ESTABLISHED \<Rightarrow> s
      | GROUP_COLLISION \<Rightarrow> s
      | GROUP_FAILURE \<Rightarrow> quit_publisher_poll (on_publisher_lib (use_object (Some g)) s)
      | GROUP_UNCOMMITED \<Rightarrow> s
      | GROUP_REGISTERING \<Rightarrow> s)"

definition publisher_client_callback ::
  "avahi_api \<Rightarrow> nat \<Rightarrow> AvahiClientState \<Rightarrow> group_answers \<Rightarrow> AvahiPublisher \<Rightarrow> AvahiPublisher" where
  "publisher_client_callback A client st ga s =
     (let s1 = s\<lparr>pb_client := Some client\<rparr>
      in case st of
           S_RUNNING \<Rightarrow> create_services A ga s1
         | S_COLLISION \<Rightarrow> reset_services s1
         | S_REGISTERING \<Rightarrow> reset_services s1
         | CLIENT_FAILURE \<Rightarrow> quit_publisher_poll (on_publisher_lib (use_object (Some client)) s1)
         | CLIENT_CONNECTING \<Rightarrow> s1)"

datatype publisher_event =
    PublisherClient AvahiClientState group_answers
  | PublisherGroup AvahiEntryGroupState
  | PublisherStop

definition publisher_dispatch :: "avahi_api \<Rightarrow> publisher_event \<Rightarrow> AvahiPublisher \<Rightarrow> AvahiPublisher" where
  "publisher_dispatch A e s =
     (case e of
        PublisherClient st ga \<Rightarrow>
          (case pb_client s of None \<Rightarrow> s | Some c \<Rightarrow> publisher_client_callback A c st ga s)
      | PublisherGroup st \<Rightarrow>
          (case pb_entry_group s of None \<Rightarrow> s | Some g \<Rightarrow> entry_group_callback g st s)
      | PublisherStop \<Rightarrow> publisher_stop s)"

record publish_answers =
  pn_poll :: "nat option"
  pn_client :: "nat option"
  pn_states :: "(AvahiClientState \<times> group_answers) list"

definition publisher_open ::
  "avahi_api \<Rightarrow> string \<Rightarrow> 16 word \<Rightarrow> publish_answers \<Rightarrow> AvahiPublisher \<Rightarrow> bool \<times> AvahiPublisher" where
  "publisher_open A device_id port pn s =
     (let s1 = publisher_cleanup (s\<lparr>pb_device_id := device_id, pb_port := port\<rparr>)
      in case avahi_simple_poll_new (pn_poll pn) (pb_lib s1) of
           (None, av) \<Rightarrow> (False, s1\<lparr>pb_simple_poll := None, pb_lib := av\<rparr>)
         | (Some p, av) \<Rightarrow>
             (let s2 = s1\<lparr>pb_simple_poll := Some p, pb_lib := use_object (Some p) av\<rparr>
              in case new_object (pn_client pn) (AClient p) (pb_lib s2) of
                   (None, av2) \<Rightarrow> (False, publisher_cleanup (s2\<lparr>pb_client := None, pb_lib := av2\<rparr>))
                 | (Some c, av2) \<Rightarrow>
                     (let s3 = fold (\<lambda>(st, ga). publisher_client_callback A c st ga) (pn_states pn)
                                 (s2\<lparr>pb_lib := av2\<rparr>)
                      in (True, s3\<lparr>pb_client := Some c, pb_running := True\<rparr>))))"

definition publisher_start ::
  "avahi_api \<Rightarrow> string \<Rightarrow> 16 word \<Rightarrow> publish_answers \<Rightarrow> publisher_event list \<Rightarrow> AvahiPublisher \<Rightarrow>
   bool \<times> AvahiPublisher" where
  "publisher_start A device_id port pn events s =
     (case publisher_open A device_id port pn s of
        (False, s1) \<Rightarrow> (False, s1)
      | (True, s1) \<Rightarrow>
          (True, publisher_cleanup (avahi_simple_poll_loop pb_lib (publisher_dispatch A) events
             (on_publisher_lib (use_object (pb_simple_poll s1)) s1))))"

text \<open>\<open>DiscoveryService::start\<close> advertises the daemon's own device on \<open>SERVER_PORT\<close>.\<close>

definition SERVER_PORT :: int where "SERVER_PORT = 42666"

definition discovery_service_start ::
  "avahi_api \<Rightarrow> string \<Rightarrow> publish_answers \<Rightarrow> publisher_event list \<Rightarrow> AvahiPublisher option \<Rightarrow>
   AvahiPublisher option" where
  "discovery_service_start A my_id pn events publisher =
     (case publisher of
        None \<Rightarrow> None
      | Some s \<Rightarrow> Some (snd (publisher_start A my_id (word_of_int SERVER_PORT) pn events s)))"

definition discovery_service_stop :: "AvahiPublisher option \<Rightarrow> AvahiPublisher option" where
  "discovery_service_stop publisher = map_option publisher_stop publisher"

section \<open>The discovery client and its browser\<close>

text \<open>The objects that the factory makes, on a library in a given state.\<close>

definition create_platform_discovery_publisher :: "avahi \<Rightarrow> AvahiPublisher" where
  "create_platform_discovery_publisher lib =
     \<lparr>pb_device_id = [], pb_port = 0, pb_simple_poll = None, pb_client = None, pb_entry_group = None,
      pb_running = False, pb_lib = lib\<rparr>"

definition create_platform_discovery_browser :: "avahi \<Rightarrow> AvahiBrowser" where
  "create_platform_discovery_browser lib =
     \<lparr>ab_callback = False, ab_simple_poll = None, ab_client = None, ab_browser = None, ab_running = False,
      ab_delivered = [], ab_lib = lib\<rparr>"

record DiscoveryClient =
  dc_browser :: "AvahiBrowser option"
  dc_pending_connections :: "string set"

text \<open>The constructors.\<close>

definition DiscoveryClient_create :: "AvahiBrowser option \<Rightarrow> DiscoveryClient" where
  "DiscoveryClient_create browser = \<lparr>dc_browser = browser, dc_pending_connections = {}\<rparr>"

definition DiscoveryClient_default :: "avahi \<Rightarrow> DiscoveryClient" where
  "DiscoveryClient_default lib = DiscoveryClient_create (Some (create_platform_discovery_browser lib))"

definition DiscoveryService_default :: "avahi \<Rightarrow> AvahiPublisher option" where
  "DiscoveryService_default lib = Some (create_platform_discovery_publisher lib)"

text \<open>What a callback finds: the registry, and the ids whose attempts have ended since the last one.\<close>

record callback_env =
  ce_registry :: "Device list"
  ce_ended :: "string set"

fun discovered_devices ::
  "string \<Rightarrow> (nat \<Rightarrow> callback_env) \<Rightarrow> nat \<Rightarrow> DiscoveredDevice list \<Rightarrow> string set \<Rightarrow>
   (string \<times> string \<times> 16 word) list \<times> string set" where
  "discovered_devices my_id env i [] pending_connections = ([], pending_connections)"
| "discovered_devices my_id env i (device # devices) pending_connections =
     (case on_device_discovered my_id (ce_registry (env i)) device (pending_connections - ce_ended (env i)) of
        (target, pending1) \<Rightarrow>
          (case discovered_devices my_id env (Suc i) devices pending1 of
             (attempts, pending2) \<Rightarrow>
               ((case target of None \<Rightarrow> attempts | Some address \<Rightarrow> (dd_device_id device, address) # attempts), pending2)))"

text \<open>\<open>start\<close> runs the browser; each device that it delivers goes through the callback, in order.\<close>

definition discovery_client_start ::
  "avahi_api \<Rightarrow> string \<Rightarrow> (nat \<Rightarrow> callback_env) \<Rightarrow> start_answers \<Rightarrow> browser_event list \<Rightarrow> DiscoveryClient \<Rightarrow>
   (string \<times> string \<times> 16 word) list \<times> DiscoveryClient" where
  "discovery_client_start A my_id env sn events dc =
     (case dc_browser dc of
        None \<Rightarrow> ([], dc)
      | Some s \<Rightarrow>
          (let s1 = snd (browser_start A True sn events s)
           in case discovered_devices my_id env 0 (drop (length (ab_delivered s)) (ab_delivered s1)) (dc_pending_connections dc) of
                (attempts, pending1) \<Rightarrow> (attempts, dc\<lparr>dc_browser := Some s1, dc_pending_connections := pending1\<rparr>)))"

definition discovery_client_stop :: "DiscoveryClient \<Rightarrow> DiscoveryClient" where
  "discovery_client_stop dc = dc\<lparr>dc_browser := map_option browser_stop (dc_browser dc)\<rparr>"

section \<open>Living objects\<close>

text \<open>
  \<open>lib_ok p c child K\<close>: the poll object and the client live, the component's own object, if any, is of kind \<open>K\<close>,
  nothing else lives but resolvers of the client, and no call was made on a dead object.
\<close>

definition lib_ok :: "nat \<Rightarrow> nat \<Rightarrow> nat option \<Rightarrow> (avahi_object \<Rightarrow> bool) \<Rightarrow> avahi \<Rightarrow> bool" where
  "lib_ok p c child K av \<longleftrightarrow>
     \<not> av_invalid av \<and> av_objects av p = Some APoll \<and> av_objects av c = Some (AClient p) \<and>
     (\<forall>k. child = Some k \<longrightarrow> (\<exists>obj. av_objects av k = Some obj \<and> K obj)) \<and>
     (\<forall>a obj. av_objects av a = Some obj \<longrightarrow> a = p \<or> a = c \<or> child = Some a \<or> obj = AResolver c)"

definition lib_idle :: "avahi \<Rightarrow> bool" where
  "lib_idle av \<longleftrightarrow> \<not> av_invalid av \<and> av_objects av = Map.empty"

lemma use_live [simp]: "av_objects av a \<noteq> None \<Longrightarrow> use_object (Some a) av = av"
  by (auto simp: use_object_def)

lemma lib_okD:
  assumes "lib_ok p c child K av"
  shows "use_object (Some p) av = av" and "use_object (Some c) av = av"
    and "child = Some k \<Longrightarrow> use_object (Some k) av = av"
    and "child = Some k \<Longrightarrow> \<exists>obj. av_objects av k = Some obj \<and> K obj" and "\<not> av_invalid av" and "p \<noteq> c"
  using assms unfolding lib_ok_def by (auto simp: use_object_def)

lemma lib_ok_new_child:
  assumes "lib_ok p c None K av" and "new_object answer obj av = (r, av1)" and "K obj"
  shows "lib_ok p c r K av1"
  using assms unfolding lib_ok_def new_object_def by (auto split: option.splits if_splits) blast

lemma lib_ok_new_resolver:
  assumes "lib_ok p c child K av" and "new_object answer (AResolver c) av = (r, av1)"
  shows "lib_ok p c child K av1"
  using assms unfolding lib_ok_def new_object_def by (auto split: option.splits if_splits) blast

lemma lib_ok_free_child:
  assumes "lib_ok p c (Some k) K av" and "\<not> K APoll" and "\<And>d. \<not> K (AClient d)"
  shows "lib_ok p c None K (free_object k av)"
proof -
  obtain obj where obj: "av_objects av k = Some obj" "K obj" using assms(1) unfolding lib_ok_def by blast
  then have "k \<noteq> p" "k \<noteq> c" using assms unfolding lib_ok_def by auto
  then show ?thesis using assms(1) obj unfolding lib_ok_def free_object_def by auto
qed

lemma lib_ok_free_resolver:
  assumes "lib_ok p c child K av" and "av_objects av r = Some (AResolver d)" and "\<And>e. \<not> K (AResolver e)"
  shows "lib_ok p c child K (free_object r av)"
proof -
  have "r \<noteq> p" "r \<noteq> c" using assms(1,2) unfolding lib_ok_def by auto
  moreover have "child \<noteq> Some r" using assms unfolding lib_ok_def by auto
  ultimately show ?thesis using assms(1,2) unfolding lib_ok_def free_object_def by auto
qed

lemma lib_ok_quit: "lib_ok p c child K av \<Longrightarrow> lib_ok p c child K (avahi_simple_poll_quit p av)"
  unfolding avahi_simple_poll_quit_def by (simp add: lib_okD) (simp add: lib_ok_def)

lemma lib_ok_teardown:
  assumes "lib_ok p c None K av"
  shows "lib_idle (free_object p (avahi_client_free c av))"
proof -
  have "p \<noteq> c" using assms by (rule lib_okD)
  let ?av = "avahi_client_free c av"
  have client: "av_objects ?av a = (case av_objects av a of None \<Rightarrow> None
      | Some obj \<Rightarrow> if child_of c obj \<or> a = c then None else Some obj)" for a
    by (simp add: avahi_client_free_def free_object_def use_object_def split: option.splits)
  have valid: "\<not> av_invalid ?av"
    using assms by (simp add: avahi_client_free_def free_object_def use_object_def lib_ok_def child_of_def)
  have "av_objects ?av p \<noteq> None"
    using assms \<open>p \<noteq> c\<close> by (simp add: client lib_ok_def child_of_def)
  moreover have "av_objects ?av a = None" if "a \<noteq> p" for a
  proof (cases "av_objects av a")
    case (Some obj)
    then have "a = c \<or> obj = AResolver c" using assms that unfolding lib_ok_def by blast
    then show ?thesis using Some by (auto simp: client child_of_def)
  qed (simp add: client)
  ultimately show ?thesis
    using valid by (auto simp: lib_idle_def free_object_def)
qed

text \<open>The client and the poll object of a start that goes on.\<close>

lemma lib_ok_opened:
  assumes "lib_idle av" and "avahi_simple_poll_new ap av = (Some p, av1)"
    and "new_object ac (AClient p) (use_object (Some p) av1) = (Some c, av2)"
  shows "lib_ok p c None K av2"
  using assms unfolding lib_idle_def avahi_simple_poll_new_def new_object_def lib_ok_def
  by (auto simp: use_object_def split: option.splits if_splits prod.splits)

lemma lib_idle_no_client:
  assumes "lib_idle av" and "avahi_simple_poll_new ap av = (Some p, av1)"
    and "new_object ac (AClient p) (use_object (Some p) av1) = (None, av2)"
  shows "lib_idle (free_object p av2)"
  using assms unfolding lib_idle_def avahi_simple_poll_new_def new_object_def free_object_def
  by (auto simp: use_object_def split: option.splits if_splits prod.splits)

lemma lib_idle_no_poll: "lib_idle av \<Longrightarrow> avahi_simple_poll_new ap av = (None, av1) \<Longrightarrow> lib_idle av1"
  unfolding lib_idle_def avahi_simple_poll_new_def new_object_def by (auto split: option.splits if_splits prod.splits)

text \<open>
  A component that owns library objects: what every dispatched event keeps, its cleanup may rely on.
\<close>

locale event_loop_owner =
  fixes lib :: "'s \<Rightarrow> avahi" and dispatch :: "'e \<Rightarrow> 's \<Rightarrow> 's" and cleanup :: "'s \<Rightarrow> 's"
    and inv idle :: "'s \<Rightarrow> bool"
  assumes dispatch_inv: "inv s \<Longrightarrow> inv (dispatch e s)"
    and cleanup_idle: "inv s \<Longrightarrow> idle (cleanup s)"
begin

lemma loop_inv: "inv s \<Longrightarrow> inv (avahi_simple_poll_loop lib dispatch es s)"
  by (induction es arbitrary: s) (simp_all add: dispatch_inv)

lemma loop_cleanup: "inv s \<Longrightarrow> idle (cleanup (avahi_simple_poll_loop lib dispatch es s))"
  by (rule cleanup_idle) (rule loop_inv)

end

section \<open>The browser owns its objects\<close>

definition browser_idle :: "AvahiBrowser \<Rightarrow> bool" where
  "browser_idle s \<longleftrightarrow>
     ab_simple_poll s = None \<and> ab_client s = None \<and> ab_browser s = None \<and> lib_idle (ab_lib s)"

definition browser_inv :: "nat \<Rightarrow> nat \<Rightarrow> AvahiBrowser \<Rightarrow> bool" where
  "browser_inv p c s \<longleftrightarrow> ab_simple_poll s = Some p \<and> ab_client s = Some c \<and>
     lib_ok p c (ab_browser s) ((=) (AServiceBrowser c)) (ab_lib s)"

lemma browser_stop_inv: "browser_inv p c s \<Longrightarrow> browser_inv p c (browser_stop s)"
  by (simp add: browser_inv_def browser_stop_def browser_stop_begin_def browser_stop_end_def on_lib_def lib_ok_quit)

lemma quit_browser_inv: "browser_inv p c s \<Longrightarrow> browser_inv p c (quit_browser_poll s)"
  by (simp add: browser_inv_def quit_browser_poll_def on_lib_def lib_ok_quit)

lemma use_client_inv: "browser_inv p c s \<Longrightarrow> on_lib (use_object (Some c)) s = s"
  using lib_okD(2) [of p c "ab_browser s" "(=) (AServiceBrowser c)" "ab_lib s"] by (simp add: browser_inv_def on_lib_def)

lemma resolve_callback_inv:
  assumes inv: "browser_inv p c s" and "av_objects (ab_lib s) r = Some (AResolver d)"
  shows "browser_inv p c (resolve_callback A r res s)"
proof -
  have "browser_inv p c (on_lib (free_object r) s)"
    using assms by (simp add: browser_inv_def on_lib_def lib_ok_free_resolver)
  then show ?thesis
    using use_client_inv [OF inv] inv
    by (auto simp: resolve_callback_def browser_inv_def on_lib_def split: option.splits)
qed

lemma browse_callback_inv:
  assumes inv: "browser_inv p c s"
  shows "browser_inv p c (browse_callback event answer s)"
proof (cases event)
  case BROWSER_NEW
  obtain r av where new: "new_object answer (AResolver c) (ab_lib s) = (r, av)" by fastforce
  then have "browser_inv p c (s\<lparr>ab_lib := av\<rparr>)"
    using inv by (auto simp: browser_inv_def intro: lib_ok_new_resolver)
  then show ?thesis
    using inv new use_client_inv [OF inv] use_client_inv [of p c "s\<lparr>ab_lib := av\<rparr>"] BROWSER_NEW
    by (auto simp: browse_callback_def browser_inv_def split: option.splits)
qed (use inv use_client_inv [OF inv] quit_browser_inv [OF inv] in \<open>simp_all add: browse_callback_def browser_inv_def\<close>)

lemma browser_client_callback_inv:
  assumes inv: "browser_inv p c (s\<lparr>ab_client := Some c\<rparr>)"
  shows "browser_inv p c (browser_client_callback c st answer s)"
proof (cases st)
  case S_RUNNING
  define s2 where "s2 = (case ab_browser s of None \<Rightarrow> s\<lparr>ab_client := Some c\<rparr>
    | Some b \<Rightarrow> (on_lib (free_object b) (s\<lparr>ab_client := Some c\<rparr>))\<lparr>ab_browser := None\<rparr>)"
  have inv2: "browser_inv p c s2" "ab_browser s2 = None"
    using inv by (auto simp: s2_def browser_inv_def on_lib_def lib_ok_free_child split: option.splits)
  obtain b av where new: "new_object answer (AServiceBrowser c) (ab_lib s2) = (b, av)" by fastforce
  then have inv3: "browser_inv p c (s2\<lparr>ab_browser := b, ab_lib := av\<rparr>)"
    using inv2 by (auto simp: browser_inv_def intro: lib_ok_new_child)
  then show ?thesis
    using new use_client_inv [OF inv2(1)] use_client_inv [OF inv3] S_RUNNING
    by (cases b) (simp_all add: browser_client_callback_def Let_def flip: s2_def)
qed (use inv use_client_inv [OF inv] quit_browser_inv [OF inv] in \<open>simp_all add: browser_client_callback_def\<close>)

lemma browser_dispatch_inv: "browser_inv p c s \<Longrightarrow> browser_inv p c (browser_dispatch A e s)"
  using browser_client_callback_inv [of p c s]
  by (auto simp: browser_dispatch_def browser_stop_inv browse_callback_inv resolve_callback_inv
      split: browser_event.splits option.splits avahi_object.splits) (simp_all add: browser_inv_def)

lemma browser_cleanup_idle: "browser_inv p c s \<Longrightarrow> browser_idle (browser_cleanup s)"
  by (auto simp: browser_inv_def browser_idle_def browser_cleanup_def Let_def on_lib_def split: option.splits
      intro!: lib_ok_teardown [of p c "(=) (AServiceBrowser c)"] lib_ok_free_child)

interpretation browser_loop: event_loop_owner ab_lib "browser_dispatch A" browser_cleanup "browser_inv p c" browser_idle
  by unfold_locales (rule browser_dispatch_inv browser_cleanup_idle, assumption)+

lemma browser_inv_same: "browser_inv p c t \<Longrightarrow> browser_inv p c (t\<lparr>ab_client := Some c\<rparr>)"
  by (simp add: browser_inv_def)

lemma browser_open_inv:
  assumes idle: "browser_idle s" and opened: "browser_open callback sn s = (True, s1)"
  shows "\<exists>p c. browser_inv p c s1"
proof -
  have clean: "browser_cleanup (s\<lparr>ab_callback := callback\<rparr>) = s\<lparr>ab_callback := callback\<rparr>"
    using idle by (simp add: browser_idle_def browser_cleanup_def)
  obtain p av c av2 where p: "avahi_simple_poll_new (sn_poll sn) (ab_lib s) = (Some p, av)"
    and c: "new_object (sn_client sn) (AClient p) (use_object (Some p) av) = (Some c, av2)"
    and s1: "s1 = (fold (\<lambda>(st, answer). browser_client_callback c st answer) (sn_states sn)
        (s\<lparr>ab_callback := callback, ab_simple_poll := Some p, ab_lib := av2\<rparr>))\<lparr>ab_client := Some c, ab_running := True\<rparr>"
    using opened unfolding browser_open_def clean Let_def by (auto split: prod.splits option.splits)
  have "lib_ok p c None ((=) (AServiceBrowser c)) av2"
    using idle p c by (intro lib_ok_opened) (auto simp: browser_idle_def)
  then have start: "browser_inv p c (s\<lparr>ab_callback := callback, ab_simple_poll := Some p, ab_lib := av2\<rparr>\<lparr>ab_client := Some c\<rparr>)"
    using idle by (simp add: browser_inv_def browser_idle_def)
  have "browser_inv p c ((fold (\<lambda>(st, answer). browser_client_callback c st answer) (sn_states sn)
      (s\<lparr>ab_callback := callback, ab_simple_poll := Some p, ab_lib := av2\<rparr>))\<lparr>ab_client := Some c\<rparr>)"
    by (rule fold_invariant [where Q = "\<lambda>_. True" and P = "\<lambda>t. browser_inv p c (t\<lparr>ab_client := Some c\<rparr>)"])
      (use start browser_client_callback_inv in \<open>auto simp: browser_inv_same\<close>)
  then show ?thesis unfolding s1 browser_inv_def by auto
qed

lemma browser_open_failed:
  assumes idle: "browser_idle s" and failed: "browser_open callback sn s = (False, s1)"
  shows "browser_idle s1"
proof -
  have clean: "browser_cleanup (s\<lparr>ab_callback := callback\<rparr>) = s\<lparr>ab_callback := callback\<rparr>"
    using idle by (simp add: browser_idle_def browser_cleanup_def)
  show ?thesis
    using idle failed unfolding browser_open_def clean Let_def
    by (auto simp: browser_idle_def browser_cleanup_def on_lib_def split: prod.splits option.splits
        intro: lib_idle_no_poll lib_idle_no_client)
qed

section \<open>The publisher owns its objects\<close>

definition own_group :: "nat \<Rightarrow> avahi_service \<Rightarrow> avahi_object \<Rightarrow> bool" where
  "own_group c svc obj \<longleftrightarrow> (\<exists>svcs committed. obj = AGroup c svcs committed \<and> set svcs \<subseteq> {svc})"

lemma own_group_kinds [simp]:
  "\<not> own_group c svc APoll" "\<not> own_group c svc (AClient d)" "\<not> own_group c svc (AResolver d)"
  "own_group c svc (AGroup c [] b)"
  by (simp_all add: own_group_def)

definition publisher_idle :: "AvahiPublisher \<Rightarrow> bool" where
  "publisher_idle s \<longleftrightarrow>
     pb_simple_poll s = None \<and> pb_client s = None \<and> pb_entry_group s = None \<and> lib_idle (pb_lib s)"

definition publisher_inv :: "avahi_service \<Rightarrow> nat \<Rightarrow> nat \<Rightarrow> avahi_api \<Rightarrow> AvahiPublisher \<Rightarrow> bool" where
  "publisher_inv svc p c A s \<longleftrightarrow> pb_simple_poll s = Some p \<and> pb_client s = Some c \<and>
     own_service A (pb_device_id s) (pb_port s) = svc \<and> lib_ok p c (pb_entry_group s) (own_group c svc) (pb_lib s)"

lemma lib_ok_set_group:
  assumes "lib_ok p c (Some g) (own_group c svc) av" and "\<And>svcs. set svcs \<subseteq> {svc} \<Longrightarrow> set (f svcs) \<subseteq> {svc}"
  shows "lib_ok p c (Some g) (own_group c svc) (set_group g f commit av)"
proof -
  obtain svcs b where g: "av_objects av g = Some (AGroup c svcs b)" "set svcs \<subseteq> {svc}"
    using lib_okD(4) [OF assms(1)] by (auto simp: own_group_def)
  then have "own_group c svc (AGroup c (f svcs) commit)" using assms(2) by (simp add: own_group_def)
  then show ?thesis using assms(1) g(1) unfolding lib_ok_def set_group_def by auto
qed

lemma use_publisher_inv:
  assumes "publisher_inv svc p c A s"
  shows "on_publisher_lib (use_object (Some c)) s = s"
    and "pb_entry_group s = Some g \<Longrightarrow> on_publisher_lib (use_object (Some g)) s = s"
  using lib_okD(2,3) [of p c "pb_entry_group s" "own_group c svc" "pb_lib s"] assms
  by (simp_all add: publisher_inv_def on_publisher_lib_def)

lemma reset_services_inv:
  "publisher_inv svc p c A s \<Longrightarrow> publisher_inv svc p c A (reset_services s) \<and> pb_entry_group (reset_services s) = None"
  by (auto simp: publisher_inv_def reset_services_def on_publisher_lib_def split: option.splits
      intro!: lib_ok_free_child lib_ok_set_group)

lemma add_services_inv:
  assumes inv: "publisher_inv svc p c A s" and g: "pb_entry_group s = Some g"
  shows "publisher_inv svc p c A (add_services A ga g s)"
proof -
  have add: "publisher_inv svc p c A (on_publisher_lib (set_group g (\<lambda>svcs. svcs @ [svc]) False) s)"
    and commit: "publisher_inv svc p c A t \<Longrightarrow> pb_entry_group t = Some g \<Longrightarrow>
      publisher_inv svc p c A (on_publisher_lib (set_group g (\<lambda>svcs. svcs) True) t)" for t
    using inv g by (auto simp: publisher_inv_def on_publisher_lib_def intro!: lib_ok_set_group)
  have svc: "own_service A (pb_device_id s) (pb_port s) = svc" using inv by (simp add: publisher_inv_def)
  show ?thesis
    using inv g add commit [OF add] reset_services_inv [OF inv] reset_services_inv [OF add]
    by (simp add: add_services_def Let_def use_publisher_inv(2) [OF inv g] svc) (simp add: on_publisher_lib_def)
qed

lemma create_services_inv:
  assumes inv: "publisher_inv svc p c A s"
  shows "publisher_inv svc p c A (create_services A ga s)"
proof (cases "pb_entry_group s")
  case (Some g)
  then show ?thesis using inv add_services_inv [OF inv Some] by (simp add: create_services_def publisher_inv_def)
next
  case None
  obtain g av where new: "new_object (ga_new ga) (AGroup c [] False) (pb_lib s) = (g, av)" by fastforce
  then have inv2: "publisher_inv svc p c A (s\<lparr>pb_entry_group := g, pb_lib := av\<rparr>)"
    using inv None by (auto simp: publisher_inv_def intro!: lib_ok_new_child [of p c _ "pb_lib s"])
  have "pb_client s = Some c" using inv by (simp add: publisher_inv_def)
  then show ?thesis
    using None new inv2 add_services_inv [OF inv2] use_publisher_inv(1) [OF inv] use_publisher_inv(1) [OF inv2]
    by (cases g) (simp_all add: create_services_def)
qed

lemma quit_publisher_inv: "publisher_inv svc p c A s \<Longrightarrow> publisher_inv svc p c A (quit_publisher_poll s)"
  by (simp add: publisher_inv_def quit_publisher_poll_def on_publisher_lib_def lib_ok_quit)

lemma publisher_client_callback_inv:
  assumes inv: "publisher_inv svc p c A (s\<lparr>pb_client := Some c\<rparr>)"
  shows "publisher_inv svc p c A (publisher_client_callback A c st ga s)"
  by (cases st) (use inv create_services_inv [OF inv] reset_services_inv [OF inv] quit_publisher_inv [OF inv]
      use_publisher_inv(1) [OF inv] in \<open>simp_all add: publisher_client_callback_def\<close>)

lemma publisher_dispatch_inv: "publisher_inv svc p c A s \<Longrightarrow> publisher_inv svc p c A (publisher_dispatch A e s)"
proof (cases e)
  case (PublisherClient st ga)
  assume inv: "publisher_inv svc p c A s"
  then have "s\<lparr>pb_client := Some c\<rparr> = s" by (simp add: publisher_inv_def)
  then show ?thesis
    using inv publisher_client_callback_inv [of svc p c A s st ga]
    by (simp add: PublisherClient publisher_dispatch_def) (simp add: publisher_inv_def)
next
  case (PublisherGroup st)
  assume inv: "publisher_inv svc p c A s"
  show ?thesis
    using inv quit_publisher_inv [OF inv] use_publisher_inv(2) [OF inv]
    by (cases st) (simp_all add: PublisherGroup publisher_dispatch_def entry_group_callback_def split: option.splits)
next
  case PublisherStop
  assume inv: "publisher_inv svc p c A s"
  then have "pb_simple_poll s = Some p" by (simp add: publisher_inv_def)
  then show ?thesis
    using inv lib_ok_quit [of p c "pb_entry_group s" "own_group c svc" "pb_lib s"]
    by (simp add: PublisherStop publisher_dispatch_def publisher_stop_def Let_def on_publisher_lib_def)
      (simp add: publisher_inv_def)
qed

lemma publisher_cleanup_idle: "publisher_inv svc p c A s \<Longrightarrow> publisher_idle (publisher_cleanup s)"
  using reset_services_inv [of svc p c A s]
  by (auto simp: publisher_inv_def publisher_idle_def publisher_cleanup_def Let_def on_publisher_lib_def
      split: option.splits intro!: lib_ok_teardown [of p c "own_group c svc"])

interpretation publisher_loop: event_loop_owner pb_lib "publisher_dispatch A" publisher_cleanup
    "publisher_inv svc p c A" publisher_idle
  by unfold_locales (rule publisher_dispatch_inv publisher_cleanup_idle, assumption)+

lemma publisher_inv_same: "publisher_inv svc p c A t \<Longrightarrow> publisher_inv svc p c A (t\<lparr>pb_client := Some c\<rparr>)"
  by (simp add: publisher_inv_def)

lemma publisher_open_inv:
  assumes idle: "publisher_idle s" and opened: "publisher_open A device_id port pn s = (True, s1)"
  shows "\<exists>p c. publisher_inv (own_service A device_id port) p c A s1"
proof -
  have clean: "publisher_cleanup (s\<lparr>pb_device_id := device_id, pb_port := port\<rparr>) = s\<lparr>pb_device_id := device_id, pb_port := port\<rparr>"
    using idle by (simp add: publisher_idle_def publisher_cleanup_def reset_services_def)
  obtain p av c av2 where p: "avahi_simple_poll_new (pn_poll pn) (pb_lib s) = (Some p, av)"
    and c: "new_object (pn_client pn) (AClient p) (use_object (Some p) av) = (Some c, av2)"
    and s1: "s1 = (fold (\<lambda>(st, ga). publisher_client_callback A c st ga) (pn_states pn)
        (s\<lparr>pb_device_id := device_id, pb_port := port, pb_simple_poll := Some p, pb_lib := av2\<rparr>))
        \<lparr>pb_client := Some c, pb_running := True\<rparr>"
    using opened unfolding publisher_open_def clean Let_def by (auto split: prod.splits option.splits)
  let ?inv = "publisher_inv (own_service A device_id port) p c A"
  have "lib_ok p c None (own_group c (own_service A device_id port)) av2"
    using idle p c by (intro lib_ok_opened) (auto simp: publisher_idle_def)
  then have start: "?inv (s\<lparr>pb_device_id := device_id, pb_port := port, pb_simple_poll := Some p, pb_lib := av2\<rparr>\<lparr>pb_client := Some c\<rparr>)"
    using idle by (simp add: publisher_inv_def publisher_idle_def)
  have "?inv ((fold (\<lambda>(st, ga). publisher_client_callback A c st ga) (pn_states pn)
      (s\<lparr>pb_device_id := device_id, pb_port := port, pb_simple_poll := Some p, pb_lib := av2\<rparr>))\<lparr>pb_client := Some c\<rparr>)"
    by (rule fold_invariant [where Q = "\<lambda>_. True" and P = "\<lambda>t. ?inv (t\<lparr>pb_client := Some c\<rparr>)"])
      (use start publisher_client_callback_inv in \<open>auto simp: publisher_inv_same\<close>)
  then show ?thesis unfolding s1 publisher_inv_def by auto
qed

lemma publisher_open_failed:
  assumes idle: "publisher_idle s" and failed: "publisher_open A device_id port pn s = (False, s1)"
  shows "publisher_idle s1"
proof -
  have clean: "publisher_cleanup (s\<lparr>pb_device_id := device_id, pb_port := port\<rparr>) = s\<lparr>pb_device_id := device_id, pb_port := port\<rparr>"
    using idle by (simp add: publisher_idle_def publisher_cleanup_def reset_services_def)
  show ?thesis
    using idle failed unfolding publisher_open_def clean Let_def
    by (auto simp: publisher_idle_def publisher_cleanup_def reset_services_def on_publisher_lib_def
        split: prod.splits option.splits intro: lib_idle_no_poll lib_idle_no_client)
qed

lemma discovery_uuid_c_str:
  assumes "discovery_is_valid_uuid device_id"
  shows "c_str device_id = device_id" and "device_id \<noteq> []"
proof -
  have len: "length device_id = 36" and chars: "\<forall>i < 36. if i = 8 \<or> i = 13 \<or> i = 18 \<or> i = 23
      then device_id ! i = CHR ''-'' else id_hex_digit (device_id ! i)"
    using assms unfolding discovery_is_valid_uuid_def uuid_index_loop_iff by (auto split: if_splits)
  have "x \<noteq> CHR 0x00" if x: "x \<in> set device_id" for x
  proof -
    obtain i where "i < 36" "x = device_id ! i" using x unfolding in_set_conv_nth len by blast
    then have "x = CHR ''-'' \<or> id_hex_digit x" using chars by (auto split: if_splits)
    then show ?thesis by (auto simp: id_hex_digit_def less_eq_char_def)
  qed
  then show "c_str device_id = device_id" by (simp add: c_str_def takeWhile_eq_all_conv)
  show "device_id \<noteq> []" using len by auto
qed

text \<open>A stop that has read the pointer before the loop's owner cleans up asks a freed object to quit.\<close>

lemma stop_races_cleanup:
  assumes "browser_inv p c s" and "ab_running s" and "browser_stop_begin s = (q, s1)"
  shows "av_invalid (ab_lib (browser_stop_end q (browser_cleanup s1)))"
proof -
  have s1: "s1 = s\<lparr>ab_running := False\<rparr>" "q = Some p"
    using assms by (auto simp: browser_stop_begin_def browser_inv_def)
  then have "browser_idle (browser_cleanup s1)"
    using assms(1) by (intro browser_cleanup_idle [of p c]) (simp add: browser_inv_def)
  then show ?thesis
    by (simp add: s1(2) browser_stop_end_def on_lib_def avahi_simple_poll_quit_def use_object_def browser_idle_def
        lib_idle_def)
qed

text \<open>
  Every attempt is for a delivered device with a valid id that is not the daemon's own, to the address and port it was
  delivered with.
\<close>

lemma discovered_devices_sound:
  assumes "discovered_devices my_id env i devices P = (attempts, P1)" and "(d, ip, port) \<in> set attempts"
  shows "\<exists>device \<in> set devices. d = dd_device_id device \<and> ip = dd_ip_address device \<and> port = dd_port device \<and>
    discovery_is_valid_uuid d \<and> d \<noteq> my_id"
  using assms
proof (induction my_id env i devices P arbitrary: attempts P1 rule: discovered_devices.induct)
  case (2 my_id env i device devices P)
  obtain target P2 where t: "on_device_discovered my_id (ce_registry (env i)) device (P - ce_ended (env i)) = (target, P2)"
    by fastforce
  obtain rest P3 where rest: "discovered_devices my_id env (Suc i) devices P2 = (rest, P3)" by fastforce
  have attempts: "attempts = (case target of None \<Rightarrow> rest | Some address \<Rightarrow> (dd_device_id device, address) # rest)"
    using "2.prems"(1) by (simp add: t rest)
  show ?case
  proof (cases "(d, ip, port) \<in> set rest")
    case True
    then show ?thesis using "2.IH" [OF t [symmetric] rest] by auto
  next
    case False
    then have "target = Some (ip, port)" "d = dd_device_id device"
      using "2.prems"(2) by (auto simp: attempts split: option.splits)
    then show ?thesis using t by (auto simp: on_device_discovered_def split: if_splits)
  qed
qed simp

text \<open>What the factory makes is idle, so that it can be started.\<close>

lemma created_idle: "lib_idle lib \<Longrightarrow> browser_idle (create_platform_discovery_browser lib)"
  "lib_idle lib \<Longrightarrow> publisher_idle (create_platform_discovery_publisher lib)"
  by (simp_all add: browser_idle_def publisher_idle_def create_platform_discovery_browser_def
      create_platform_discovery_publisher_def)

lemma browser_start_idle:
  assumes "browser_idle s"
  shows "browser_idle (snd (browser_start A callback sn events s))"
proof (cases "browser_open callback sn s")
  case (Pair ok s1)
  show ?thesis
  proof (cases ok)
    case True
    then obtain p c where inv: "browser_inv p c s1" using browser_open_inv [OF assms, of callback sn s1] Pair by auto
    then have "on_lib (use_object (ab_simple_poll s1)) s1 = s1"
      using lib_okD(1) [of p c "ab_browser s1" "(=) (AServiceBrowser c)" "ab_lib s1"]
      by (simp add: browser_inv_def on_lib_def)
    then show ?thesis
      using browser_loop.loop_cleanup [OF inv, of A events] True by (simp add: browser_start_def Pair)
  next
    case False
    then show ?thesis using assms Pair browser_open_failed by (simp add: browser_start_def)
  qed
qed

text \<open>A client that is started, runs, is stopped and so on.\<close>

fun client_life ::
  "avahi_api \<Rightarrow> string \<Rightarrow> ((nat \<Rightarrow> callback_env) \<times> start_answers \<times> browser_event list) list \<Rightarrow> DiscoveryClient \<Rightarrow> DiscoveryClient" where
  "client_life A my_id [] dc = dc"
| "client_life A my_id ((env, sn, events) # starts) dc =
     client_life A my_id starts (discovery_client_stop (snd (discovery_client_start A my_id env sn events dc)))"

lemma browser_stop_idle: "browser_idle s \<Longrightarrow> browser_idle (browser_stop s)"
  by (simp add: browser_idle_def browser_stop_def browser_stop_begin_def browser_stop_end_def)

lemma client_life_idle:
  assumes "dc_browser dc = Some s" and "browser_idle s"
  shows "\<exists>s1. dc_browser (client_life A my_id starts dc) = Some s1 \<and> browser_idle s1"
  using assms
proof (induction A my_id starts dc arbitrary: s rule: client_life.induct)
  case (2 A my_id env sn events starts dc)
  let ?s1 = "snd (browser_start A True sn events s)"
  have "dc_browser (discovery_client_stop (snd (discovery_client_start A my_id env sn events dc))) = Some (browser_stop ?s1)"
    using "2.prems"(1) by (simp add: discovery_client_start_def discovery_client_stop_def Let_def split: prod.split)
  then show ?case using "2.IH" browser_stop_idle [OF browser_start_idle [OF "2.prems"(2)]] by simp
qed simp

section \<open>Properties\<close>


text \<open>C39. While the publisher runs, whatever the library answers and reports, the only service it ever
  registers is the daemon's own, in the one group it points to; and when it returns nothing is left
  registered, every object is freed and no freed object was used.\<close>

theorem publisher_advertises_itself:
  assumes "publisher_idle s" and "publisher_open A device_id port pn s = (True, s1)"
  shows "publisher_idle (snd (publisher_start A device_id port pn events s)) \<and>
    (\<forall>g c svcs committed. av_objects (pb_lib (avahi_simple_poll_loop pb_lib (publisher_dispatch A) events s1)) g =
        Some (AGroup c svcs committed) \<longrightarrow>
      pb_entry_group (avahi_simple_poll_loop pb_lib (publisher_dispatch A) events s1) = Some g \<and>
      set svcs \<subseteq> {own_service A device_id port})"
proof -
  let ?svc = "own_service A device_id port"
  obtain p c where inv: "publisher_inv ?svc p c A s1" using assms publisher_open_inv by blast
  have "on_publisher_lib (use_object (pb_simple_poll s1)) s1 = s1"
    using inv lib_okD(1) [of p c "pb_entry_group s1" "own_group c ?svc" "pb_lib s1"]
    by (simp add: publisher_inv_def on_publisher_lib_def)
  then have idle: "publisher_idle (snd (publisher_start A device_id port pn events s))"
    using publisher_loop.loop_cleanup [OF inv, of events] by (simp add: publisher_start_def assms(2))
  let ?t = "avahi_simple_poll_loop pb_lib (publisher_dispatch A) events s1"
  have ok: "lib_ok p c (pb_entry_group ?t) (own_group c ?svc) (pb_lib ?t)"
    using publisher_loop.loop_inv [OF inv, of events] by (simp add: publisher_inv_def)
  have "pb_entry_group ?t = Some g \<and> set svcs \<subseteq> {?svc}"
    if "av_objects (pb_lib ?t) g = Some (AGroup d svcs committed)" for g d svcs committed
  proof -
    have child: "pb_entry_group ?t = Some g" using ok that unfolding lib_ok_def by fastforce
    then show ?thesis using lib_okD(4) [OF ok child] that by (auto simp: own_group_def)
  qed
  with idle show ?thesis by blast
qed

text \<open>C40. The service a daemon publishes, once another daemon resolves it at an IPv4 address that is not the
  loopback address, is reported to that daemon's discovery client with the publisher's device id and
  port, and the client opens a connection to exactly that address and port, unless the device is itself, is connected or
  is being connected already.\<close>

theorem published_device_is_found:
  assumes "\<exists>e. avahi_string_list_find A (avahi_string_list_add_pair A [] ''device_id'' device_id) ''device_id'' = Some e \<and>
      avahi_string_list_get_pair A e = Some (''device_id'', Some device_id)"
    and "discovery_is_valid_uuid device_id" and "aa_proto address = AVAHI_PROTO_INET"
    and "avahi_address_snprint A address \<noteq> ''127.0.0.1''" and "ab_callback s" and "svc = own_service A device_id port"
  shows "\<exists>device. ab_delivered (resolve_callback A r \<lparr>rs_found = True, rs_name = Some (as_name svc),
        rs_address = Some address, rs_port = as_port svc, rs_txt = Some (as_txt svc)\<rparr> s) = ab_delivered s @ [device] \<and>
      dd_device_id device = device_id \<and>
      fst (on_device_discovered my_id registry device attempts) =
        (if device_id = my_id \<or> is_already_connected device_id registry \<or> device_id \<in> attempts then None
         else Some (avahi_address_snprint A address, port))"
proof -
  obtain e where e: "avahi_string_list_find A (avahi_string_list_add_pair A [] ''device_id'' device_id) ''device_id'' = Some e"
    "avahi_string_list_get_pair A e = Some (''device_id'', Some device_id)"
    using assms(1) by blast
  have "peer_device_id A (Some (as_txt svc)) = device_id"
    by (simp add: peer_device_id_def assms(6) own_service_def discovery_uuid_c_str [OF assms(2)] e)
  then show ?thesis
    using assms(2-5) discovery_uuid_c_str(2) [OF assms(2)]
    by (simp add: resolve_callback_def resolved_device_def on_lib_def on_device_discovered_def Let_def)
      (simp add: assms(6) own_service_def)
qed

section \<open>Witnesses\<close>

text \<open>Text functions on entries of the form \<open>key=value\<close>.\<close>

definition sample_api :: avahi_api where
  "sample_api =
     \<lparr>avahi_address_snprint = aa_data,
      avahi_string_list_find = (\<lambda>l k. List.find (\<lambda>e. take (length k + 1) e = k @ ''='') l),
      avahi_string_list_get_pair = (\<lambda>e. Some (takeWhile (\<lambda>c. c \<noteq> CHR ''='') e, Some (drop 1 (dropWhile (\<lambda>c. c \<noteq> CHR ''='') e)))),
      avahi_string_list_add_pair = (\<lambda>l k v. (k @ ''='' @ v) # l)\<rparr>"

definition no_objects :: avahi where
  "no_objects = \<lparr>av_objects = Map.empty, av_quit = False, av_invalid = False\<rparr>"

definition sample_browser :: AvahiBrowser where
  "sample_browser = create_platform_discovery_browser no_objects"

definition sample_publisher :: AvahiPublisher where
  "sample_publisher = create_platform_discovery_publisher no_objects"

definition sample_device_id :: string where
  "sample_device_id = ''01234567-89ab-4cde-8f01-23456789abcd''"


definition sample_group :: group_answers where
  "sample_group = \<lparr>ga_new = Some 3, ga_query_fails = False, ga_add = 0, ga_commit = 0\<rparr>"

definition sample_publish :: publish_answers where
  "sample_publish = \<lparr>pn_poll = Some 1, pn_client = Some 2, pn_states = [(S_RUNNING, sample_group)]\<rparr>"

theorem publisher_advertises_itself_witness:
  "publisher_idle (snd (publisher_start sample_api sample_device_id 42666 sample_publish
     [PublisherClient S_COLLISION sample_group, PublisherClient S_RUNNING sample_group, PublisherStop] sample_publisher))"
proof -
  have "publisher_idle sample_publisher"
    by (simp add: sample_publisher_def created_idle no_objects_def lib_idle_def)
  moreover have "publisher_open sample_api sample_device_id 42666 sample_publish sample_publisher =
      (True, snd (publisher_open sample_api sample_device_id 42666 sample_publish sample_publisher))"
    by (simp add: publisher_open_def sample_publish_def sample_publisher_def create_platform_discovery_publisher_def no_objects_def publisher_cleanup_def
        reset_services_def avahi_simple_poll_new_def new_object_def use_object_def)
  ultimately show ?thesis using publisher_advertises_itself by blast
qed

theorem published_device_is_found_witness:
  "\<exists>device. ab_delivered (resolve_callback sample_api 4
       \<lparr>rs_found = True, rs_name = Some (as_name (own_service sample_api sample_device_id 42666)),
        rs_address = Some \<lparr>aa_proto = AVAHI_PROTO_INET, aa_data = ''10.0.0.7''\<rparr>,
        rs_port = as_port (own_service sample_api sample_device_id 42666),
        rs_txt = Some (as_txt (own_service sample_api sample_device_id 42666))\<rparr> (sample_browser\<lparr>ab_callback := True\<rparr>)) =
      ab_delivered (sample_browser\<lparr>ab_callback := True\<rparr>) @ [device] \<and>
    dd_device_id device = sample_device_id \<and>
    fst (on_device_discovered ''me'' [] device {}) =
      (if sample_device_id = ''me'' \<or> is_already_connected sample_device_id [] \<or> sample_device_id \<in> {} then None
       else Some (avahi_address_snprint sample_api \<lparr>aa_proto = AVAHI_PROTO_INET, aa_data = ''10.0.0.7''\<rparr>, 42666))"
proof (rule published_device_is_found)
  show "discovery_is_valid_uuid sample_device_id" by code_simp
qed (simp_all add: sample_api_def)

end
