(* ===== verification/Trust_Open.thy ===== *)
theory Trust_Open
  imports Durable_Storage Trust_Refinement
begin

text \<open>
  Opening the trust store: \<open>TrustStore::Impl::Impl\<close>, \<open>sync_tree\<close>, \<open>configuration\<close> and
  \<open>default_database_path\<close> of \<open>src/core/trust/trust_store.cpp\<close>.  The constructor is a program of
  \<open>Durable_Storage\<close>: every system call and every SQLite call takes an answer, which may fail it or kill the
  process.  The state directory has the metadata of its files, and of the database file its size, its
  content (\<open>None\<close> when it is not a database) and whether its name is safe from a loss of power.  As
  SQLite documents, a transaction that is not committed leaves the content as it was, and one committed
  with full synchronization survives a loss of power.  What SQLite answers to a pragma about itself
  belongs to the environment.
\<close>

section \<open>State directory\<close>

definition APPLICATION_ID :: int where "APPLICATION_ID = 0x47535452"
definition SCHEMA_VERSION :: int where "SCHEMA_VERSION = 2"

text \<open>\<open>sd_v1\<close> and \<open>sd_v2\<close> are the tables that the two scripts of the schema create.\<close>

record sqlite_db =
  sd_application_id :: int
  sd_user_version :: int
  sd_v1 :: "(device_row list \<times> (TrustUuid \<times> string) list) option"
  sd_v2 :: "(attempt_row list \<times> (TrustUuid \<times> string) list) option"
  sd_intact :: bool

text \<open>An empty file is an empty database.\<close>

definition blank_db :: sqlite_db where
  "blank_db = \<lparr>sd_application_id = 0, sd_user_version = 0, sd_v1 = None, sd_v2 = None, sd_intact = True\<rparr>"

record state_dir =
  od_stat :: "string \<Rightarrow> stat_result"
  od_size :: int
  od_content :: "sqlite_db option"
  od_durable :: bool

record open_env =
  oe_sql :: sql_env
  oe_umask :: int
  oe_threadsafe :: int
  oe_libversion :: int
  oe_error_text :: string
  oe_dir_uid :: int
  oe_depth :: nat
  oe_lock :: "(errno option \<times> nat) list"
  oe_code :: int
  oe_foreign_keys :: int
  oe_journal_mode :: string
  oe_synchronous :: int
  oe_written_size :: int
  oe_data_version :: int
  oe_pragma_row :: bool

abbreviation oe_name :: "open_env \<Rightarrow> string" where
  "oe_name env \<equiv> db_filename (oe_sql env)"

text \<open>\<open>std::filesystem::canonical\<close> throws an exception of its own.\<close>

datatype open_error = OpenStore TrustStoreError | OpenFilesystem

type_synonym 'a open_prog = "(state_dir, open_error, 'a) prog"

definition liftp :: "TrustStoreError + 'a \<Rightarrow> 'a open_prog" where
  "liftp r = (case r of Inl e \<Rightarrow> raisep (OpenStore e) | Inr x \<Rightarrow> returnp x)"

definition requirep :: "bool \<Rightarrow> string \<Rightarrow> unit open_prog" where
  "requirep condition message = liftp (require condition message)"

definition store_call :: "string \<Rightarrow> unit open_prog" where
  "store_call message = callp (OpenStore (StoreError message))"

text \<open>\<open>check_sql\<close> on a call that the environment may fail.\<close>

definition sql_call :: "open_env \<Rightarrow> unit open_prog" where
  "sql_call env = callp (OpenStore (SqlFailure (oe_code env)))"

text \<open>The \<open>Fd\<close> constructor.\<close>

definition open_handle :: "unit open_prog" where
  "open_handle = store_call ''cannot open storage handle''"

section \<open>Files\<close>

fun sync_fd :: "(state_dir \<Rightarrow> state_dir) \<Rightarrow> unit open_prog" where
  "sync_fd f ([], d) = (Killed, [], d)"
| "sync_fd f (e # es, d) =
     (case e of
        Kill \<Rightarrow> (Killed, es, d)
      | Proceed _ \<Rightarrow> (Value (), es, f d)
      | Fault EINTR \<Rightarrow> sync_fd f (es, d)
      | Fault _ \<Rightarrow> (Raised (OpenStore (StoreError ''cannot synchronize storage directory'')), es, d))"

definition mark_durable :: "state_dir \<Rightarrow> state_dir" where
  "mark_durable d = d\<lparr>od_durable := True\<rparr>"

text \<open>The loop of \<open>sync_tree\<close>: flush, open the parent, compare; the root is its own parent.\<close>

fun sync_tree_loop :: "nat \<Rightarrow> (state_dir \<Rightarrow> state_dir) \<Rightarrow> unit open_prog" where
  "sync_tree_loop n f =
     bindp (sync_fd f) (\<lambda>_.
     bindp open_handle (\<lambda>_.
     bindp (store_call ''cannot inspect storage ancestors'') (\<lambda>_.
     bindp (store_call ''cannot inspect storage ancestors'') (\<lambda>_.
       case n of 0 \<Rightarrow> returnp () | Suc m \<Rightarrow> sync_tree_loop m id))))"

definition sync_tree :: "open_env \<Rightarrow> unit open_prog" where
  "sync_tree env = bindp open_handle (\<lambda>_. sync_tree_loop (oe_depth env) mark_durable)"

definition inspect_in :: "open_env \<Rightarrow> string \<Rightarrow> bool open_prog" where
  "inspect_in env name =
     syscall (\<lambda>_. raisep (OpenStore (StoreError ''cannot inspect database files'')))
       (\<lambda>_. bindp getp (\<lambda>d. liftp (inspect_file ((oe_sql env)\<lparr>fstatat := od_stat d\<rparr>) name)))"

definition own_file :: "open_env \<Rightarrow> int \<Rightarrow> stat_result" where
  "own_file env mode = StatInfo \<lparr>st_regular = True, st_uid = geteuid (oe_sql env), st_nlink = 1, st_mode = mode\<rparr>"

definition put_stat :: "string \<Rightarrow> stat_result \<Rightarrow> state_dir \<Rightarrow> state_dir" where
  "put_stat name info d = d\<lparr>od_stat := (od_stat d)(name := info)\<rparr>"

text \<open>\<open>O_CREAT\<close> on the lock file: its mode is cut by the umask.\<close>

definition open_lock_file :: "open_env \<Rightarrow> unit open_prog" where
  "open_lock_file env =
     bindp open_handle (\<lambda>_. modifyp (\<lambda>d.
       if od_stat d (oe_name env @ ''.lock'') = StatAbsent
       then put_stat (oe_name env @ ''.lock'') (own_file env (0x8000 OR (384 AND NOT (oe_umask env)))) d
       else d))"

fun flock_wait :: "(errno option \<times> nat) list \<Rightarrow> unit open_prog" where
  "flock_wait [] s = raisep (OpenStore (StoreError ''cannot acquire database initialization lock'')) s"
| "flock_wait ((answer, elapsed) # rest) s =
     (case answer of
        None \<Rightarrow> returnp () s
      | Some e \<Rightarrow>
          if e \<noteq> EINTR \<and> e \<noteq> EAGAIN \<or> elapsed \<ge> 5000
          then raisep (OpenStore (StoreError ''cannot acquire database initialization lock'')) s
          else flock_wait rest s)"

definition open_directory :: "open_env \<Rightarrow> unit open_prog" where
  "open_directory env =
     bindp (requirep (oe_threadsafe env \<noteq> 0 \<and> oe_libversion env \<ge> 3037000)
              ''a thread-safe SQLite >= 3.37.0 is required'') (\<lambda>_.
     bindp (requirep (oe_name env \<noteq> [] \<and> oe_name env \<noteq> ''.'' \<and> oe_name env \<noteq> ''..'')
              ''invalid database filename'') (\<lambda>_.
     bindp (store_call (''cannot create state directory: '' @ oe_error_text env)) (\<lambda>_.
     bindp open_handle (\<lambda>_.
     bindp (store_call ''state directory must be user-owned'') (\<lambda>_.
     bindp (requirep (oe_dir_uid env = geteuid (oe_sql env)) ''state directory must be user-owned'') (\<lambda>_.
     bindp (store_call ''cannot secure state directory'') (\<lambda>_.
     bindp (sync_tree env) (\<lambda>_.
       callp OpenFilesystem))))))))"

definition lock_directory :: "open_env \<Rightarrow> unit open_prog" where
  "lock_directory env =
     bindp (open_lock_file env) (\<lambda>_.
     bindp (inspect_in env (oe_name env @ ''.lock'')) (\<lambda>_.
       flock_wait (oe_lock env)))"

definition inspect_sidecars :: "open_env \<Rightarrow> bool open_prog" where
  "inspect_sidecars env =
     bindp (inspect_in env (oe_name env @ ''-wal'')) (\<lambda>a.
     bindp (inspect_in env (oe_name env @ ''-shm'')) (\<lambda>b.
     bindp (inspect_in env (oe_name env @ ''-journal'')) (\<lambda>c.
       returnp (c \<or> b \<or> a))))"

text \<open>\<open>O_CREAT | O_EXCL\<close>: the new file is empty.\<close>

definition create_database :: "open_env \<Rightarrow> unit open_prog" where
  "create_database env =
     bindp open_handle (\<lambda>_.
     bindp getp (\<lambda>d.
     bindp (requirep (od_stat d (oe_name env) = StatAbsent) ''cannot open storage handle'') (\<lambda>_.
     bindp (modifyp (\<lambda>d. (put_stat (oe_name env) (own_file env (0x8000 OR (384 AND NOT (oe_umask env)))) d)
              \<lparr>od_size := 0, od_content := Some blank_db, od_durable := False\<rparr>)) (\<lambda>_.
     bindp (store_call ''cannot secure database file'') (\<lambda>_.
     bindp (modifyp (put_stat (oe_name env) (own_file env (0x8000 OR 384)))) (\<lambda>_.
     bindp (sync_fd id) (\<lambda>_.
       sync_fd mark_durable)))))))"

text \<open>Whether the database existed; a new one is created.\<close>

definition prepare_file :: "open_env \<Rightarrow> bool open_prog" where
  "prepare_file env =
     bindp (inspect_in env (oe_name env)) (\<lambda>existing.
     bindp (inspect_sidecars env) (\<lambda>sidecar.
     bindp (requirep (existing \<or> \<not> sidecar) ''database is missing but SQLite recovery files remain'') (\<lambda>_.
     bindp getp (\<lambda>d.
       if existing
       then bindp (requirep (od_size d \<ge> 100) ''database is truncated or initialization was interrupted'') (\<lambda>_.
              returnp True)
       else bindp (create_database env) (\<lambda>_. returnp False)))))"

section \<open>Connection and migration\<close>

text \<open>Reading a file that is not a database fails with \<open>SQLITE_NOTADB\<close>.\<close>

definition read_content :: "open_env \<Rightarrow> sqlite_db open_prog" where
  "read_content env =
     bindp (sql_call env) (\<lambda>_. bindp getp (\<lambda>d.
       case od_content d of None \<Rightarrow> raisep (OpenStore (SqlFailure 26)) | Some db \<Rightarrow> returnp db))"

text \<open>
  The two pragma queries: the statement may fail, and may return no row.  SQLite keeps the integers they return in 32 bits, so
  that the cast to \<open>int\<close> changes none of them; \<open>stored\<close> is a pragma that reads the file.
\<close>

definition pragma_integer :: "open_env \<Rightarrow> int open_prog \<Rightarrow> int open_prog" where
  "pragma_integer env query =
     bindp query (\<lambda>v. bindp (requirep (oe_pragma_row env) ''missing pragma result'') (\<lambda>_. returnp v))"

definition pragma_text :: "open_env \<Rightarrow> string open_prog \<Rightarrow> string open_prog" where
  "pragma_text env query =
     bindp query (\<lambda>v. bindp (requirep (oe_pragma_row env) ''missing pragma result'') (\<lambda>_. returnp v))"

definition stored :: "open_env \<Rightarrow> (sqlite_db \<Rightarrow> 'a) \<Rightarrow> 'a open_prog" where
  "stored env f = bindp (read_content env) (\<lambda>db. returnp (f db))"

definition setting :: "open_env \<Rightarrow> 'a \<Rightarrow> 'a open_prog" where
  "setting env v = bindp (sql_call env) (\<lambda>_. returnp v)"

definition connect_database :: "open_env \<Rightarrow> unit open_prog" where
  "connect_database env =
     bindp (sql_call env) (\<lambda>_.
     bindp (sql_call env) (\<lambda>_.
     bindp (sql_call env) (\<lambda>_.
     bindp (sql_call env) (\<lambda>_.
     bindp (sql_call env) (\<lambda>_.
     bindp (pragma_integer env (setting env (oe_foreign_keys env))) (\<lambda>foreign_keys.
       requirep (foreign_keys = 1) ''SQLite foreign keys unavailable''))))))"

definition recognized :: "bool \<Rightarrow> int \<Rightarrow> int \<Rightarrow> bool" where
  "recognized existing app version =
     (if existing then app = APPLICATION_ID \<and> version \<ge> 1 \<and> version \<le> SCHEMA_VERSION
      else app = 0 \<and> version = 0)"

abbreviation recognized_db :: "bool \<Rightarrow> sqlite_db \<Rightarrow> bool" where
  "recognized_db existing db \<equiv> recognized existing (sd_application_id db) (sd_user_version db)"

text \<open>The recovery files of the WAL mode get the permissions of the database.\<close>

definition enter_wal :: "open_env \<Rightarrow> state_dir \<Rightarrow> state_dir" where
  "enter_wal env d =
     d\<lparr>od_size := max (od_size d) (oe_written_size env),
       od_stat := (\<lambda>n. if (n = oe_name env @ ''-wal'' \<or> n = oe_name env @ ''-shm'') \<and> od_stat d n = StatAbsent
                       then od_stat d (oe_name env) else od_stat d n)\<rparr>"

definition check_database :: "open_env \<Rightarrow> bool \<Rightarrow> int open_prog" where
  "check_database env existing =
     bindp (pragma_text env (stored env (\<lambda>db. if sd_intact db then ''ok'' else ''damaged''))) (\<lambda>quick_check.
     bindp (requirep (quick_check = ''ok'') ''database integrity check failed'') (\<lambda>_.
     bindp (pragma_integer env (stored env sd_user_version)) (\<lambda>version.
     bindp (pragma_integer env (stored env sd_application_id)) (\<lambda>app.
     bindp (requirep (recognized existing app version) ''unrecognized database or unsupported schema version'') (\<lambda>_.
     bindp (pragma_text env (setting env (oe_journal_mode env))) (\<lambda>journal_mode.
     bindp (requirep (journal_mode = ''wal'') ''SQLite WAL mode unavailable'') (\<lambda>_.
     bindp (modifyp (enter_wal env)) (\<lambda>_.
     bindp (sql_call env) (\<lambda>_.
     bindp (pragma_integer env (setting env (oe_synchronous env))) (\<lambda>synchronous.
     bindp (requirep (synchronous = 2) ''SQLite FULL synchronization unavailable'') (\<lambda>_.
       returnp version)))))))))))"

text \<open>The statements of the migration; creating a table that exists is an error, as is using one that does not.\<close>

definition create_v1 :: "sqlite_db \<Rightarrow> TrustStoreError + sqlite_db" where
  "create_v1 db = (if sd_v1 db = None then Inr (db\<lparr>sd_v1 := Some ([], [])\<rparr>) else Inl (SqlFailure 1))"

definition create_v2 :: "sqlite_db \<Rightarrow> TrustStoreError + sqlite_db" where
  "create_v2 db = (if sd_v2 db = None then Inr (db\<lparr>sd_v2 := Some ([], [])\<rparr>) else Inl (SqlFailure 1))"

definition foreign_key_violation :: "sqlite_db \<Rightarrow> bool" where
  "foreign_key_violation db \<longleftrightarrow>
     (case sd_v1 db of None \<Rightarrow> False | Some (rows, perms) \<Rightarrow> list_ex (\<lambda>(u, _). u \<notin> r_uuid ` set rows) perms) \<or>
     (case sd_v2 db of None \<Rightarrow> False | Some (rows, perms) \<Rightarrow> list_ex (\<lambda>(i, _). i \<notin> a_attempt_id ` set rows) perms)"

definition need_table :: "'x option \<Rightarrow> TrustStoreError + unit" where
  "need_table t = (if t = None then Inl (SqlFailure 1) else Inr ())"

definition check_files_in :: "open_env \<Rightarrow> unit open_prog" where
  "check_files_in env =
     bindp (inspect_in env (oe_name env)) (\<lambda>present.
     bindp (requirep present ''established database is missing'') (\<lambda>_.
     bindp (inspect_sidecars env) (\<lambda>_. returnp ())))"

text \<open>The transaction: the work is on a copy that the commit installs.\<close>

definition migrate :: "open_env \<Rightarrow> int \<Rightarrow> sqlite_db open_prog" where
  "migrate env version =
     bindp (read_content env) (\<lambda>db0.
     bindp (if version < 1 then bindp (sql_call env) (\<lambda>_. liftp (create_v1 db0)) else returnp db0) (\<lambda>db1.
     bindp (if version < 2 then bindp (sql_call env) (\<lambda>_. liftp (create_v2 db1)) else returnp db1) (\<lambda>db2.
     bindp (sql_call env) (\<lambda>_.
     bindp (sql_call env) (\<lambda>_.
       let db3 = db2\<lparr>sd_application_id := APPLICATION_ID, sd_user_version := SCHEMA_VERSION\<rparr> in
     bindp (sql_call env) (\<lambda>_.
     bindp (requirep (\<not> foreign_key_violation db3) ''database has foreign-key violations'') (\<lambda>_.
     bindp (sql_call env) (\<lambda>_.
     bindp (liftp (need_table (sd_v1 db3))) (\<lambda>_.
     bindp (sql_call env) (\<lambda>_.
     bindp (liftp (need_table (sd_v2 db3))) (\<lambda>_.
     bindp (sql_call env) (\<lambda>_.
     bindp (sql_call env) (\<lambda>_.
     bindp (check_files_in env) (\<lambda>_.
     bindp (sql_call env) (\<lambda>_.
     bindp (modifyp (\<lambda>d. d\<lparr>od_content := Some db3\<rparr>)) (\<lambda>_.
       returnp db3))))))))))))))))"

definition tables_of :: "sqlite_db \<Rightarrow> database" where
  "tables_of db =
     (case (sd_v1 db, sd_v2 db) of
        (Some (devices, perms), Some (attempts, attempt_perms)) \<Rightarrow>
          \<lparr>trusted_devices = devices, device_permissions = perms, pairing_attempts = attempts,
           pairing_attempt_permissions = attempt_perms\<rparr>
      | (Some (devices, perms), None) \<Rightarrow>
          \<lparr>trusted_devices = devices, device_permissions = perms, pairing_attempts = [],
           pairing_attempt_permissions = []\<rparr>
      | _ \<Rightarrow> empty_db)"

definition open_store :: "open_env \<Rightarrow> TrustStore open_prog" where
  "open_store env =
     bindp (open_directory env) (\<lambda>_.
     bindp (lock_directory env) (\<lambda>_.
     bindp (prepare_file env) (\<lambda>existing.
     bindp (connect_database env) (\<lambda>_.
     bindp (check_database env existing) (\<lambda>version.
     bindp (migrate env version) (\<lambda>db.
     bindp (sync_fd mark_durable) (\<lambda>_.
       returnp \<lparr>ts_db = tables_of db, ts_local_generation = 0, ts_data_version = oe_data_version env\<rparr>)))))))"

section \<open>Configuration and default path\<close>

record Configuration =
  cf_schema_version :: int
  cf_foreign_keys :: bool
  cf_journal_mode :: string
  cf_synchronous :: int

definition configuration :: "open_env \<Rightarrow> Configuration open_prog" where
  "configuration env =
     bindp (pragma_integer env (stored env sd_user_version)) (\<lambda>version.
     bindp (pragma_integer env (setting env (oe_foreign_keys env))) (\<lambda>foreign_keys.
     bindp (pragma_text env (setting env (oe_journal_mode env))) (\<lambda>journal_mode.
     bindp (pragma_integer env (setting env (oe_synchronous env))) (\<lambda>synchronous.
       returnp \<lparr>cf_schema_version = version, cf_foreign_keys = (foreign_keys = 1),
                cf_journal_mode = journal_mode, cf_synchronous = synchronous\<rparr>))))"

text \<open>\<open>operator/\<close> of paths, for a relative second path.\<close>

definition path_append :: "string \<Rightarrow> string \<Rightarrow> string" where
  "path_append p q = (if p = [] \<or> last p = CHR ''/'' then p @ q else p @ ''/'' @ q)"

datatype passwd_answer = PwRange | PwError | PwNone | PwDir string

text \<open>What \<open>getpwuid_r\<close> answers for a buffer of a given capacity, which is never 0.\<close>

function home_loop :: "(nat \<Rightarrow> passwd_answer) \<Rightarrow> nat \<Rightarrow> TrustStoreError + string" where
  "home_loop getpw capacity =
     (if getpw capacity = PwRange \<and> 0 < capacity \<and> capacity < 1024 * 1024 then home_loop getpw (capacity * 2)
      else case getpw capacity of
             PwDir dir \<Rightarrow>
               if dir \<noteq> []
               then Inr (path_append (path_append (path_append (path_append dir ''.local'') ''state'') ''gasoline'')
                           ''trust.sqlite3'')
               else Inl (StoreError ''cannot determine home directory'')
           | _ \<Rightarrow> Inl (StoreError ''cannot determine home directory''))"
  by pat_completeness auto
termination by (relation "measure (\<lambda>(_, capacity). 1024 * 1024 - capacity)") auto

declare home_loop.simps [simp del]

definition default_database_path :: "string option \<Rightarrow> (nat \<Rightarrow> passwd_answer) \<Rightarrow> TrustStoreError + string" where
  "default_database_path xdg_state_home getpw =
     (case xdg_state_home of
        Some st \<Rightarrow>
          if st \<noteq> [] \<and> hd st = CHR ''/'' then Inr (path_append (path_append st ''gasoline'') ''trust.sqlite3'')
          else home_loop getpw 16384
      | None \<Rightarrow> home_loop getpw 16384)"

section \<open>Steps that keep a property of the directory\<close>

lemma triple_lift: "(\<And>x d. P d \<Longrightarrow> r = Inr x \<Longrightarrow> Q x d) \<Longrightarrow> (\<And>d. P d \<Longrightarrow> E d) \<Longrightarrow> triple P (liftp r) Q E"
  unfolding liftp_def by (cases r) (auto intro!: triple_raise triple_return)

lemma keep_require: "(\<And>d. P d \<Longrightarrow> E d) \<Longrightarrow> triple P (requirep b m) (\<lambda>_ d. P d \<and> b) E"
  unfolding requirep_def by (rule triple_lift) auto

lemma keep_store_call: "(\<And>d. P d \<Longrightarrow> E d) \<Longrightarrow> triple P (store_call m) (\<lambda>_. P) E"
  unfolding store_call_def by (rule triple_call)

lemma keep_handle: "(\<And>d. P d \<Longrightarrow> E d) \<Longrightarrow> triple P open_handle (\<lambda>_. P) E"
  unfolding open_handle_def by (rule keep_store_call)

lemma keep_sql_call: "(\<And>d. P d \<Longrightarrow> E d) \<Longrightarrow> triple P (sql_call env) (\<lambda>_. P) E"
  unfolding sql_call_def by (rule triple_call)

lemma keep_sync:
  assumes "\<And>d. P d \<Longrightarrow> P (f d)" and "\<And>d. P d \<Longrightarrow> E d"
  shows "triple P (sync_fd f) (\<lambda>_. P) E"
proof (rule tripleI)
  fix es d r es1 d1
  assume "P d" and "sync_fd f (es, d) = (r, es1, d1)"
  then show "case r of Value x \<Rightarrow> P d1 | _ \<Rightarrow> E d1"
    using assms by (induction f "(es, d)" arbitrary: es d rule: sync_fd.induct) (auto split: sys.splits errno.splits)
qed

lemma keep_flock: "(\<And>d. P d \<Longrightarrow> E d) \<Longrightarrow> triple P (flock_wait answers) (\<lambda>_. P) E"
proof (rule tripleI)
  fix es d r es1 d1
  assume "\<And>d. P d \<Longrightarrow> E d" and "P d" and "flock_wait answers (es, d) = (r, es1, d1)"
  then show "case r of Value x \<Rightarrow> P d1 | _ \<Rightarrow> E d1"
    by (induction answers "(es, d)" rule: flock_wait.induct)
      (auto simp: raisep_def returnp_def split: option.splits if_splits)
qed

lemma inspect_file_stat: "inspect_file env n = Inr b \<Longrightarrow> b \<longleftrightarrow> fstatat env n \<noteq> StatAbsent"
  by (auto simp: inspect_file_def split: stat_result.splits)

lemma keep_inspect:
  "(\<And>d. P d \<Longrightarrow> E d) \<Longrightarrow> triple P (inspect_in env n) (\<lambda>b d. P d \<and> (b \<longleftrightarrow> od_stat d n \<noteq> StatAbsent)) E"
  unfolding inspect_in_def
  by (rule triple_syscall, assumption, rule triple_raise, assumption, rule triple_bind [where R = "\<lambda>d1 d. P d \<and> d1 = d"],
      rule triple_get, simp, rule triple_lift, auto dest: inspect_file_stat)

lemma keep_inspect_plain: "(\<And>d. P d \<Longrightarrow> E d) \<Longrightarrow> triple P (inspect_in env n) (\<lambda>_. P) E"
  by (rule triple_conseq [OF keep_inspect [where E = E and P = P]]) auto

lemma keep_sidecars: "(\<And>d. P d \<Longrightarrow> E d) \<Longrightarrow> triple P (inspect_sidecars env) (\<lambda>_. P) E"
  unfolding inspect_sidecars_def
  by (rule triple_bind, rule keep_inspect_plain, assumption)+ (rule triple_return, assumption)

lemma keep_read:
  "(\<And>d. P d \<Longrightarrow> E d) \<Longrightarrow> triple P (read_content env) (\<lambda>c d. P d \<and> od_content d = Some c) E"
  unfolding read_content_def
  by (rule triple_bind, rule keep_sql_call, assumption, rule triple_bind [where R = "\<lambda>d1 d. P d \<and> d1 = d"],
      rule triple_get, simp, auto split: option.splits intro!: triple_raise triple_return)

text \<open>Programs that keep \<open>P\<close> wherever they stop.\<close>

abbreviation keeps :: "(state_dir \<Rightarrow> bool) \<Rightarrow> 'a open_prog \<Rightarrow> bool" where
  "keeps P p \<equiv> triple P p (\<lambda>_. P) P"

lemma keeps_bind: "keeps P p \<Longrightarrow> (\<And>x. keeps P (f x)) \<Longrightarrow> keeps P (bindp p f)"
  by (rule triple_bind)

lemma keeps_require: "keeps P (requirep b m)"
  by (rule triple_conseq [OF keep_require [where P = P and E = P]]) auto

lemma keeps_call: "keeps P (callp e)"
  by (rule triple_call)

lemma keeps_return: "keeps P (returnp x)"
  by (rule triple_return)

lemma keeps_lift: "keeps P (liftp r)"
  by (rule triple_lift)

lemma keeps_read: "keeps P (read_content env)"
  by (rule triple_conseq [OF keep_read [where P = P and E = P]]) auto

lemma keeps_setting: "keeps P (setting env v)"
  unfolding setting_def by (intro keeps_bind keep_sql_call keeps_return; assumption)

lemma keeps_pragma: "keeps P query \<Longrightarrow> keeps P (pragma_integer env query)" "keeps P text_query \<Longrightarrow> keeps P (pragma_text env text_query)"
  unfolding pragma_integer_def pragma_text_def by (intro keeps_bind keeps_require keeps_return; assumption)+

lemmas keeps_intros = keeps_bind keeps_setting keeps_pragma keeps_require keeps_call keeps_return keeps_lift keeps_read keep_store_call keep_handle
  keep_sql_call keep_flock keep_inspect_plain keep_sidecars

text \<open>
  A phase in the life of the database file: a property that flushing and changes to other files keep.
  Everything up to the database itself keeps it.
\<close>

locale open_phase =
  fixes env :: open_env and P :: "state_dir \<Rightarrow> bool"
  assumes flushed: "P d \<Longrightarrow> P (mark_durable d)"
    and other_file: "P d \<Longrightarrow> n \<noteq> oe_name env \<Longrightarrow> P (put_stat n info d)"
begin

lemma keep_flushed: "keeps P (sync_fd mark_durable)"
  by (rule keep_sync) (rule flushed)

lemma keep_tree_loop: "(\<And>d. P d \<Longrightarrow> P (f d)) \<Longrightarrow> keeps P (sync_tree_loop n f)"
proof (induction n arbitrary: f)
  case 0
  then show ?case by (subst sync_tree_loop.simps) (intro keeps_intros keep_sync; simp add: keeps_return)
next
  case (Suc n)
  then show ?case by (subst sync_tree_loop.simps) (intro keeps_intros keep_sync; simp)
qed

lemma keep_directory: "keeps P (open_directory env)"
  unfolding open_directory_def sync_tree_def by (intro keeps_intros keep_tree_loop flushed; assumption)

lemma keep_lock: "keeps P (lock_directory env)"
  unfolding lock_directory_def open_lock_file_def
  by (intro keeps_intros triple_modify; simp add: other_file)

lemma keep_connect: "keeps P (connect_database env)"
  unfolding connect_database_def by (intro keeps_intros; assumption)

lemma keep_check_files: "keeps P (check_files_in env)"
  unfolding check_files_in_def by (intro keeps_intros; assumption)

end

section \<open>Phases of the database file\<close>

definition absent :: "open_env \<Rightarrow> state_dir \<Rightarrow> bool" where
  "absent env d \<longleftrightarrow> od_stat d (oe_name env) = StatAbsent"

text \<open>Created, but nothing was ever committed to it.\<close>

definition interrupted :: "open_env \<Rightarrow> state_dir \<Rightarrow> bool" where
  "interrupted env d \<longleftrightarrow> od_stat d (oe_name env) \<noteq> StatAbsent \<and> od_content d = Some blank_db"

definition current :: "sqlite_db \<Rightarrow> bool" where
  "current c \<longleftrightarrow> sd_application_id c = APPLICATION_ID \<and> sd_user_version c = SCHEMA_VERSION \<and>
     sd_v1 c \<noteq> None \<and> sd_v2 c \<noteq> None"

text \<open>A file with a given content that a loss of power does not take away.\<close>

definition holding :: "open_env \<Rightarrow> sqlite_db \<Rightarrow> state_dir \<Rightarrow> bool" where
  "holding env c d \<longleftrightarrow> od_stat d (oe_name env) \<noteq> StatAbsent \<and> od_durable d \<and> 100 \<le> od_size d \<and> od_content d = Some c"

definition established :: "open_env \<Rightarrow> database \<Rightarrow> state_dir \<Rightarrow> bool" where
  "established env db d \<longleftrightarrow> (\<exists>c. holding env c d \<and> current c \<and> tables_of c = db)"

definition fresh :: "open_env \<Rightarrow> state_dir \<Rightarrow> bool" where
  "fresh env d \<longleftrightarrow> interrupted env d \<and> od_durable d"

lemma lock_name [simp]: "oe_name env @ ''.lock'' \<noteq> oe_name env"
  by simp

interpretation absent_phase: open_phase env "absent env"
  by unfold_locales (simp_all add: absent_def mark_durable_def put_stat_def)

interpretation interrupted_phase: open_phase env "interrupted env"
  by unfold_locales (simp_all add: interrupted_def mark_durable_def put_stat_def)

interpretation fresh_phase: open_phase env "fresh env"
  by unfold_locales (simp_all add: fresh_def interrupted_def mark_durable_def put_stat_def)

interpretation holding_phase: open_phase env "holding env c"
  by unfold_locales (simp_all add: holding_def mark_durable_def put_stat_def)

section \<open>What opening does in each phase\<close>

lemma triple_pure: "(b \<Longrightarrow> triple P p Q E) \<Longrightarrow> triple (\<lambda>d. P d \<and> b) p Q E"
  by (auto simp: triple_def)

lemma triple_pre: "triple P p Q E \<Longrightarrow> (\<And>d. P1 d \<Longrightarrow> P d) \<Longrightarrow> triple P1 p Q E"
  by (rule triple_conseq)

text \<open>A step that keeps \<open>P\<close> and establishes a fact about its result, for the rest of the program.\<close>

lemma triple_fact:
  assumes "triple P p (\<lambda>x d. P d \<and> F x) E" and "\<And>x. F x \<Longrightarrow> triple P (f x) Q E"
  shows "triple P (bindp p f) Q E"
  by (rule triple_bind [OF assms(1)]) (rule triple_pure, rule assms(2))

lemma triple_step: "keeps P p \<Longrightarrow> (\<And>d. P d \<Longrightarrow> E d) \<Longrightarrow> (\<And>x. triple P (f x) Q E) \<Longrightarrow> triple P (bindp p f) Q E"
  by (rule triple_bind [where R = "\<lambda>_. P"]) (auto intro: triple_conseq)

lemma read_fact:
  assumes "\<And>d. P d \<Longrightarrow> od_content d = Some c0" and "\<And>d. P d \<Longrightarrow> E d"
  shows "triple P (read_content env) (\<lambda>c d. P d \<and> c = c0) E"
  by (rule triple_conseq [OF keep_read [where P = P and E = E]]) (use assms in auto)

definition upgrade :: "int \<Rightarrow> sqlite_db \<Rightarrow> sqlite_db" where
  "upgrade version c =
     c\<lparr>sd_v1 := (if version < 1 then Some ([], []) else sd_v1 c),
       sd_v2 := (if version < 2 then Some ([], []) else sd_v2 c),
       sd_application_id := APPLICATION_ID, sd_user_version := SCHEMA_VERSION\<rparr>"

lemma migrate_spec:
  assumes content: "\<And>d. P d \<Longrightarrow> od_content d = Some c0" and err: "\<And>d. P d \<Longrightarrow> E d"
  shows "triple P (migrate env version)
    (\<lambda>c d. (\<exists>d0. P d0 \<and> d = d0\<lparr>od_content := Some c\<rparr>) \<and> c = upgrade version c0 \<and>
       sd_v1 c \<noteq> None \<and> sd_v2 c \<noteq> None \<and> (version < 2 \<longrightarrow> sd_v2 c0 = None)) E"
proof -
  define c1 where "c1 = (if version < 1 then c0\<lparr>sd_v1 := Some ([], [])\<rparr> else c0)"
  define c2 where "c2 = (if version < 2 then c1\<lparr>sd_v2 := Some ([], [])\<rparr> else c1)"
  have v1: "triple P (if version < 1 then bindp (sql_call env) (\<lambda>_. liftp (create_v1 c0)) else returnp c0)
      (\<lambda>c d. P d \<and> c = c1) E"
    by (auto simp: c1_def create_v1_def err intro!: triple_if triple_step keep_sql_call triple_lift triple_return split: if_splits)
  have v2: "triple P (if version < 2 then bindp (sql_call env) (\<lambda>_. liftp (create_v2 c1)) else returnp c1)
      (\<lambda>c d. P d \<and> c = c2 \<and> (version < 2 \<longrightarrow> sd_v2 c0 = None)) E"
    by (auto simp: c2_def c1_def create_v2_def err intro!: triple_if triple_step keep_sql_call triple_lift triple_return split: if_splits)
  have up: "c2\<lparr>sd_application_id := APPLICATION_ID, sd_user_version := SCHEMA_VERSION\<rparr> = upgrade version c0"
    by (simp add: c2_def c1_def upgrade_def)
  have tables: "triple P (liftp (need_table t)) (\<lambda>_ d. P d \<and> t \<noteq> None) E" for t :: "'x option"
    by (rule triple_lift) (auto simp: need_table_def err split: if_splits)
  have files: "keeps P (check_files_in env)"
    unfolding check_files_in_def by (intro keeps_intros; assumption)
  let ?c = "upgrade version c0"
  have commit: "triple P (bindp (modifyp (\<lambda>d. d\<lparr>od_content := Some ?c\<rparr>)) (\<lambda>_. returnp ?c))
      (\<lambda>c d. (\<exists>d0. P d0 \<and> d = d0\<lparr>od_content := Some c\<rparr>) \<and> c = ?c \<and>
         sd_v1 c \<noteq> None \<and> sd_v2 c \<noteq> None \<and> (version < 2 \<longrightarrow> sd_v2 c0 = None)) E"
    if "version < 2 \<longrightarrow> sd_v2 c0 = None" "sd_v1 ?c \<noteq> None" "sd_v2 ?c \<noteq> None"
    using that
    by (intro triple_bind [where R = "\<lambda>_ d. \<exists>d0. P d0 \<and> d = d0\<lparr>od_content := Some ?c\<rparr>"] triple_modify triple_return) auto
  have sql: "keeps P (sql_call env)" by (rule keep_sql_call)
  note next_call = triple_step [OF sql err]
  show ?thesis
    unfolding migrate_def
    by (rule triple_fact [OF read_fact [OF content err]], assumption, assumption, hypsubst,
        rule triple_fact [OF v1], hypsubst, rule triple_fact [OF v2], erule conjE, hypsubst,
        rule next_call, assumption, rule next_call, assumption, simp only: Let_def up, rule next_call, assumption,
        rule triple_step [OF keeps_require err], assumption, rule next_call, assumption, rule triple_fact [OF tables],
        rule next_call, assumption, rule triple_fact [OF tables], rule next_call, assumption, rule next_call, assumption,
        rule triple_step [OF files err], assumption, rule next_call, assumption, rule commit, assumption+)
qed

lemma check_database_spec:
  assumes content: "\<And>d. P d \<Longrightarrow> od_content d = Some c0" and err: "\<And>d. P d \<Longrightarrow> E d"
    and wal: "\<And>d. P d \<Longrightarrow> P1 (enter_wal env d)" and err1: "\<And>d. P1 d \<Longrightarrow> E d"
  shows "triple P (check_database env existing)
    (\<lambda>v d. P1 d \<and> v = sd_user_version c0 \<and> recognized_db existing c0) E"
proof -
  note check = triple_step [OF keeps_require err] and keep1 = triple_step [OF _ err1]
  have read: "triple P (stored env f) (\<lambda>v d. P d \<and> v = f c0) E" for f :: "sqlite_db \<Rightarrow> 'x"
    unfolding stored_def
    by (rule triple_fact [OF read_fact [OF content err]], assumption, assumption, hypsubst, rule triple_return, simp)
  have row: "triple P (bindp (requirep (oe_pragma_row env) m) (\<lambda>_. returnp v)) (\<lambda>x d. P d \<and> x = v) E" for v :: 'x and m
    by (rule check, assumption, rule triple_return, simp)
  have int: "triple P (pragma_integer env (stored env f)) (\<lambda>v d. P d \<and> v = f c0) E" for f
    unfolding pragma_integer_def by (rule triple_fact [OF read], hypsubst, rule row)
  have txt1: "triple P (pragma_text env (stored env f)) (\<lambda>v d. P d \<and> v = f c0) E" for f
    unfolding pragma_text_def by (rule triple_fact [OF read], hypsubst, rule row)
  have recognized: "triple P (requirep (recognized existing a v) m) (\<lambda>_ d. P d \<and> recognized existing a v) E" for a v m
    using err by (rule keep_require)
  have rest: "triple P1 (bindp (sql_call env) (\<lambda>_. bindp (pragma_integer env (setting env (oe_synchronous env))) (\<lambda>k.
      bindp (requirep (k = 2) m) (\<lambda>_. returnp (sd_user_version c0)))))
      (\<lambda>v d. P1 d \<and> v = sd_user_version c0 \<and> recognized_db existing c0) E" if "recognized_db existing c0" for m
    by (rule keep1, rule keep_sql_call, assumption, assumption, rule keep1, rule keeps_pragma(1), rule keeps_setting, assumption,
        rule keep1, rule keeps_require, assumption, rule triple_return, use that in simp)
  show ?thesis
    unfolding check_database_def
    by (rule triple_fact [OF txt1], hypsubst, rule check, assumption, rule triple_fact [OF int], hypsubst,
        rule triple_fact [OF int], hypsubst, rule triple_fact [OF recognized],
        rule triple_step [OF keeps_pragma(2) [OF keeps_setting] err], assumption, rule check, assumption,
        rule triple_bind [where R = "\<lambda>_. P1"], rule triple_modify, erule wal, rule rest, assumption)
qed

lemma enter_wal_simps:
  "holding env c d \<Longrightarrow> holding env c (enter_wal env d)"
  "interrupted env d \<Longrightarrow> interrupted env (enter_wal env d)"
  "fresh env d \<Longrightarrow> 100 \<le> oe_written_size env \<Longrightarrow> holding env blank_db (enter_wal env d)"
  by (auto simp: holding_def interrupted_def fresh_def enter_wal_def)

text \<open>An existing file passes the preparation only as an existing file.\<close>

lemma prepare_existing:
  assumes "open_phase env P" and present: "\<And>d. P d \<Longrightarrow> od_stat d (oe_name env) \<noteq> StatAbsent"
  shows "triple P (prepare_file env) (\<lambda>existing d. P d \<and> existing) P"
proof -
  have inspect: "triple P (inspect_in env (oe_name env)) (\<lambda>existing d. P d \<and> existing) P"
    by (rule triple_conseq [OF keep_inspect [where P = P and E = P]]) (use present in auto)
  have rest: "triple P (if existing then bindp (requirep b m) (\<lambda>_. returnp True) else q) (\<lambda>existing d. P d \<and> existing) P"
    if existing for existing b m q
    using that by (auto intro!: triple_step [where P = P] keeps_require triple_return)
  show ?thesis
    unfolding prepare_file_def
    by (rule triple_fact [OF inspect], rule triple_step [OF keep_sidecars], assumption, assumption,
        rule triple_step [OF keeps_require], assumption, rule triple_step [where P = P], rule triple_get, assumption,
        assumption, rule rest, assumption)
qed

text \<open>The content that opening accepts, and what it makes of it: nothing is lost.\<close>

definition acceptable :: "sqlite_db \<Rightarrow> bool" where
  "acceptable c \<longleftrightarrow> recognized_db True c \<and> sd_v1 c \<noteq> None \<and> (sd_user_version c < 2 \<longleftrightarrow> sd_v2 c = None)"

lemma upgrade_current:
  assumes "acceptable c"
  shows "current (upgrade (sd_user_version c) c)" and "tables_of (upgrade (sd_user_version c) c) = tables_of c"
  using assms
  by (auto simp: acceptable_def recognized_def current_def upgrade_def tables_of_def split: option.splits prod.splits)

lemma upgrade_twice: "current c \<Longrightarrow> upgrade (sd_user_version c) c = c \<and> acceptable c"
  by (auto simp: current_def upgrade_def acceptable_def recognized_def SCHEMA_VERSION_def)

lemma open_existing:
  "triple (holding env c) (open_store env)
     (\<lambda>st d. acceptable c \<and> holding env (upgrade (sd_user_version c) c) d \<and> ts_db st = tables_of c)
     (\<lambda>d. holding env c d \<or> acceptable c \<and> holding env (upgrade (sd_user_version c) c) d)"
    (is "triple ?P _ ?Q ?E")
proof -
  let ?c = "upgrade (sd_user_version c) c"
  have content: "od_content d = Some c" if "?P d" for d using that by (simp add: holding_def)
  have err: "?E d" if "?P d" for d using that by simp
  have prepare: "triple ?P (prepare_file env) (\<lambda>existing d. ?P d \<and> existing) ?E"
    by (rule triple_conseq [OF prepare_existing [OF holding_phase.open_phase_axioms]]) (auto simp: holding_def)
  have check: "triple ?P (check_database env existing) (\<lambda>v d. ?P d \<and> v = sd_user_version c \<and> recognized_db existing c) ?E"
    for existing
    by (rule check_database_spec) (simp_all add: content enter_wal_simps)
  have migrate: "triple ?P (migrate env (sd_user_version c)) (\<lambda>c1 d. holding env ?c d \<and> c1 = ?c \<and> acceptable c) ?E"
    if "recognized_db True c"
    by (rule triple_conseq [OF migrate_spec [where P = ?P and E = ?E, OF content err]])
      (use that in \<open>auto simp: holding_def acceptable_def upgrade_def recognized_def\<close>)
  have finish: "triple (holding env ?c) (bindp (sync_fd mark_durable) (\<lambda>_. returnp
      \<lparr>ts_db = tables_of ?c, ts_local_generation = 0, ts_data_version = oe_data_version env\<rparr>)) ?Q ?E"
    if "acceptable c"
    by (rule triple_step [OF holding_phase.keep_flushed], use that in simp, rule triple_return)
      (use that in \<open>simp add: upgrade_current\<close>)
  show ?thesis
    unfolding open_store_def
    by (rule triple_step [OF holding_phase.keep_directory err], assumption, rule triple_step [OF holding_phase.keep_lock err],
        assumption, rule triple_fact [OF prepare], rule triple_step [OF holding_phase.keep_connect err], assumption,
        rule triple_fact [OF check], erule conjE, hypsubst, simp only:, rule triple_bind, rule migrate, assumption,
        rule triple_pure, erule conjE, hypsubst, rule finish, assumption)
qed

lemma open_interrupted: "triple (interrupted env) (open_store env) (\<lambda>_ _. False) (interrupted env)"
proof -
  let ?P = "interrupted env"
  have prepare: "triple ?P (prepare_file env) (\<lambda>existing d. ?P d \<and> existing) ?P"
    by (rule prepare_existing [OF interrupted_phase.open_phase_axioms]) (simp add: interrupted_def)
  have check: "triple ?P (check_database env existing)
      (\<lambda>v d. ?P d \<and> v = sd_user_version blank_db \<and> recognized_db existing blank_db) ?P" for existing
    by (rule check_database_spec) (simp_all add: enter_wal_simps, simp add: interrupted_def)
  have foreign: "\<not> recognized_db True blank_db" by (simp add: recognized_def blank_db_def APPLICATION_ID_def)
  show ?thesis
    unfolding open_store_def
    by (rule triple_step [OF interrupted_phase.keep_directory], assumption, rule triple_step [OF interrupted_phase.keep_lock],
        assumption, rule triple_fact [OF prepare], rule triple_step [OF interrupted_phase.keep_connect], assumption,
        rule triple_fact [OF check]) (use foreign in simp)
qed

lemma prepare_absent:
  "triple (absent env) (prepare_file env) (\<lambda>existing d. fresh env d \<and> \<not> existing) (\<lambda>d. absent env d \<or> interrupted env d)"
    (is "triple ?P _ ?Q ?E")
proof -
  have inspect: "triple ?P (inspect_in env (oe_name env)) (\<lambda>existing d. ?P d \<and> \<not> existing) ?E"
    by (rule triple_conseq [OF keep_inspect [where P = ?P and E = ?P]]) (auto simp: absent_def)
  let ?I = "interrupted env"
  have tail: "triple ?I (bindp (sync_fd id) (\<lambda>_. sync_fd mark_durable)) (\<lambda>_. fresh env) ?E"
  proof (rule triple_step [where P = ?I])
    show "keeps ?I (sync_fd id)" by (rule keep_sync) simp_all
    show "triple ?I (sync_fd mark_durable) (\<lambda>_. fresh env) ?E"
    proof (rule tripleI)
      fix es d r es1 d1
      assume "?I d" and "sync_fd mark_durable (es, d) = (r, es1, d1)"
      then show "case r of Value x \<Rightarrow> fresh env d1 | _ \<Rightarrow> ?E d1"
        by (induction "mark_durable" "(es, d)" arbitrary: es d rule: sync_fd.induct)
          (auto simp: fresh_def interrupted_def mark_durable_def split: sys.splits errno.splits)
    qed
  qed simp
  have create: "triple ?P (create_database env) (\<lambda>_. fresh env) ?E"
    unfolding create_database_def
    by (rule triple_step [where P = ?P], rule keep_handle, assumption, simp, rule triple_step [where P = ?P],
        rule triple_get, assumption, simp, rule triple_step [OF keeps_require], simp, rule triple_bind [where R = "\<lambda>_. ?I"],
        rule triple_modify, simp add: interrupted_def put_stat_def own_file_def,
        rule triple_step [OF keep_store_call], assumption, simp, rule triple_bind [where R = "\<lambda>_. ?I"], rule triple_modify,
        simp add: interrupted_def put_stat_def own_file_def, rule tail)
  have rest: "triple ?P (if existing then q else bindp (create_database env) (\<lambda>_. returnp False)) ?Q ?E"
    if "\<not> existing" for existing q
    using that by (auto intro!: triple_bind [OF create] triple_return)
  show ?thesis
    unfolding prepare_file_def
    by (rule triple_fact [OF inspect], rule triple_step [OF keep_sidecars], assumption, simp,
        rule triple_step [OF keeps_require], simp, rule triple_step [where P = ?P], rule triple_get, assumption, simp,
        rule rest, assumption)
qed

lemma open_absent:
  assumes "100 \<le> oe_written_size env"
  shows "triple (absent env) (open_store env) (\<lambda>st d. holding env (upgrade 0 blank_db) d \<and> ts_db st = empty_db)
    (\<lambda>d. absent env d \<or> interrupted env d \<or> holding env (upgrade 0 blank_db) d)" (is "triple ?P _ ?Q ?E")
proof -
  let ?c = "upgrade 0 blank_db"
  have err: "?E d" if "?P d" for d using that by simp
  have errf: "?E d" if "fresh env d" for d using that by (simp add: fresh_def)
  have errh: "?E d" if "holding env blank_db d" for d using that by (auto simp: holding_def interrupted_def)
  have content: "od_content d = Some blank_db" if "holding env blank_db d" for d using that by (simp add: holding_def)
  have prepare: "triple ?P (prepare_file env) (\<lambda>existing d. fresh env d \<and> \<not> existing) ?E"
    by (rule triple_conseq [OF prepare_absent]) auto
  have check: "triple (fresh env) (check_database env existing)
      (\<lambda>v d. holding env blank_db d \<and> v = sd_user_version blank_db \<and> recognized_db existing blank_db) ?E" for existing
    by (rule check_database_spec) (use assms errf errh in \<open>simp_all add: enter_wal_simps\<close>, simp add: fresh_def interrupted_def)
  have migrate: "triple (holding env blank_db) (migrate env (sd_user_version blank_db)) (\<lambda>c1 d. holding env ?c d \<and> c1 = ?c) ?E"
    by (rule triple_conseq [OF migrate_spec [where P = "holding env blank_db" and E = ?E, OF content errh]])
      (auto simp: holding_def blank_db_def)
  have finish: "triple (holding env ?c) (bindp (sync_fd mark_durable) (\<lambda>_. returnp
      \<lparr>ts_db = tables_of ?c, ts_local_generation = 0, ts_data_version = oe_data_version env\<rparr>)) ?Q ?E"
    by (rule triple_step [OF holding_phase.keep_flushed], simp, rule triple_return)
      (simp add: upgrade_def tables_of_def empty_db_def)
  show ?thesis
    unfolding open_store_def
    by (rule triple_step [OF absent_phase.keep_directory err], assumption, rule triple_step [OF absent_phase.keep_lock err],
        assumption, rule triple_bind, rule prepare, rule triple_pure, rule triple_step [OF fresh_phase.keep_connect errf],
        assumption, rule triple_bind, rule check, rule triple_pure, erule conjE, hypsubst, rule triple_bind, rule migrate,
        rule triple_pure, hypsubst, rule finish)
qed

section \<open>The life of a store\<close>

text \<open>
  A loss of power takes an entry that was not flushed; committed contents stay.  The records after a
  write through an open store are those that the operation leaves; \<open>env0\<close> fixes what the length of a text is.
\<close>

definition store_power_loss :: "open_env \<Rightarrow> state_dir \<Rightarrow> state_dir \<Rightarrow> bool" where
  "store_power_loss env d d1 \<longleftrightarrow>
     d1 = d \<or> \<not> od_durable d \<and> d1 = put_stat (oe_name env) StatAbsent d"

definition put_tables :: "database \<Rightarrow> sqlite_db \<Rightarrow> sqlite_db" where
  "put_tables db c =
     c\<lparr>sd_v1 := Some (trusted_devices db, device_permissions db),
       sd_v2 := Some (pairing_attempts db, pairing_attempt_permissions db)\<rparr>"

inductive store_life :: "sql_env \<Rightarrow> string \<Rightarrow> state_dir \<Rightarrow> database \<Rightarrow> bool" for env0 name where
  life_new: "od_stat d name = StatAbsent \<Longrightarrow> store_life env0 name d empty_db"
| life_open: "store_life env0 name d db \<Longrightarrow> oe_name env = name \<Longrightarrow> 100 \<le> oe_written_size env \<Longrightarrow>
    open_store env (es, d) = (r, es1, d1) \<Longrightarrow> store_life env0 name d1 db"
| life_power_loss: "store_life env0 name d db \<Longrightarrow> oe_name env = name \<Longrightarrow> store_power_loss env d d1 \<Longrightarrow>
    store_life env0 name d1 db"
| life_write: "store_life env0 name d db \<Longrightarrow> oe_name env = name \<Longrightarrow> 100 \<le> oe_written_size env \<Longrightarrow>
    open_store env (es, d) = (Value st, es1, d1) \<Longrightarrow> od_content d1 = Some c \<Longrightarrow>
    text_length senv = text_length env0 \<Longrightarrow> run_op senv opn st = (r, st1) \<Longrightarrow>
    store_life env0 name (d1\<lparr>od_content := Some (put_tables (ts_db st1) c)\<rparr>) (ts_db st1)"

lemma established_open:
  assumes "established env db d" and run: "open_store env (es, d) = (r, es1, d1)"
  shows "established env db d1" and "r = Value st \<Longrightarrow> ts_db st = db"
proof -
  obtain c where c: "holding env c d" "current c" "tables_of c = db" using assms(1) by (auto simp: established_def)
  have up: "upgrade (sd_user_version c) c = c" using upgrade_twice [OF c(2)] by simp
  have spec: "case r of Value st \<Rightarrow> holding env c d1 \<and> ts_db st = db | _ \<Rightarrow> holding env c d1"
    using tripleD [OF open_existing c(1) run] c(3) unfolding up by (auto split: outcome.splits)
  then show "established env db d1" using c by (auto simp: established_def split: outcome.splits)
  show "ts_db st = db" if "r = Value st" using spec that by simp
qed

lemma fresh_established: "holding env (upgrade 0 blank_db) d \<Longrightarrow> established env empty_db d"
  by (auto simp: established_def current_def upgrade_def tables_of_def empty_db_def)

text \<open>What the directory may be when the store's records are \<open>db\<close>.\<close>

definition life_ok :: "open_env \<Rightarrow> database \<Rightarrow> state_dir \<Rightarrow> bool" where
  "life_ok env db d \<longleftrightarrow> established env db d \<or> db = empty_db \<and> (absent env d \<or> interrupted env d)"

lemma life_ok_open:
  assumes "life_ok env db d" and "100 \<le> oe_written_size env" and run: "open_store env (es, d) = (r, es1, d1)"
  shows "life_ok env db d1 \<and> (\<forall>st. r = Value st \<longrightarrow> ts_db st = db \<and> established env db d1)"
proof -
  consider "established env db d" | "db = empty_db" "absent env d" | "db = empty_db" "interrupted env d"
    using assms(1) by (auto simp: life_ok_def)
  then show ?thesis
  proof cases
    case 1
    then show ?thesis using established_open [OF 1 run] by (simp add: life_ok_def)
  next
    case 2
    from tripleD [OF open_absent [OF assms(2)] 2(2) run] 2(1) show ?thesis
      by (auto simp: life_ok_def dest: fresh_established split: outcome.splits)
  next
    case 3
    from tripleD [OF open_interrupted 3(2) run] 3(1) show ?thesis
      by (auto simp: life_ok_def split: outcome.splits)
  qed
qed

lemma life_ok_env: "oe_name env = oe_name env1 \<Longrightarrow> life_ok env db d = life_ok env1 db d"
  by (simp add: life_ok_def established_def holding_def absent_def interrupted_def)

lemma life_ok_power_loss: "life_ok env db d \<Longrightarrow> store_power_loss env d d1 \<Longrightarrow> life_ok env db d1"
  by (auto simp: life_ok_def store_power_loss_def established_def holding_def absent_def put_stat_def)

lemma established_write:
  "established env db d \<Longrightarrow> od_content d = Some c \<Longrightarrow> established env db1 (d\<lparr>od_content := Some (put_tables db1 c)\<rparr>)"
  by (auto simp: established_def holding_def current_def put_tables_def tables_of_def)

lemma store_life_ok: "store_life env0 name d db \<Longrightarrow> oe_name env = name \<Longrightarrow> life_ok env db d"
proof (induction arbitrary: env rule: store_life.induct)
  case (life_new d)
  then show ?case by (simp add: life_ok_def absent_def)
next
  case (life_open d db env1 es r es1 d1)
  then show ?case using life_ok_open [of env1 db d es r es1 d1] life_ok_env [of env env1] by simp
next
  case (life_power_loss d db env1 d1)
  then show ?case using life_ok_power_loss [of env1 db d d1] life_ok_env [of env env1] by simp
next
  case (life_write d db env1 es st es1 d1 c senv opn r st1)
  then have "established env1 db d1" using life_ok_open [of env1 db d es "Value st" es1 d1] by simp
  then show ?case
    using established_write [of env1 db d1 c "ts_db st1"] life_write.hyps life_write.prems life_ok_env [of env env1]
    by (simp add: life_ok_def)
qed

lemma store_life_wf: "store_life env0 name d db \<Longrightarrow> wf_db env0 db"
proof (induction rule: store_life.induct)
  case (life_write d db env es st es1 d1 c senv opn r st1)
  have "life_ok env db d" using life_write.hyps(1,2) store_life_ok by blast
  then have "ts_db st = db" using life_ok_open life_write.hyps(3,4) by blast
  then have "wf_db senv (ts_db st)" using life_write.IH wf_db_env [OF life_write.hyps(6)] by simp
  then show ?case using run_op_wf [of senv st opn] life_write.hyps(7) wf_db_env [OF life_write.hyps(6)] by simp
qed (simp_all add: wf_empty_db)

lemma triple_trivial: "triple (\<lambda>_. True) p (\<lambda>_ _. True) (\<lambda>_. True)"
  by (auto simp: triple_def split: outcome.splits)

lemma open_generation: "triple (\<lambda>_. True) (open_store env) (\<lambda>st _. ts_local_generation st = 0) (\<lambda>_. True)"
  unfolding open_store_def by (rule triple_bind, rule triple_trivial)+ (rule triple_return, simp)

lemma opened_records:
  assumes "store_life env0 (oe_name env) d db" and "100 \<le> oe_written_size env"
    and "open_store env (es, d) = (Value st, es1, d1)"
  shows "ts_db st = db \<and> wf_db env0 db \<and> ts_local_generation st = 0 \<and> store_life env0 (oe_name env) d1 db \<and> od_content d1 \<noteq> None"
proof -
  have "life_ok env db d" using assms(1) store_life_ok by blast
  from life_ok_open [OF this assms(2,3)] have "ts_db st = db" "established env db d1" by auto
  moreover have "ts_local_generation st = 0" using tripleD [OF open_generation TrueI assms(3)] by simp
  ultimately show ?thesis
    using life_open [OF assms(1) _ assms(2,3)] store_life_wf [OF assms(1)] by (auto simp: established_def holding_def)
qed

section \<open>Properties\<close>

text \<open>C8. From a directory without a database on, through any sequence of openings that succeed, fail or are killed
  at any system call, losses of power and writes, the store that an opening returns has exactly the
  records left by the writes made so far, which satisfy the invariant of the store: an established store is never silently replaced by an empty one,
  and a database whose creation was interrupted is never accepted.\<close>

theorem trust_records_survive:
  assumes "store_life env0 (oe_name env) d db" and "100 \<le> oe_written_size env"
    and "open_store env (es, d) = (Value st, es1, d1)"
  shows "ts_db st = db \<and> wf_db env0 db \<and> ts_local_generation st = 0 \<and> store_life env0 (oe_name env) d1 db \<and> od_content d1 \<noteq> None"
  using assms by (rule opened_records)

text \<open>C37. Opening an existing file: it is accepted only when it carries the application id, a known schema version and the
  tables of that version, and then it has the records it had, after an upgrade that adds only empty tables;
  when the opening fails or is killed, the content is unchanged or is that upgrade, and a database that is not accepted is left as it was.\<close>

theorem existing_database_kept:
  assumes "holding env c d" and "open_store env (es, d) = (r, es1, d1)"
  shows "(case r of Value st \<Rightarrow> acceptable c \<and> ts_db st = tables_of c | _ \<Rightarrow> True) \<and>
    (if acceptable c
     then od_content d1 \<in> {Some c, Some (upgrade (sd_user_version c) c)} \<and>
       current (upgrade (sd_user_version c) c) \<and> tables_of (upgrade (sd_user_version c) c) = tables_of c
     else od_content d1 = Some c)"
  using tripleD [OF open_existing assms] upgrade_current [of c]
  by (auto simp: holding_def split: outcome.splits)

section \<open>Witnesses\<close>

definition sample_sql :: sql_env where
  "sample_sql = \<lparr>text_length = length, db_filename = ''trust.sqlite3'', fstatat = (\<lambda>_. StatAbsent), geteuid = 1000,
     begin_error = None, step_error = (\<lambda>_. None), commit_error = None\<rparr>"

definition sample_open_env :: open_env where
  "sample_open_env =
     \<lparr>oe_sql = sample_sql,
      oe_umask = 18, oe_threadsafe = 1, oe_libversion = 3045001, oe_error_text = [], oe_dir_uid = 1000, oe_depth = 0,
      oe_lock = [(Some EAGAIN, 10), (None, 20)], oe_code = 5, oe_foreign_keys = 1, oe_journal_mode = ''wal'',
      oe_synchronous = 2, oe_written_size = 4096, oe_data_version = 1, oe_pragma_row = True\<rparr>"

definition sample_state_dir :: state_dir where
  "sample_state_dir = \<lparr>od_stat = (\<lambda>_. StatAbsent), od_size = 0, od_content = None, od_durable = True\<rparr>"

definition first_opening :: "(open_error, TrustStore) outcome \<times> sys list \<times> state_dir" where
  "first_opening = open_store sample_open_env (replicate 64 (Proceed 0), sample_state_dir)"

lemma first_opening_returns:
  "fst first_opening = Value \<lparr>ts_db = empty_db, ts_local_generation = 0, ts_data_version = 1\<rparr>"
  by code_simp

theorem trust_records_survive_witness:
  "\<exists>es1 d1. first_opening = (Value \<lparr>ts_db = empty_db, ts_local_generation = 0, ts_data_version = 1\<rparr>, es1, d1) \<and>
     store_life sample_sql ''trust.sqlite3'' d1 empty_db \<and> od_content d1 \<noteq> None"
proof -
  obtain es1 d1 where run: "first_opening = (Value \<lparr>ts_db = empty_db, ts_local_generation = 0, ts_data_version = 1\<rparr>, es1, d1)"
    using first_opening_returns by (metis prod.collapse)
  have name: "oe_name sample_open_env = ''trust.sqlite3''" by (simp add: sample_open_env_def sample_sql_def)
  have "store_life sample_sql (oe_name sample_open_env) sample_state_dir empty_db"
    by (rule life_new) (simp add: sample_state_dir_def)
  moreover have "100 \<le> oe_written_size sample_open_env" by (simp add: sample_open_env_def)
  ultimately have "store_life sample_sql (oe_name sample_open_env) d1 empty_db \<and> od_content d1 \<noteq> None"
    using trust_records_survive [OF _ _ run [unfolded first_opening_def]] by blast
  then show ?thesis using run unfolding name by blast
qed

definition old_database :: sqlite_db where
  "old_database = \<lparr>sd_application_id = APPLICATION_ID, sd_user_version = 1, sd_v1 = Some ([], []), sd_v2 = None,
     sd_intact = True\<rparr>"

definition old_state_dir :: state_dir where
  "old_state_dir = \<lparr>od_stat = (\<lambda>n. if n = ''trust.sqlite3'' then own_file sample_open_env (0x8000 OR 384) else StatAbsent),
     od_size = 8192, od_content = Some old_database, od_durable = True\<rparr>"

theorem existing_database_kept_witness:
  "od_content (snd (snd (open_store sample_open_env (replicate 64 (Proceed 0), old_state_dir)))) \<in>
     {Some old_database, Some (upgrade 1 old_database)} \<and> tables_of (upgrade 1 old_database) = tables_of old_database"
proof -
  have hold: "holding sample_open_env old_database old_state_dir"
    by (simp add: holding_def old_state_dir_def sample_open_env_def sample_sql_def own_file_def)
  have "acceptable old_database"
    by (simp add: acceptable_def recognized_def old_database_def SCHEMA_VERSION_def)
  moreover have "sd_user_version old_database = 1" by (simp add: old_database_def)
  moreover obtain r es1 d1 where run: "open_store sample_open_env (replicate 64 (Proceed 0), old_state_dir) = (r, es1, d1)"
    by (cases "open_store sample_open_env (replicate 64 (Proceed 0), old_state_dir)") auto
  ultimately show ?thesis
    using existing_database_kept [OF hold run] unfolding run by auto
qed

end
