(* ===== verification/Daemon.thy ===== *)
theory Daemon
  imports Trust_Open Api_Server Avahi
begin

text \<open>
  The process: \<open>src/daemon/main.cpp\<close>, the default path and the cached identity of
  \<open>src/core/identity/device_identity.cpp\<close> and \<open>src/core/utils/device_id.cpp\<close>, the listening sockets of \<open>src/core/networking/server.cpp\<close> and of
  \<open>bootstrap_api_server\<close> in \<open>src/interface/api_server.cpp\<close>.  The identity is loaded and the trust store
  opened before any thread starts.  An accept loop is run for a list of accepted connections; each client of the
  local interface is one step.
\<close>

section \<open>Listening sockets\<close>

definition API_PORT :: int where "API_PORT = 42667"

datatype in_address = INADDR_ANY | INADDR_LOOPBACK

record endpoint =
  ep_address :: in_address
  ep_port :: "16 word"
  ep_backlog :: int

record listen_env =
  le_socket :: int
  le_setsockopt :: int
  le_bind :: int
  le_listen :: int

text \<open>The descriptors that were closed again, and the listening one.\<close>

definition server_listen :: "listen_env \<Rightarrow> int list \<times> (int \<times> endpoint) option" where
  "server_listen le =
     (let server_fd = le_socket le
      in if server_fd < 0 then ([], None)
         else if le_setsockopt le \<noteq> 0 then ([server_fd], None)
         else if le_bind le \<noteq> 0 then ([server_fd], None)
         else if le_listen le \<noteq> 0 then ([server_fd], None)
         else ([], Some (server_fd, \<lparr>ep_address = INADDR_ANY, ep_port = word_of_int SERVER_PORT, ep_backlog = 5\<rparr>)))"

definition api_listen :: "listen_env \<Rightarrow> int list \<times> (int \<times> endpoint) option" where
  "api_listen le =
     (let server_fd = le_socket le
      in if server_fd < 0 then ([], None)
         else if le_bind le < 0 then ([server_fd], None)
         else if le_listen le < 0 then ([server_fd], None)
         else ([], Some (server_fd, \<lparr>ep_address = INADDR_LOOPBACK, ep_port = word_of_int API_PORT, ep_backlog = 8\<rparr>)))"

text \<open>A failed accept only goes on with the loop, whatever its error number.\<close>

fun server_loop :: "host \<Rightarrow> net_env list \<Rightarrow> world \<Rightarrow> world" where
  "server_loop h [] w = w"
| "server_loop h (env # envs) w = server_loop h envs (snd (server_accept h env w))"

definition server_start :: "host \<Rightarrow> listen_env \<Rightarrow> net_env list \<Rightarrow> world \<Rightarrow> int list \<times> world" where
  "server_start h le envs w =
     (case server_listen le of
        (closed, None) \<Rightarrow> (closed, w)
      | (closed, Some _) \<Rightarrow> (closed, server_loop h envs w))"

text \<open>An exception that leaves a client's thread ends the process.\<close>

fun api_loop :: "host \<Rightarrow> (int \<times> api_env) list \<Rightarrow> world \<Rightarrow> bool \<times> world" where
  "api_loop h [] w = (True, w)"
| "api_loop h ((client_fd, env) # clients) w =
     (if client_fd < 0 then api_loop h clients w
      else case handle_api_client h env w of
             (ApiTerminate, w1) \<Rightarrow> (False, w1)
           | (ApiSent _, w1) \<Rightarrow> api_loop h clients w1)"

definition bootstrap_api_server :: "host \<Rightarrow> listen_env \<Rightarrow> (int \<times> api_env) list \<Rightarrow> world \<Rightarrow> int list \<times> bool \<times> world" where
  "bootstrap_api_server h le clients w =
     (case api_listen le of
        (closed, None) \<Rightarrow> (closed, True, w)
      | (closed, Some _) \<Rightarrow> (closed, api_loop h clients w))"

section \<open>Default paths and the cached identity\<close>

definition path_filename :: "string \<Rightarrow> string" where
  "path_filename p = rev (takeWhile (\<lambda>c. c \<noteq> CHR ''/'') (rev p))"

text \<open>\<open>getpwuid\<close> may find no entry, and an entry may have no directory.\<close>

definition resolve_home_directory :: "string option option \<Rightarrow> string + string" where
  "resolve_home_directory entry =
     (case entry of
        Some (Some dir) \<Rightarrow>
          if dir = [] then Inl (make_error ''unable to determine the current user's home directory'') else Inr dir
      | _ \<Rightarrow> Inl (make_error ''unable to determine the current user's home directory''))"

definition default_identity_path :: "string option option \<Rightarrow> string + string" where
  "default_identity_path entry =
     (case resolve_home_directory entry of
        Inl e \<Rightarrow> Inl e
      | Inr home \<Rightarrow> Inr (path_append (path_append (path_append home ''.config'') ''gasoline'') ''device_id''))"

text \<open>What the system gives to one start of the process.\<close>

record start_env =
  se_getpwuid :: "string option option"
  se_identity :: identity_env
  se_state_home :: "string option"
  se_getpwuid_r :: "nat \<Rightarrow> passwd_answer"
  se_store :: open_env

definition load_or_create_default :: "sodium \<Rightarrow> start_env \<Rightarrow> DeviceIdentity proc" where
  "load_or_create_default S env =
     (case default_identity_path (se_getpwuid env) of
        Inl e \<Rightarrow> raisep e
      | Inr path \<Rightarrow> load_or_create S ((se_identity env)\<lparr>ie_filename := path_filename path\<rparr>))"

text \<open>The function-local static: once initialized it is only read, and an exception leaves it uninitialized.\<close>

definition get_my_device_identity ::
  "sodium \<Rightarrow> start_env \<Rightarrow> DeviceIdentity option \<Rightarrow> (DeviceIdentity \<times> DeviceIdentity option) proc" where
  "get_my_device_identity S env cache =
     (case cache of
        Some identity \<Rightarrow> returnp (identity, cache)
      | None \<Rightarrow> bindp (load_or_create_default S env) (\<lambda>identity. returnp (identity, Some identity)))"

definition get_my_device_id ::
  "sodium \<Rightarrow> start_env \<Rightarrow> DeviceIdentity option \<Rightarrow> (string \<times> DeviceIdentity option) proc" where
  "get_my_device_id S env cache =
     bindp (get_my_device_identity S env cache) (\<lambda>(identity, cache1). returnp (di_device_id identity, cache1))"

definition open_default_store :: "start_env \<Rightarrow> TrustStore open_prog" where
  "open_default_store env =
     (case default_database_path (se_state_home env) (se_getpwuid_r env) of
        Inl e \<Rightarrow> raisep (OpenStore e)
      | Inr path \<Rightarrow>
          open_store ((se_store env)\<lparr>oe_sql := (oe_sql (se_store env))\<lparr>db_filename := path_filename path\<rparr>\<rparr>))"

section \<open>Start of the process\<close>

datatype start_failure = IdentityFailed string | StoreFailed open_error | AuthenticationFailed std_error | StartKilled

text \<open>The constructor of the authentication service, which starts its monitor.\<close>

definition SessionAuthentication_create :: "TrustStore option \<Rightarrow> std_error + SessionAuthentication \<times> monitor" where
  "SessionAuthentication_create trust_store =
     (case trust_store of
        None \<Rightarrow> Inl (InvalidArgument ''SessionAuthentication requires a TrustStore'')
      | Some _ \<Rightarrow> Inr (new_auth, new_monitor))"

definition initial_world :: "TrustStore \<Rightarrow> SessionAuthentication \<Rightarrow> monitor \<Rightarrow> world" where
  "initial_world st auth mon =
     \<lparr>w_conns = Map.empty, w_registry = [], w_auth = auth, w_store = st, w_monitor = mon,
      w_events = [], w_manager = [], w_next_session_id = 1, w_tick = 0\<rparr>"

text \<open>What \<open>main\<close> does before it starts a thread.\<close>

definition daemon_init ::
  "sodium \<Rightarrow> start_env \<Rightarrow> sys list \<times> disk \<Rightarrow> sys list \<times> state_dir \<Rightarrow> start_failure + DeviceIdentity \<times> world" where
  "daemon_init S env identity_state store_state =
     (case get_my_device_identity S env None identity_state of
        (Raised e, _) \<Rightarrow> Inl (IdentityFailed e)
      | (Killed, _) \<Rightarrow> Inl StartKilled
      | (Value (identity, _), _) \<Rightarrow>
          (case open_default_store env store_state of
             (Raised e, _) \<Rightarrow> Inl (StoreFailed e)
           | (Killed, _) \<Rightarrow> Inl StartKilled
           | (Value st, _) \<Rightarrow>
               (case SessionAuthentication_create (Some st) of
                  Inl e \<Rightarrow> Inl (AuthenticationFailed e)
                | Inr (auth, mon) \<Rightarrow> Inr (identity, initial_world st auth mon))))"

text \<open>The endpoints that the threads then open.\<close>

definition daemon_main ::
  "sodium \<Rightarrow> start_env \<Rightarrow> sys list \<times> disk \<Rightarrow> sys list \<times> state_dir \<Rightarrow> listen_env \<Rightarrow> listen_env \<Rightarrow>
   (start_failure + DeviceIdentity \<times> world) \<times> endpoint list" where
  "daemon_main S env identity_state store_state server_env api_env =
     (case daemon_init S env identity_state store_state of
        Inl e \<Rightarrow> (Inl e, [])
      | Inr iw \<Rightarrow>
          (Inr iw,
           (case snd (server_listen server_env) of None \<Rightarrow> [] | Some (_, ep) \<Rightarrow> [ep]) @
           (case snd (api_listen api_env) of None \<Rightarrow> [] | Some (_, ep) \<Rightarrow> [ep])))"

text \<open>The test sender: it looks at the registry once a second until another device is ready.\<close>

fun found_ready :: "string \<Rightarrow> Device list \<Rightarrow> bool" where
  "found_ready my_id [] = False"
| "found_ready my_id (d # devices) =
     (if dev_state d = READY \<and> dev_device_id d \<noteq> my_id then True else found_ready my_id devices)"

fun sender_wait :: "string \<Rightarrow> Device list list \<Rightarrow> nat option" where
  "sender_wait my_id [] = None"
| "sender_wait my_id (devices # later) =
     (if found_ready my_id devices then Some 0 else map_option Suc (sender_wait my_id later))"

definition sender_thread :: "host \<Rightarrow> Device list list \<Rightarrow> world \<Rightarrow> (std_error + unit) \<times> world" where
  "sender_thread h registries w =
     (case sender_wait (h_my_device_id h) registries of
        None \<Rightarrow> (Inr (), w)
      | Some _ \<Rightarrow> broadcast_message h ''Hello from my system'' w)"

section \<open>The threads of the process\<close>

text \<open>
  After the initialization \<open>main\<close> creates four threads, runs the discovery client itself and then joins
  the threads in the order of their creation.  A thread that cannot be created, an exception that leaves a thread and an
  exception that leaves \<open>main\<close> end the process by \<open>std::terminate\<close>, and so does the destruction of a thread
  that was not joined.
\<close>

datatype daemon_thread = ServerThread | DiscoveryServiceThread | SenderThread | ApiThread

datatype main_pc =
    Creating "daemon_thread list"
  | Discovering
  | Joining "daemon_thread list"
  | MainReturned
  | Terminated

record process =
  pr_pc :: main_pc
  pr_running :: "daemon_thread set"
  pr_joinable :: "daemon_thread set"

definition main_threads :: "daemon_thread list" where
  "main_threads = [ServerThread, DiscoveryServiceThread, SenderThread, ApiThread]"

datatype main_event =
    ThreadCreated
  | CreationFailed
  | DiscoveryReturned
  | JoinReturned
  | ThreadEnded daemon_thread
  | ThreadThrew daemon_thread

text \<open>What the next thing that happens does to the process; an event that cannot happen now leaves it alone.\<close>

definition main_step :: "main_event \<Rightarrow> process \<Rightarrow> process" where
  "main_step e p =
     (if pr_pc p = MainReturned \<or> pr_pc p = Terminated then p
      else case e of
        ThreadEnded t \<Rightarrow> p\<lparr>pr_running := pr_running p - {t}\<rparr>
      | ThreadThrew t \<Rightarrow> if t \<in> pr_running p then p\<lparr>pr_pc := Terminated, pr_running := {}\<rparr> else p
      | ThreadCreated \<Rightarrow>
          (case pr_pc p of
             Creating (t # ts) \<Rightarrow>
               p\<lparr>pr_pc := (if ts = [] then Discovering else Creating ts), pr_running := insert t (pr_running p),
                 pr_joinable := insert t (pr_joinable p)\<rparr>
           | _ \<Rightarrow> p)
      | CreationFailed \<Rightarrow>
          (case pr_pc p of Creating (t # ts) \<Rightarrow> p\<lparr>pr_pc := Terminated, pr_running := {}\<rparr> | _ \<Rightarrow> p)
      | DiscoveryReturned \<Rightarrow> if pr_pc p = Discovering then p\<lparr>pr_pc := Joining main_threads\<rparr> else p
      | JoinReturned \<Rightarrow>
          (case pr_pc p of
             Joining (t # ts) \<Rightarrow>
               if t \<in> pr_running p then p
               else (let joinable = pr_joinable p - {t}
                     in if ts \<noteq> [] then p\<lparr>pr_pc := Joining ts, pr_joinable := joinable\<rparr>
                        else if joinable = {} then p\<lparr>pr_pc := MainReturned, pr_joinable := {}\<rparr>
                        else p\<lparr>pr_pc := Terminated, pr_running := {}\<rparr>)
           | _ \<Rightarrow> p))"

text \<open>The process after its initialization.\<close>

definition main_process :: "start_failure + DeviceIdentity \<times> world \<Rightarrow> main_event list \<Rightarrow> process" where
  "main_process init events =
     fold main_step events
       \<lparr>pr_pc = (case init of Inl _ \<Rightarrow> Terminated | Inr _ \<Rightarrow> Creating main_threads), pr_running = {}, pr_joinable = {}\<rparr>"

section \<open>Lemmas\<close>

lemma path_filename_last:
  assumes "CHR ''/'' \<notin> set q" and "p \<noteq> []"
  shows "path_filename (path_append p q) = q"
  using assms by (cases p rule: rev_cases) (auto simp: path_filename_def path_append_def takeWhile_append)

lemma path_append_not_Nil [simp]: "q \<noteq> [] \<Longrightarrow> path_append p q \<noteq> []"
  by (simp add: path_append_def)

lemma default_identity_filename: "default_identity_path entry = Inr path \<Longrightarrow> path_filename path = ''device_id''"
  by (auto simp: default_identity_path_def path_filename_last split: sum.splits)

lemma home_loop_filename: "home_loop getpw n = Inr path \<Longrightarrow> path_filename path = ''trust.sqlite3''"
proof (induction getpw n rule: home_loop.induct)
  case (1 getpw capacity)
  show ?case
  proof (cases "getpw capacity = PwRange \<and> 0 < capacity \<and> capacity < 1024 * 1024")
    case True
    then show ?thesis using 1 home_loop.simps [of getpw capacity] by simp
  next
    case False
    then show ?thesis using "1.prems" home_loop.simps [of getpw capacity]
      by (auto simp: path_filename_last split: passwd_answer.splits if_splits)
  qed
qed

lemma default_database_filename: "default_database_path xdg getpw = Inr path \<Longrightarrow> path_filename path = ''trust.sqlite3''"
  by (auto simp: default_database_path_def path_filename_last home_loop_filename split: option.splits if_splits)

text \<open>The identity of a process is read from the disk once.\<close>

lemma identity_cached:
  assumes "get_my_device_identity S env None s = (Value (identity, cache), s1)"
  shows "get_my_device_identity S env cache s2 = (Value (identity, cache), s2)"
    and "get_my_device_id S env cache s2 = (Value (di_device_id identity, cache), s2)"
  using assms
  by (auto simp: get_my_device_id_def get_my_device_identity_def bindp_def returnp_def split: prod.splits outcome.splits)

text \<open>A thread is created once and joined once; what is to be joined at the end of \<open>main\<close> is what was
  created.\<close>

definition process_ok :: "process \<Rightarrow> bool" where
  "process_ok p \<longleftrightarrow> pr_running p \<subseteq> pr_joinable p \<and>
     (case pr_pc p of
        Creating ts \<Rightarrow> ts \<noteq> [] \<and> suffix ts main_threads \<and> pr_joinable p = set main_threads - set ts
      | Discovering \<Rightarrow> pr_joinable p = set main_threads
      | Joining ts \<Rightarrow> ts \<noteq> [] \<and> suffix ts main_threads \<and> pr_joinable p = set ts
      | MainReturned \<Rightarrow> pr_joinable p = {}
      | Terminated \<Rightarrow> pr_running p = {})"

lemma distinct_suffix: "suffix (t # ts) main_threads \<Longrightarrow> t \<notin> set ts \<and> t \<in> set main_threads \<and> suffix ts main_threads"
  by (auto simp: suffix_def main_threads_def Cons_eq_append_conv)

lemma main_step_ok:
  assumes "process_ok p"
  shows "process_ok (main_step e p)"
proof (cases "pr_pc p = MainReturned \<or> pr_pc p = Terminated")
  case False
  have sub: "pr_running p \<subseteq> pr_joinable p" using assms by (simp add: process_ok_def)
  show ?thesis
  proof (cases e)
    case ThreadCreated
    with assms False show ?thesis
      by (auto simp: main_step_def process_ok_def dest!: distinct_suffix split: main_pc.splits list.splits)
  next
    case JoinReturned
    with assms False show ?thesis
      by (auto simp: main_step_def process_ok_def Let_def dest: distinct_suffix split: main_pc.splits list.splits)
  next
    case DiscoveryReturned
    with assms False show ?thesis by (auto simp: main_step_def process_ok_def main_threads_def)
  next
    case CreationFailed
    with assms False show ?thesis by (auto simp: main_step_def process_ok_def split: main_pc.splits list.splits)
  next
    case (ThreadEnded t)
    with assms False show ?thesis by (auto simp: main_step_def process_ok_def split: main_pc.splits)
  next
    case (ThreadThrew t)
    with assms False show ?thesis by (auto simp: main_step_def process_ok_def split: main_pc.splits)
  qed
qed (use assms in \<open>simp add: main_step_def\<close>)

lemma fold_main_step_ok: "process_ok p \<Longrightarrow> process_ok (fold main_step events p)"
  by (induction events arbitrary: p) (simp_all add: main_step_ok)

lemma main_process_ok: "process_ok (main_process init events)"
  unfolding main_process_def
  by (rule fold_main_step_ok) (simp add: process_ok_def main_threads_def split: sum.split)

text \<open>\<open>main\<close> returns only when all its threads have ended and were joined; without the initialization no
  thread ever runs.\<close>

lemma main_returns_joined: "pr_pc (main_process init events) = MainReturned \<Longrightarrow>
    pr_running (main_process init events) = {} \<and> pr_joinable (main_process init events) = {}"
  using main_process_ok [of init events] by (auto simp: process_ok_def)

lemma failed_start_runs_nothing: "pr_running (main_process (Inl e) events) = {}"
proof -
  have "fold main_step events p = p" if "pr_pc p = Terminated" for p
    using that by (induction events) (simp_all add: main_step_def)
  then show ?thesis by (simp add: main_process_def)
qed

text \<open>Threads that end let \<open>main\<close> return.\<close>

lemma main_step_simps:
  "main_step ThreadCreated \<lparr>pr_pc = Creating (t # ts), pr_running = R, pr_joinable = J\<rparr> =
     \<lparr>pr_pc = (if ts = [] then Discovering else Creating ts), pr_running = insert t R, pr_joinable = insert t J\<rparr>"
  "main_step DiscoveryReturned \<lparr>pr_pc = Discovering, pr_running = R, pr_joinable = J\<rparr> =
     \<lparr>pr_pc = Joining main_threads, pr_running = R, pr_joinable = J\<rparr>"
  "main_step (ThreadEnded t) \<lparr>pr_pc = Joining ts, pr_running = R, pr_joinable = J\<rparr> =
     \<lparr>pr_pc = Joining ts, pr_running = R - {t}, pr_joinable = J\<rparr>"
  "main_step JoinReturned \<lparr>pr_pc = Joining (t # u # ts), pr_running = {}, pr_joinable = J\<rparr> =
     \<lparr>pr_pc = Joining (u # ts), pr_running = {}, pr_joinable = J - {t}\<rparr>"
  "main_step JoinReturned \<lparr>pr_pc = Joining [t], pr_running = {}, pr_joinable = {t}\<rparr> =
     \<lparr>pr_pc = MainReturned, pr_running = {}, pr_joinable = {}\<rparr>"
  by (simp_all add: main_step_def Let_def)

lemma main_can_return:
  "pr_pc (main_process (Inr iw) (replicate 4 ThreadCreated @ [DiscoveryReturned] @ map ThreadEnded main_threads @
     replicate 4 JoinReturned)) = MainReturned"
proof -
  let ?all = "{ApiThread, SenderThread, DiscoveryServiceThread, ServerThread}"
  have "main_process (Inr iw) (replicate 4 ThreadCreated @ [DiscoveryReturned]) =
      \<lparr>pr_pc = Joining main_threads, pr_running = ?all, pr_joinable = ?all\<rparr>"
    by (simp add: main_process_def main_step_simps main_threads_def numeral_eq_Suc)
  moreover have "fold main_step (map ThreadEnded main_threads) \<lparr>pr_pc = Joining ts, pr_running = ?all, pr_joinable = ?all\<rparr> =
      \<lparr>pr_pc = Joining ts, pr_running = {}, pr_joinable = ?all\<rparr>" for ts
    by (auto simp: main_step_simps main_threads_def)
  moreover have "fold main_step (replicate 4 JoinReturned) \<lparr>pr_pc = Joining main_threads, pr_running = {}, pr_joinable = ?all\<rparr> =
      \<lparr>pr_pc = MainReturned, pr_running = {}, pr_joinable = {}\<rparr>"
    by (simp add: main_step_simps main_threads_def numeral_eq_Suc insert_Diff_if)
  ultimately show ?thesis by (simp add: main_process_def)
qed

lemma daemon_init_Inr:
  assumes "daemon_init S env (es, d) (es2, dir) = Inr (identity, w)"
  obtains es1 d1 st es3 dir1 where
    "load_or_create S ((se_identity env)\<lparr>ie_filename := ''device_id''\<rparr>) (es, d) = (Value identity, es1, d1)"
    "open_store ((se_store env)\<lparr>oe_sql := (oe_sql (se_store env))\<lparr>db_filename := ''trust.sqlite3''\<rparr>\<rparr>) (es2, dir) =
       (Value st, es3, dir1)"
    "w = initial_world st new_auth new_monitor"
  using assms
  by (auto simp: daemon_init_def SessionAuthentication_create_def get_my_device_identity_def load_or_create_default_def open_default_store_def bindp_def
      returnp_def raisep_def split: prod.splits outcome.splits sum.splits
      dest!: default_identity_filename default_database_filename)

lemma endpoints_of_main:
  assumes "daemon_main S env ids sts se ae = (r, eps)" and "ep \<in> set eps"
  shows "(\<exists>iw. r = Inr iw) \<and>
    (ep_address ep = INADDR_ANY \<and> ep_port ep = 42666 \<or> ep_address ep = INADDR_LOOPBACK \<and> ep_port ep = 42667)"
proof (cases "daemon_init S env ids sts")
  case (Inl e)
  then show ?thesis using assms by (simp add: daemon_main_def)
next
  case (Inr iw)
  then have r: "r = Inr iw" using assms(1) by (simp add: daemon_main_def)
  have "ep \<in> set ((case snd (server_listen se) of None \<Rightarrow> [] | Some (_, ep) \<Rightarrow> [ep]) @
      (case snd (api_listen ae) of None \<Rightarrow> [] | Some (_, ep) \<Rightarrow> [ep]))"
    using assms Inr by (auto simp: daemon_main_def)
  then show ?thesis
    by (auto simp: r server_listen_def api_listen_def Let_def SERVER_PORT_def API_PORT_def split: if_splits)
qed

text \<open>A listening socket that could not be set up is closed again, and only then.\<close>

lemma listen_closes:
  "le_socket le \<ge> 0 \<Longrightarrow> fst (server_listen le) = (if snd (server_listen le) = None then [le_socket le] else [])"
  "le_socket le \<ge> 0 \<Longrightarrow> fst (api_listen le) = (if snd (api_listen le) = None then [le_socket le] else [])"
  by (simp_all add: server_listen_def api_listen_def Let_def)

lemma sender_wait_Some: "sender_wait my_id rs = Some n \<Longrightarrow> n < length rs \<and> found_ready my_id (rs ! n)"
  by (induction my_id rs arbitrary: n rule: sender_wait.induct) (auto split: if_splits)

end
