(* ===== verification/Spec2Isabelle.thy ===== *)
theory Spec2Isabelle
  imports Gasoline_Prelude Framing Packet Event_Bus Trust_Codec Trust_Store Trust_Refinement Session_Auth Device_Registry Transport Connection Session_Safety Session_Liveness Delivery Handshake Durable_Storage Device_Identity Ownership File_Descriptor Api_Server Console Discovery Noise Avahi Trust_Open Daemon
begin

text \<open>
  Gasoline is a daemon that finds other devices of its owner on the local network, keeps one
  authenticated session to each of them and exchanges messages over these sessions.  This is the
  root of a verification library for its C++ sources.

  \<^bold>\<open>The program and the theories.\<close>

  \<^item> \<open>core/protocol/v2_framing\<close>: the preface and the length-prefixed records of the wire format.
    \<open>Framing\<close> has the constants, \<open>encode_record\<close> and the whole \<open>RecordParser\<close> (state record \<open>parser\<close>,
    operations \<open>consume\<close>, \<open>finish\<close>, \<open>reset_record\<close>).  The record callback is a parameter with a state of
    its own, so a callback that throws or stops the parser is covered; locale \<open>record_client\<close> is the
    interface between the parser and its client, interpreted for a collector and for sessions.
  \<^item> \<open>core/protocol/packet\<close>: \<open>Packet\<close>, over a datatype of JSON values; the JSON library's text
    parser and printer are parameters.
  \<^item> \<open>core/events/event_bus\<close>: \<open>Event_Bus\<close>.
  \<^item> \<open>core/trust\<close>: the persistent store of trusted peers and pairing attempts.  \<open>Trust_Codec\<close> has the
    identifiers, \<open>Trust_Store\<close> the tables with the constraints of the schema, the SQL statements,
    transactions and one function per operation of the class; \<open>Trust_Refinement\<close> the invariant
    \<open>wf_db\<close>, the abstract store (a partial function from UUIDs to trust records and one from attempt
    ids to attempts) and the simulation.  \<open>Trust_Open\<close> is the constructor of the store: state directory,
    initialization lock, database file, checks, migration, as programs of \<open>Durable_Storage\<close>; the predicate
    \<open>store_life\<close> is the history of a state directory over many runs.
  \<^item> \<open>core/auth/session_authentication\<close>: \<open>Session_Auth\<close> has the gate, the table of live sessions and the
    monitor thread as a step function with explicit program counters; locale \<open>change_notifier\<close> is what
    the monitor needs of the store.
  \<^item> \<open>core/device\<close>: \<open>Device_Registry\<close>, the table of ready devices and the arbitration between two
    sessions to one device.
  \<^item> \<open>core/networking/connection\<close> and what it calls (connection manager, packet router, the three
    handlers, message service): \<open>Transport\<close> has the byte level with deadlines, \<open>Connection\<close> the session
    object and its operations on the state of the whole daemon (record \<open>world\<close>), \<open>Session_Safety\<close> the
    invariant of the daemon over every interleaving of its operations (\<open>world_run\<close>) and
    \<open>Session_Liveness\<close> what must eventually happen to a session.  \<open>Delivery\<close> and \<open>Handshake\<close> join two
    daemons: every step is a \<open>send_packet\<close> or \<open>receive_step\<close> of \<open>Connection\<close>, and what one daemon adds to its
    bytes travels to the other one in pieces of any size.
  \<^item> \<open>core/identity\<close> and \<open>core/utils/device_id\<close>: \<open>Durable_Storage\<close> is the file system with failing calls,
    kills and losses of power, with a Hoare logic for it; \<open>Device_Identity\<close> is \<open>load_or_create\<close>
    with everything it calls, \<open>File_Descriptor\<close> the class that owns its open files.  \<open>Ownership\<close> has the locale
    \<open>move_only\<close> of classes whose objects own a resource and hand it on, interpreted for \<open>FileDescriptor\<close> and for
    \<open>NoiseSession\<close>.
  \<^item> \<open>interface/api_server\<close>: \<open>Api_Server\<close>, the local HTTP interface.
  \<^item> \<open>core/utils/logger\<close>, \<open>packet_monitor\<close> and \<open>list_devices\<close> of the registry: \<open>Console\<close>, what the daemon
    prints.
  \<^item> \<open>core/discovery\<close>, \<open>core/networking/connect\<close>, \<open>server\<close> and \<open>client_handler\<close>: \<open>Discovery\<close>, from a
    discovered device or an accepted socket to a running session.
  \<^item> \<open>platform/linux/discovery\<close> and \<open>core/discovery/discovery_service\<close>: \<open>Avahi\<close>, the browser and the publisher
    with their callbacks, over a model of the objects of the Avahi library that records every use of an object
    that does not exist; locale \<open>event_loop_owner\<close> is what the two classes share.  It also has the constructors of
    \<open>discovery_factory\<close> and \<open>start\<close> and \<open>stop\<close> of the discovery client, which runs the browser.
  \<^item> \<open>core/noise\<close>: \<open>Noise\<close>, the C interface of the Rust library (states of a handle, checks of buffers and
    addresses, contained panics) and the move-only owner \<open>NoiseSession\<close>; locale \<open>handle_operation\<close> is
    the contract that the nine operations on a handle share.
  \<^item> \<open>daemon/main.cpp\<close>: \<open>Daemon\<close>, the default paths and the cached identity, the order of the initialization, the two listening sockets and their
    accept loops, the sender thread, and the threads of \<open>main\<close> as a state machine (\<open>main_step\<close>): their creation, the
    discovery in the main thread, the joins.

  \<^bold>\<open>How the parts interact.\<close>  A discovered or accepted socket becomes a connection.  Its worker sends the
  preface and feeds received bytes to the record parser, whose callback parses a packet and routes
  it.  A verified identity becomes an \<open>AuthorizedPeer\<close> only through the trust store; activation puts the
  session in the table of live sessions and its device in the registry.  The monitor polls the change
  token of the store and disconnects every live session whose record no longer matches.  The message
  service and the HTTP interface send to the sessions of the registry and read the event bus.  The
  publisher advertises the device id of the identity; the browser of another daemon resolves it and its
  discovery client connects.

  \<^bold>\<open>What is shown.\<close>  The store refines its abstract specification and rolls back on every
  failure; only a confirmed pairing or an administrator makes a peer trusted; a revision identifies a
  record; a revoked session is disconnected within a bounded number of steps of the monitor.  Before
  authentication a session accepts one valid hello and nothing else, and ends by its
  deadline; two daemons that open a session to each other complete the exchange of prefaces and hellos
  without stalling (\<open>setup_completes\<close>), and the messages of one arrive at the other in order, each once, as events of the
  authenticated sender (\<open>messages_arrive\<close>); devices in the registry belong to authenticated sessions, events come from currently
  authorized peers, the bytes sent on a session are always a prefix of a well-formed stream, and a
  socket is shut down and closed once.  Framing does not depend on how bytes are cut, round-trips, accepts only
  encoded streams and is bounded in memory.  The identity, once returned, survives kills and
  losses of power and is never silently replaced, and neither are the trust records; a file descriptor has
  exactly one owner and is closed once.  The HTTP interface
  reassembles requests and can only read events and send messages.  The daemon opens its endpoints only with identity and trust
  store in place (\<open>daemon_starts_safely\<close>, below, which joins the histories of the two stores to the runs of
  the daemon).  The browser and the publisher release what they create and use no freed
  object, and what is published is what is found.  A Noise handle has exactly one owner, its failures
  are final, and messages arrive unchanged and in order.

  \<^bold>\<open>Choices of the model.\<close>  Strings are lists of 8-bit characters.  Sizes of buffers are natural numbers
  where the code's guards keep them far below \<open>2 ^ 64\<close>; the record header is computed on 64-bit words.
  SQLite integers are \<open>int\<close> with the code's guards on revisions; the change token is a 64-bit word, so a claim
  about the monitor is for fewer than \<open>2 ^ 64\<close> writes.  The operating system, SQLite
  failures, clocks and thread scheduling are the answers of an environment, universally quantified in the
  claims.  Each critical section of the code is one step, and every order of steps is a run.  Loops that
  wait for the outside world (the receive loop of a session, the accept loop) have fuel; \<open>session_setup_ends\<close>
  shows that a number of rounds that reaches a time after the deadline is enough, and everything else is
  total.  In \<open>Delivery\<close> and \<open>Handshake\<close> the network neither loses nor reorders bytes, as TCP promises; the
  steps of other threads may be anything that leaves the session alone.  Cryptography (libsodium, and clatter behind the Noise interface), the JSON library, the text functions of Avahi and the resolver of
  addresses are parameters.  What is assumed of them is a hypothesis of the claim that needs it: key derivation agrees with key generation,
  the JSON parser inverts the printer on the values that packets use, a receiving transport state inverts the sending one, a committed SQLite transaction survives a loss of power and an initialized database file
  has at least the 100 bytes of its header, a TXT pair is found under its key.

  \<^bold>\<open>Not modelled.\<close>  Nothing in the program reads what it prints, so the calls of the logger are left out of the operations that
  make them (\<open>Console\<close> has the functions themselves).  The clearing of secret memory (\<open>SecretBuffer\<close>, the destructor of
  \<open>DeviceIdentity\<close>) and the capacity that strings reserve have no effect that a program can observe.  The headers with abstract
  classes have no behaviour.  The functions of the Rust library under \<open>test-support\<close>, the tests and the build files are not part of the
  daemon.  No session uses Noise yet, so there is no theorem about a session over it.
\<close>

section \<open>From the start of the process to its runs\<close>

text \<open>C7. The daemon fails closed: it opens a listening endpoint only after the device identity was loaded and the
  trust store opened, and only port 42666 is open to the network and port 42667 to the local host.  Its identity is
  the one that every earlier run returned, the trust records are exactly those that earlier runs left, and the state
  it starts in begins a run of the daemon, so that everything shown of runs holds of it.\<close>

theorem daemon_starts_safely:
  assumes "store_life env0 ''trust.sqlite3'' dir db" and "100 \<le> oe_written_size (se_store env)"
    and "identity_history S (ie_euid (se_identity env)) ''device_id'' d ids" and "sodium_behaves S (se_identity env)"
    and "daemon_main S env (es, d) (es2, dir) server_env local_env = (r, endpoints)"
    and "ep \<in> set endpoints"
  shows "\<exists>identity w. r = Inr (identity, w) \<and> set ids \<subseteq> {identity} \<and> ts_db (w_store w) = db \<and>
    world_run h env0 0 w \<and>
    (ep_address ep = INADDR_ANY \<and> ep_port ep = 42666 \<or> ep_address ep = INADDR_LOOPBACK \<and> ep_port ep = 42667)"
proof -
  let ?ienv = "(se_identity env)\<lparr>ie_filename := ''device_id''\<rparr>"
  let ?oenv = "(se_store env)\<lparr>oe_sql := (oe_sql (se_store env))\<lparr>db_filename := ''trust.sqlite3''\<rparr>\<rparr>"
  obtain identity w where r: "r = Inr (identity, w)" using endpoints_of_main [OF assms(5,6)] by auto
  then have "daemon_init S env (es, d) (es2, dir) = Inr (identity, w)"
    using assms(5) by (auto simp: daemon_main_def split: sum.splits)
  then obtain es1 d1 st es3 dir1 where identity: "load_or_create S ?ienv (es, d) = (Value identity, es1, d1)"
    and store: "open_store ?oenv (es2, dir) = (Value st, es3, dir1)" and w: "w = initial_world st new_auth new_monitor"
    by (rule daemon_init_Inr)
  have "sodium_behaves S ?ienv" using assms(4) by (simp add: sodium_behaves_def)
  then have "identity_history S (ie_euid (se_identity env)) ''device_id'' d1 (identity # ids)"
    using history_run [OF assms(3) _ _ _ identity] by simp
  from history_established [OF this] have "a = identity" if "a \<in> set ids" for a
    using that by (intro established_unique [of S "ie_euid (se_identity env)" "''device_id''" a d1]) simp_all
  then have ids: "set ids \<subseteq> {identity}" by auto
  have "ts_db st = db \<and> wf_db env0 db \<and> ts_local_generation st = 0"
    using opened_records [OF _ _ store] assms(1,2) by simp
  then have "ts_db (w_store w) = db" "world_run h env0 0 w"
    using world_start [of env0 st h] by (simp_all add: w initial_world_def)
  then show ?thesis using r ids endpoints_of_main [OF assms(5,6)] by blast
qed

definition sample_listen :: listen_env where
  "sample_listen = \<lparr>le_socket = 3, le_setsockopt = 0, le_bind = 0, le_listen = 0\<rparr>"

definition sample_start :: start_env where
  "sample_start = \<lparr>se_getpwuid = Some (Some ''/home/me''), se_identity = sample_identity_env (replicate 16 1),
     se_state_home = None, se_getpwuid_r = (\<lambda>_. PwDir ''/home/me''), se_store = sample_open_env\<rparr>"

definition sample_main :: "(start_failure + DeviceIdentity \<times> world) \<times> endpoint list" where
  "sample_main = daemon_main sample_sodium sample_start
     (sample_calls, sample_disk) (replicate 64 (Proceed 0), sample_state_dir) sample_listen sample_listen"

lemma sample_start_identity: "load_or_create_default S sample_start = load_or_create S (sample_identity_env (replicate 16 1))"
  by (simp add: load_or_create_default_def default_identity_path_def resolve_home_directory_def sample_start_def
      path_filename_last sample_identity_env_def)

lemma sample_start_store: "open_default_store sample_start = open_store sample_open_env"
  by (simp add: open_default_store_def default_database_path_def home_loop.simps sample_start_def path_filename_last
      sample_open_env_def sample_sql_def)

lemma sample_main_endpoints:
  "snd sample_main = [\<lparr>ep_address = INADDR_ANY, ep_port = 42666, ep_backlog = 5\<rparr>,
     \<lparr>ep_address = INADDR_LOOPBACK, ep_port = 42667, ep_backlog = 8\<rparr>]"
proof -
  obtain a es1 d1 where first: "load_or_create sample_sodium (sample_identity_env (replicate 16 1)) (sample_calls, sample_disk) =
      (Value a, es1, d1)"
    using sample_first_value unfolding sample_first_def by (metis prod.collapse)
  obtain st es3 dir1 where store: "open_store sample_open_env (replicate 64 (Proceed 0), sample_state_dir) = (Value st, es3, dir1)"
    using first_opening_returns unfolding first_opening_def by (metis prod.collapse)
  show ?thesis
    by (simp add: sample_main_def daemon_main_def daemon_init_def SessionAuthentication_create_def get_my_device_identity_def sample_start_identity
        sample_start_store bindp_def returnp_def first store server_listen_def api_listen_def
        sample_listen_def SERVER_PORT_def API_PORT_def)
qed

theorem daemon_starts_safely_witness:
  "\<exists>identity w. fst sample_main = Inr (identity, w) \<and> ts_db (w_store w) = empty_db \<and> world_run sample_host sample_sql 0 w"
proof -
  have store: "store_life sample_sql ''trust.sqlite3'' sample_state_dir empty_db"
    by (rule life_new) (simp add: sample_state_dir_def)
  have size: "100 \<le> oe_written_size (se_store sample_start)" by (simp add: sample_start_def sample_open_env_def)
  have "safe_names ''device_id'' sample_disk" by (simp add: safe_names_def sample_disk_def synced_entry_def)
  then have history: "identity_history sample_sodium (ie_euid (se_identity sample_start)) ''device_id'' sample_disk []"
    by (rule history_start)
  have behaves: "sodium_behaves sample_sodium (se_identity sample_start)"
    using sample_behaves [of "replicate 16 1"] by (simp add: sample_start_def)
  have run: "daemon_main sample_sodium sample_start (sample_calls, sample_disk)
      (replicate 64 (Proceed 0), sample_state_dir) sample_listen sample_listen = (fst sample_main, snd sample_main)"
    by (simp add: sample_main_def)
  have "\<lparr>ep_address = INADDR_ANY, ep_port = 42666, ep_backlog = 5\<rparr> \<in> set (snd sample_main)"
    by (simp add: sample_main_endpoints)
  from daemon_starts_safely [OF store size history behaves run this, of sample_host] show ?thesis by blast
qed

end
